(* ===== verification/Base_Numbers.thy ===== *)
theory Base_Numbers
  imports Prelude
begin

text \<open>
  The numbers of \<^verbatim>\<open>linera-base/src/data_types.rs\<close>: the operations that the macro
  \<^verbatim>\<open>impl_wrapped_number!\<close> generates for \<^verbatim>\<open>Amount\<close> (\<open>u128\<close>), \<^verbatim>\<open>BlockHeight\<close> and \<^verbatim>\<open>TimeDelta\<close>
  (\<open>u64\<close>), the \<^verbatim>\<open>Timestamp\<close> arithmetic and the \<^verbatim>\<open>Amount\<close> constructors. The generated code is
  polymorphic in the wrapped type, so it is modelled once, over \<open>'a::len word\<close>.
\<close>

type_synonym Amount = u128
type_synonym BlockHeight = u64
type_synonym TimeDelta = u64
type_synonym Timestamp = u64

datatype ArithmeticError = Overflow | Underflow

section \<open>Checked and saturating operations of the primitive integers\<close>

definition checked_add :: "'a::len word \<Rightarrow> 'a word \<Rightarrow> 'a word option" where
  "checked_add a b = (if unat a + unat b < 2 ^ LENGTH('a) then Some (a + b) else None)"

definition checked_sub :: "'a::len word \<Rightarrow> 'a word \<Rightarrow> 'a word option" where
  "checked_sub a b = (if b \<le> a then Some (a - b) else None)"

definition checked_mul :: "'a::len word \<Rightarrow> 'a word \<Rightarrow> 'a word option" where
  "checked_mul a b = (if unat a * unat b < 2 ^ LENGTH('a) then Some (a * b) else None)"

definition num_max :: "'a::len word" where
  "num_max = - 1"

lemma unat_num_max [simp]: "unat (num_max :: 'a::len word) = 2 ^ LENGTH('a) - 1"
  by (simp add: num_max_def unsigned_minus_1_eq_mask mask_eq_exp_minus_1)

lemma unat_lt_pow [simp]: "unat (a :: 'a::len word) < 2 ^ LENGTH('a)"
  by (rule unsigned_less)

lemma unat_le_pow [word_bounds]: "unat (a :: 'a::len word) \<le> 2 ^ LENGTH('a) - 1"
  using unat_lt_pow [of a] by linarith

lemma checked_add_Some: "checked_add a b = Some c \<Longrightarrow> unat c = unat a + unat b"
  by (auto simp: checked_add_def unat_word_ariths split: if_splits)

lemma checked_sub_Some: "checked_sub a b = Some c \<Longrightarrow> unat c = unat a - unat b"
  by (auto simp: checked_sub_def unat_sub split: if_splits)

lemma checked_mul_Some: "checked_mul a b = Some c \<Longrightarrow> unat c = unat a * unat b"
  by (auto simp: checked_mul_def unat_word_ariths split: if_splits)

lemma checked_add_None: "checked_add a b = None \<longleftrightarrow> 2 ^ LENGTH('a) \<le> unat a + unat (b :: 'a::len word)"
  by (auto simp: checked_add_def)

lemma checked_sub_None: "checked_sub a b = None \<longleftrightarrow> unat a < unat b"
  by (auto simp: checked_sub_def word_le_nat_alt)

lemma checked_mul_None: "checked_mul a b = None \<longleftrightarrow> 2 ^ LENGTH('a) \<le> unat a * unat (b :: 'a::len word)"
  by (auto simp: checked_mul_def)

section \<open>The macro \<^verbatim>\<open>impl_wrapped_number!\<close>\<close>

definition try_add :: "'a::len word \<Rightarrow> 'a word \<Rightarrow> ArithmeticError + 'a word" where
  "try_add self other = ok_or (checked_add self other) Overflow"

definition try_add_one :: "'a::len word \<Rightarrow> ArithmeticError + 'a word" where
  "try_add_one self = ok_or (checked_add self 1) Overflow"

definition saturating_add :: "'a::len word \<Rightarrow> 'a word \<Rightarrow> 'a word" where
  "saturating_add self other =
     (case checked_add self other of Some v \<Rightarrow> v | None \<Rightarrow> num_max)"

definition try_sub :: "'a::len word \<Rightarrow> 'a word \<Rightarrow> ArithmeticError + 'a word" where
  "try_sub self other = ok_or (checked_sub self other) Underflow"

definition try_sub_one :: "'a::len word \<Rightarrow> ArithmeticError + 'a word" where
  "try_sub_one self = ok_or (checked_sub self 1) Underflow"

definition saturating_sub :: "'a::len word \<Rightarrow> 'a word \<Rightarrow> 'a word" where
  "saturating_sub self other = (case checked_sub self other of Some v \<Rightarrow> v | None \<Rightarrow> 0)"

definition saturating_mul :: "'a::len word \<Rightarrow> 'a word \<Rightarrow> 'a word" where
  "saturating_mul self other =
     (case checked_mul self other of Some v \<Rightarrow> v | None \<Rightarrow> num_max)"

definition try_mul :: "'a::len word \<Rightarrow> 'a word \<Rightarrow> ArithmeticError + 'a word" where
  "try_mul self other = ok_or (checked_mul self other) Overflow"

text \<open>The \<^verbatim>\<open>_assign\<close> variants write the same result back; on an error they leave \<open>self\<close> alone,
  so each is a pair of the result and the value left in \<open>self\<close>.\<close>

definition assign_num :: "'a word \<Rightarrow> ArithmeticError + 'a::len word \<Rightarrow> (ArithmeticError + unit) \<times> 'a word" where
  "assign_num self r = (case r of Inl e \<Rightarrow> (Inl e, self) | Inr v \<Rightarrow> (Inr (), v))"

definition try_add_assign :: "'a::len word \<Rightarrow> 'a word \<Rightarrow> (ArithmeticError + unit) \<times> 'a word" where
  "try_add_assign self other = assign_num self (ok_or (checked_add self other) Overflow)"

definition try_add_assign_one :: "'a::len word \<Rightarrow> (ArithmeticError + unit) \<times> 'a word" where
  "try_add_assign_one self = assign_num self (ok_or (checked_add self 1) Overflow)"

definition saturating_add_assign :: "'a::len word \<Rightarrow> 'a word \<Rightarrow> 'a word" where
  "saturating_add_assign self other = saturating_add self other"

definition try_sub_assign :: "'a::len word \<Rightarrow> 'a word \<Rightarrow> (ArithmeticError + unit) \<times> 'a word" where
  "try_sub_assign self other = assign_num self (ok_or (checked_sub self other) Underflow)"

definition try_mul_assign :: "'a::len word \<Rightarrow> 'a word \<Rightarrow> (ArithmeticError + unit) \<times> 'a word" where
  "try_mul_assign self other = assign_num self (ok_or (checked_mul self other) Overflow)"

lemma try_add_Inr [result_simps]:
  "try_add a b = Inr c \<longleftrightarrow> unat a + unat b < 2 ^ LENGTH('a) \<and> c = a + (b :: 'a::len word)"
  by (auto simp: try_add_def checked_add_def)

lemma try_add_Inl [result_simps]:
  "try_add a b = Inl e \<longleftrightarrow> e = Overflow \<and> 2 ^ LENGTH('a) \<le> unat a + unat (b :: 'a::len word)"
  by (auto simp: try_add_def checked_add_None)

lemma try_sub_Inr [result_simps]: "try_sub a b = Inr c \<longleftrightarrow> b \<le> a \<and> c = a - b"
  by (auto simp: try_sub_def checked_sub_def)

lemma try_sub_Inl [result_simps]: "try_sub a b = Inl e \<longleftrightarrow> e = Underflow \<and> a < b"
  by (auto simp: try_sub_def checked_sub_def)

lemma try_add_unat: "try_add a b = Inr c \<Longrightarrow> unat c = unat a + unat b"
  by (simp add: try_add_def checked_add_Some)

lemma try_sub_unat: "try_sub a b = Inr c \<Longrightarrow> unat c + unat b = unat a"
  by (auto simp: try_sub_def checked_sub_def unat_sub word_le_nat_alt split: if_splits)

lemma try_add_one_Inr [result_simps]: "try_add_one a = Inr c \<longleftrightarrow> a \<noteq> num_max \<and> c = a + 1"
proof -
  have "unat a + 1 < 2 ^ LENGTH('a) \<longleftrightarrow> a \<noteq> num_max"
    using unat_le_pow [of a] unat_num_max [where 'a='a] word_unat_eq_iff [of a num_max]
    by auto
  then show ?thesis
    by (auto simp: try_add_one_def checked_add_def)
qed

lemma try_add_one_unat: "try_add_one a = Inr c \<Longrightarrow> unat c = unat a + 1"
  by (auto simp: try_add_one_def dest: checked_add_Some)

lemma unat_saturating_add:
  "unat (saturating_add a b) = min (unat a + unat b) (2 ^ LENGTH('a) - 1)" for a b :: "'a::len word"
proof (cases "checked_add a b")
  case None
  moreover from this have "2 ^ LENGTH('a) - 1 \<le> unat a + unat b"
    by (simp add: checked_add_None)
  ultimately show ?thesis by (simp add: saturating_add_def)
next
  case (Some c)
  then show ?thesis using unat_le_pow [of c] by (simp add: saturating_add_def checked_add_Some)
qed

lemma unat_saturating_sub: "unat (saturating_sub a b) = unat a - unat b"
  by (auto simp: saturating_sub_def checked_sub_None dest: checked_sub_Some split: option.split)

lemma unat_saturating_mul:
  "unat (saturating_mul a b) = min (unat a * unat b) (2 ^ LENGTH('a) - 1)" for a b :: "'a::len word"
proof (cases "checked_mul a b")
  case None
  moreover from this have "2 ^ LENGTH('a) - 1 \<le> unat a * unat b"
    by (simp add: checked_mul_None)
  ultimately show ?thesis by (simp add: saturating_mul_def)
next
  case (Some c)
  then show ?thesis using unat_le_pow [of c] by (simp add: saturating_mul_def checked_mul_Some)
qed

section \<open>Durations and timestamps\<close>

definition TimeDelta_from_micros :: "u64 \<Rightarrow> TimeDelta" where
  "TimeDelta_from_micros micros = micros"

definition TimeDelta_from_millis :: "u64 \<Rightarrow> TimeDelta" where
  "TimeDelta_from_millis millis = saturating_mul millis 1000"

definition TimeDelta_from_secs :: "u64 \<Rightarrow> TimeDelta" where
  "TimeDelta_from_secs secs = saturating_mul secs 1000000"

text \<open>\<^verbatim>\<open>std::time::Duration\<close> is its number of nanoseconds; \<^verbatim>\<open>as_micros\<close> truncates.\<close>

definition TimeDelta_from_duration :: "nat \<Rightarrow> TimeDelta" where
  "TimeDelta_from_duration nanos =
     TimeDelta_from_micros
       (if nanos div 1000 < 2 ^ 64 then of_nat (nanos div 1000) else num_max)"

definition TimeDelta_as_micros :: "TimeDelta \<Rightarrow> u64" where
  "TimeDelta_as_micros self = self"

definition TimeDelta_as_duration :: "TimeDelta \<Rightarrow> nat" where
  "TimeDelta_as_duration self = unat (TimeDelta_as_micros self) * 1000"

definition delta_since :: "Timestamp \<Rightarrow> Timestamp \<Rightarrow> TimeDelta" where
  "delta_since self other = TimeDelta_from_micros (saturating_sub self other)"

definition duration_since :: "Timestamp \<Rightarrow> Timestamp \<Rightarrow> nat" where
  "duration_since self other = unat (saturating_sub self other) * 1000"

definition Timestamp_saturating_add :: "Timestamp \<Rightarrow> TimeDelta \<Rightarrow> Timestamp" where
  "Timestamp_saturating_add self duration = saturating_add self duration"

definition Timestamp_saturating_sub :: "Timestamp \<Rightarrow> TimeDelta \<Rightarrow> Timestamp" where
  "Timestamp_saturating_sub self duration = saturating_sub self duration"

definition saturating_add_micros :: "Timestamp \<Rightarrow> u64 \<Rightarrow> Timestamp" where
  "saturating_add_micros self micros = saturating_add self micros"

definition saturating_sub_micros :: "Timestamp \<Rightarrow> u64 \<Rightarrow> Timestamp" where
  "saturating_sub_micros self micros = saturating_sub self micros"

lemma delta_since_add:
  "unat (Timestamp_saturating_add t (delta_since t' t)) = max (unat t) (unat t')"
  using unat_le_pow [of t'] unat_le_pow [of t]
  by (auto simp: Timestamp_saturating_add_def delta_since_def TimeDelta_from_micros_def
      unat_saturating_add unat_saturating_sub)

lemma saturating_add_mono: "(a :: 'a::len word) \<le> saturating_add a b"
  using unat_le_pow [of a] by (simp add: word_le_nat_alt unat_saturating_add)

lemma TimeDelta_as_duration_le: "TimeDelta_as_duration (TimeDelta_from_duration d) \<le> d"
proof (cases "d div 1000 < 2 ^ 64")
  case True
  then have "unat (of_nat (d div 1000) :: u64) = d div 1000"
    by (simp add: unat_of_nat take_bit_eq_mod)
  with True show ?thesis
    by (simp add: TimeDelta_as_duration_def TimeDelta_from_duration_def
        TimeDelta_from_micros_def TimeDelta_as_micros_def)
next
  case False
  then have "(2 ^ 64 - 1) * 1000 \<le> d" by (simp add: not_less)
  with False show ?thesis
    by (simp add: TimeDelta_as_duration_def TimeDelta_from_duration_def
        TimeDelta_from_micros_def TimeDelta_as_micros_def)
qed

section \<open>Amounts\<close>

definition DECIMAL_PLACES :: nat where
  "DECIMAL_PLACES = 18"

definition Amount_ONE :: Amount where
  "Amount_ONE = 10 ^ DECIMAL_PLACES"

definition from_tokens :: "u128 \<Rightarrow> Amount" where
  "from_tokens tokens = saturating_mul Amount_ONE tokens"

definition Amount_from_millis :: "u128 \<Rightarrow> Amount" where
  "Amount_from_millis millitokens = saturating_mul (10 ^ (DECIMAL_PLACES - 3)) millitokens"

definition Amount_from_micros :: "u128 \<Rightarrow> Amount" where
  "Amount_from_micros microtokens = saturating_mul (10 ^ (DECIMAL_PLACES - 6)) microtokens"

definition Amount_from_nanos :: "u128 \<Rightarrow> Amount" where
  "Amount_from_nanos nanotokens = saturating_mul (10 ^ (DECIMAL_PLACES - 9)) nanotokens"

definition from_attos :: "u128 \<Rightarrow> Amount" where
  "from_attos attotokens = attotokens"

definition upper_half :: "Amount \<Rightarrow> u64" where
  "upper_half self = ucast (drop_bit 64 self)"

definition lower_half :: "Amount \<Rightarrow> u64" where
  "lower_half self = ucast self"

definition saturating_div :: "Amount \<Rightarrow> Amount \<Rightarrow> u128" where
  "saturating_div self other = (if other = 0 then num_max else self div other)"

fun Amount_sum :: "Amount list \<Rightarrow> Amount" where
  "Amount_sum amounts = foldl (\<lambda>a b. saturating_add a b) 0 amounts"

lemma unat_foldl_saturating_add:
  "unat (foldl saturating_add a xs) = min (unat a + sum_list (map unat xs)) (2 ^ LENGTH('a) - 1)"
  for a :: "'a::len word"
proof (induction xs arbitrary: a)
  case Nil
  then show ?case using unat_le_pow [of a] by simp
next
  case (Cons x xs)
  then show ?case by (simp add: unat_saturating_add)
qed

lemma unat_Amount_sum: "unat (Amount_sum xs) = min (sum_list (map unat xs)) (2 ^ 128 - 1)"
  using unat_foldl_saturating_add [of 0 xs] by simp

lemma halves_of_amount: "unat a = unat (upper_half a) * 2 ^ 64 + unat (lower_half a)"
proof -
  have lt: "unat a < 2 ^ 128"
    using unat_lt_pow [of a] by simp
  have "unat (upper_half a) = unat a div 2 ^ 64"
    using lt by (simp add: upper_half_def drop_bit_eq_div unsigned_ucast_eq unat_div_distrib
        take_bit_eq_mod less_mult_imp_div_less)
  moreover have "unat (lower_half a) = unat a mod 2 ^ 64"
    by (simp add: lower_half_def unsigned_ucast_eq take_bit_eq_mod)
  ultimately show ?thesis by presburger
qed

lemma unat_saturating_div:
  "unat (saturating_div a b) = (if b = 0 then 2 ^ 128 - 1 else unat a div unat b)"
  by (simp add: saturating_div_def unat_div_distrib)

end
