(* ===== verification/Amount_Text.thy ===== *)
theory Amount_Text
  imports Base_Numbers
begin

text \<open>
  The textual form of amounts (\<^verbatim>\<open>impl Display\<close> and \<^verbatim>\<open>impl FromStr for Amount\<close> in
  \<^verbatim>\<open>linera-base/src/data_types.rs\<close>). A \<open>char\<close> stands for a Unicode scalar value below 256. The
  formatter's flags are the fields of \<open>Formatter\<close>. The main result is that parsing undoes
  printing for every formatter that pads with white space and asks for at most 18 digits.
\<close>

datatype ParseAmountError = Parse | TooHigh | TooManyDigits

datatype Alignment = AlignLeft | AlignRight | AlignCenter

record Formatter =
  f_width :: "nat option"
  f_precision :: "nat option"
  f_align :: "Alignment option"
  f_sign_plus :: bool
  f_fill :: char

definition Formatter_default :: Formatter where
  "Formatter_default = \<lparr>f_width = None, f_precision = None, f_align = None, f_sign_plus = False,
     f_fill = CHR '' ''\<rparr>"

section \<open>Characters and decimal digits\<close>

definition digit_char :: "nat \<Rightarrow> char" where
  "digit_char d = char_of (48 + d)"

definition to_digit :: "char \<Rightarrow> nat option" where
  "to_digit c = (let n = of_char c :: nat in if 48 \<le> n \<and> n \<le> 57 then Some (n - 48) else None)"

definition is_whitespace :: "char \<Rightarrow> bool" where
  "is_whitespace c \<longleftrightarrow> (let n = of_char c :: nat in 9 \<le> n \<and> n \<le> 13 \<or> n = 32 \<or> n = 133 \<or> n = 160)"

definition trim :: "string \<Rightarrow> string" where
  "trim s = rev (dropWhile is_whitespace (rev (dropWhile is_whitespace s)))"

fun dec_digits :: "nat \<Rightarrow> nat list" where
  "dec_digits n = (if n < 10 then [n] else dec_digits (n div 10) @ [n mod 10])"

declare dec_digits.simps [simp del]

definition pad_zeros :: "nat \<Rightarrow> nat list \<Rightarrow> nat list" where
  "pad_zeros w ds = replicate (w - length ds) 0 @ ds"

definition trim_end_zeros :: "nat list \<Rightarrow> nat list" where
  "trim_end_zeros ds = rev (dropWhile (\<lambda>d. d = 0) (rev ds))"

section \<open>Printing\<close>

definition Amount_fmt :: "Amount \<Rightarrow> Formatter \<Rightarrow> string" where
  "Amount_fmt self f =
     (let places = DECIMAL_PLACES;
          min_digits = places + 1;
          decimals = pad_zeros min_digits (dec_digits (unat self));
          integer_part = take (length decimals - places) decimals;
          fractional_part = trim_end_zeros (drop (length decimals - places) decimals);
          precision = max (case f_precision f of None \<Rightarrow> 0 | Some p \<Rightarrow> p) (length fractional_part);
          sign = (if f_sign_plus f \<and> 0 < self then ''+'' else '''');
          pad_width = (case f_width f of None \<Rightarrow> 0
                       | Some w \<Rightarrow> w - precision - (length sign + length integer_part + 1));
          left_pad = (case f_align f of None \<Rightarrow> pad_width | Some AlignRight \<Rightarrow> pad_width
                      | Some AlignCenter \<Rightarrow> pad_width div 2 | Some AlignLeft \<Rightarrow> 0)
      in replicate left_pad (f_fill f)
         @ sign @ map digit_char integer_part @ ''.''
         @ map digit_char (fractional_part @ replicate (precision - length fractional_part) 0)
         @ replicate (pad_width - left_pad) (f_fill f))"

section \<open>Parsing\<close>

text \<open>The loop over the characters: \<open>result\<close> and \<open>decimals\<close> are the loop variables.\<close>

fun from_str_loop :: "string \<Rightarrow> u128 \<Rightarrow> nat option \<Rightarrow> ParseAmountError + (u128 \<times> nat option)" where
  "from_str_loop [] result decimals = Inr (result, decimals)"
| "from_str_loop (c # cs) result decimals =
     (if c = CHR ''_'' then from_str_loop cs result decimals
      else if c = CHR ''.'' then
        (if decimals \<noteq> None then Inl Parse
         else from_str_loop cs result (Some DECIMAL_PLACES))
      else bind_r (ok_or (to_digit c) Parse) (\<lambda>digit.
           bind_r (case decimals of None \<Rightarrow> Inr None
                   | Some d \<Rightarrow> if d = 0 then Inl TooManyDigits else Inr (Some (d - 1))) (\<lambda>decimals.
           bind_r (ok_or (Option.bind (checked_mul result 10) (\<lambda>r. checked_add r (of_nat digit)))
                    TooHigh) (\<lambda>result.
             from_str_loop cs result decimals))))"

definition Amount_from_str :: "string \<Rightarrow> ParseAmountError + Amount" where
  "Amount_from_str src =
     (let chars = trim src;
          chars = (case chars of c # cs \<Rightarrow> if c = CHR ''+'' then cs else chars | [] \<Rightarrow> chars)
      in bind_r (from_str_loop chars 0 None) (\<lambda>(result, decimals).
           ok_or (checked_mul result
                   (10 ^ (case decimals of None \<Rightarrow> DECIMAL_PLACES | Some d \<Rightarrow> d))) TooHigh))"

section \<open>Values of digit strings\<close>

fun digits_val :: "nat \<Rightarrow> nat list \<Rightarrow> nat" where
  "digits_val acc [] = acc"
| "digits_val acc (d # ds) = digits_val (acc * 10 + d) ds"

definition digits_ok :: "nat list \<Rightarrow> bool" where
  "digits_ok ds \<longleftrightarrow> (\<forall>d \<in> set ds. d < 10)"

lemma digits_val_append [simp]: "digits_val acc (xs @ ys) = digits_val (digits_val acc xs) ys"
  by (induction xs arbitrary: acc) auto

lemma digits_val_mono: "acc \<le> digits_val acc ds"
proof (induction ds arbitrary: acc)
  case (Cons d ds)
  have "acc \<le> acc * 10 + d" by simp
  also have "\<dots> \<le> digits_val (acc * 10 + d) ds" by (rule Cons)
  finally show ?case by simp
qed simp

lemma digits_val_replicate [simp]: "digits_val acc (replicate n 0) = acc * 10 ^ n"
  by (induction n arbitrary: acc) auto

lemma digits_val_dec_digits [simp]: "digits_val 0 (dec_digits n) = n"
  by (induction n rule: dec_digits.induct) (subst dec_digits.simps, auto)

lemma digits_ok_dec_digits [simp]: "digits_ok (dec_digits n)"
  by (induction n rule: dec_digits.induct) (subst dec_digits.simps, auto simp: digits_ok_def)

lemma digits_ok_append [simp]: "digits_ok (xs @ ys) \<longleftrightarrow> digits_ok xs \<and> digits_ok ys"
  by (auto simp: digits_ok_def)

lemma digits_ok_replicate [simp]: "digits_ok (replicate n 0)"
  by (simp add: digits_ok_def)

lemma digits_val_pad_zeros [simp]: "digits_val 0 (pad_zeros w ds) = digits_val 0 ds"
  by (simp add: pad_zeros_def)

lemma length_pad_zeros: "w \<le> length (pad_zeros w ds)"
  by (simp add: pad_zeros_def)

lemma trim_end_zeros_split: "\<exists>n. ds = trim_end_zeros ds @ replicate n 0"
proof -
  have "ds = rev (takeWhile (\<lambda>d. d = 0) (rev ds) @ dropWhile (\<lambda>d. d = 0) (rev ds))"
    by simp
  also have "\<dots> = trim_end_zeros ds @ rev (takeWhile (\<lambda>d. d = 0) (rev ds))"
    unfolding trim_end_zeros_def by (simp only: rev_append)
  also have "rev (takeWhile (\<lambda>d. d = 0) (rev ds))
      = replicate (length (takeWhile (\<lambda>d. d = 0) (rev ds))) 0"
    by (intro replicate_eqI) (auto dest: set_takeWhileD)
  finally show ?thesis by blast
qed

lemma to_digit_digit_char [simp]: "d < 10 \<Longrightarrow> to_digit (digit_char d) = Some d"
  by (simp add: to_digit_def digit_char_def of_char_of)

lemma digit_char_neq:
  assumes "d < 10"
  shows "digit_char d \<noteq> CHR ''_''" "digit_char d \<noteq> CHR ''.''" "digit_char d \<noteq> CHR ''+''"
    "\<not> is_whitespace (digit_char d)"
proof -
  have *: "of_char (digit_char d) = 48 + d"
    using assms by (simp add: digit_char_def of_char_of)
  then show "digit_char d \<noteq> CHR ''_''" "digit_char d \<noteq> CHR ''.''" "digit_char d \<noteq> CHR ''+''"
    using assms by auto
  show "\<not> is_whitespace (digit_char d)"
    using * assms by (simp add: is_whitespace_def)
qed

section \<open>Parsing undoes printing\<close>

lemma parse_digit_step:
  assumes "unat r * 10 + d < 2 ^ 128"
  shows "Option.bind (checked_mul r (10::u128)) (\<lambda>r. checked_add r (of_nat d))
    = Some (of_nat (unat r * 10 + d))"
proof -
  have d: "unat (of_nat d :: u128) = d"
    using assms by (simp add: unat_of_nat take_bit_eq_mod)
  have m: "checked_mul r (10::u128) = Some (r * 10)"
    using assms by (simp add: checked_mul_def)
  then have u: "unat (r * 10) = unat r * 10"
    using checked_mul_Some [OF m] by simp
  have "checked_add (r * 10) (of_nat d) = Some (r * 10 + of_nat d)"
    using assms by (simp add: checked_add_def u d)
  with m show ?thesis by simp
qed

lemma from_str_loop_digits:
  assumes "digits_ok ds" "digits_val (unat r) ds < 2 ^ 128"
    and "\<And>k. decimals = Some k \<Longrightarrow> length ds \<le> k"
  shows "from_str_loop (map digit_char ds @ cs) r decimals
    = from_str_loop cs (of_nat (digits_val (unat r) ds)) (map_option (\<lambda>k. k - length ds) decimals)"
  using assms
proof (induction ds arbitrary: r decimals)
  case Nil
  then show ?case by (cases decimals) auto
next
  case (Cons d ds)
  have d: "d < 10" and ds: "digits_ok ds"
    using Cons.prems(1) by (auto simp: digits_ok_def)
  have b: "unat r * 10 + d < 2 ^ 128"
    using Cons.prems(2) digits_val_mono [of "unat r * 10 + d" ds] by simp
  let ?r = "of_nat (unat r * 10 + d) :: u128"
  have ur: "unat ?r = unat r * 10 + d"
    using b by (intro unat_of_nat_small) simp
  have k: "(case decimals of None \<Rightarrow> Inr None
       | Some d \<Rightarrow> if d = 0 then Inl TooManyDigits else Inr (Some (d - 1)))
     = (Inr (map_option (\<lambda>k. k - 1) decimals) :: ParseAmountError + nat option)"
    using Cons.prems(3) by (cases decimals) auto
  have "from_str_loop (map digit_char ds @ cs) ?r (map_option (\<lambda>k. k - 1) decimals)
    = from_str_loop cs (of_nat (digits_val (unat ?r) ds))
        (map_option (\<lambda>k. k - length ds) (map_option (\<lambda>k. k - 1) decimals))"
  proof (rule Cons.IH [OF ds])
    show "digits_val (unat ?r) ds < 2 ^ 128"
      using Cons.prems(2) by (simp only: ur digits_val.simps)
    show "length ds \<le> k" if "map_option (\<lambda>k. k - 1) decimals = Some k" for k
      using that Cons.prems(3) by fastforce
  qed
  then show ?case
    using d digit_char_neq(1,2) [OF d] parse_digit_step [OF b] k ur
    by (simp add: option.map_comp comp_def)
qed

lemma trim_padded:
  assumes "is_whitespace w" "s \<noteq> []" "\<not> is_whitespace (hd s)" "\<not> is_whitespace (last s)"
  shows "trim (replicate a w @ s @ replicate b w) = s"
proof -
  have d: "dropWhile is_whitespace (replicate n w @ t) = t"
    if "t \<noteq> []" "\<not> is_whitespace (hd t)" for n t
    using that assms(1) by (induction n) (cases t, auto)+
  have "dropWhile is_whitespace (replicate a w @ s @ replicate b w) = s @ replicate b w"
    using assms by (intro d) auto
  moreover have "dropWhile is_whitespace (replicate b w @ rev s) = rev s"
    using assms by (intro d) (auto simp: hd_rev)
  ultimately show ?thesis by (simp add: trim_def)
qed

lemma trim_end_zeros_ok: "digits_ok ds \<Longrightarrow> digits_ok (trim_end_zeros ds)"
  using trim_end_zeros_split [of ds] by (metis digits_ok_append)

lemma parse_core:
  assumes ok: "digits_ok ip" "digits_ok fp" and len: "length fp \<le> DECIMAL_PLACES"
    and val: "digits_val (digits_val 0 ip) fp * 10 ^ (DECIMAL_PLACES - length fp) = unat a"
  shows "bind_r (from_str_loop (map digit_char ip @ ''.'' @ map digit_char fp) 0 None)
      (\<lambda>(result, decimals). ok_or (checked_mul result
         (10 ^ (case decimals of None \<Rightarrow> DECIMAL_PLACES | Some d \<Rightarrow> d))) TooHigh)
    = Inr (a :: u128)"
proof -
  let ?i = "digits_val 0 ip" and ?f = "digits_val (digits_val 0 ip) fp"
  let ?k = "DECIMAL_PLACES - length fp"
  have a: "unat a < 2 ^ 128"
    using unat_lt_pow [of a] by simp
  have "?f * 1 \<le> ?f * 10 ^ ?k"
    by (rule mult_le_mono2) simp
  then have f: "?f < 2 ^ 128"
    using val a by linarith
  have i: "?i < 2 ^ 128"
    using f digits_val_mono [of ?i fp] by linarith
  have ui: "unat (of_nat ?i :: u128) = ?i" and uf: "unat (of_nat ?f :: u128) = ?f"
    using i f by (simp_all add: unat_of_nat_small)
  have "from_str_loop (map digit_char ip @ ''.'' @ map digit_char fp) 0 None
      = from_str_loop (''.'' @ map digit_char fp) (of_nat ?i) None"
    using from_str_loop_digits [of ip 0 None "''.'' @ map digit_char fp"] ok i by simp
  also have "\<dots> = from_str_loop (map digit_char fp) (of_nat ?i) (Some DECIMAL_PLACES)"
    by simp
  also have "\<dots> = Inr (of_nat ?f, Some ?k)"
    using from_str_loop_digits [of fp "of_nat ?i" "Some DECIMAL_PLACES" "[]"] ok f len by (simp add: ui)
  finally have loop: "from_str_loop (map digit_char ip @ ''.'' @ map digit_char fp) 0 None
      = Inr (of_nat ?f, Some ?k)" .
  have "(10::nat) ^ ?k < 2 ^ 128"
    using power_increasing [of ?k 18 "10::nat"] by (simp add: DECIMAL_PLACES_def)
  then have p: "unat (10 ^ ?k :: u128) = 10 ^ ?k"
    using unat_of_nat_small [of "10 ^ ?k", where 'a=128] by simp
  have "unat (of_nat ?f * 10 ^ ?k :: u128) = unat a"
    using a by (simp add: unat_word_ariths uf p val)
  then have "checked_mul (of_nat ?f) (10 ^ ?k) = Some a"
    using a by (simp add: checked_mul_def uf p val word_unat_eq_iff)
  with loop show ?thesis by simp
qed

lemma last_digit_string: "fp \<noteq> [] \<Longrightarrow> digits_ok fp \<Longrightarrow> \<not> is_whitespace (last (map digit_char fp))"
  by (simp add: last_map digits_ok_def digit_char_neq)

lemma point_not_whitespace: "\<not> is_whitespace (CHR ''.'')" "\<not> is_whitespace (CHR ''+'')"
  by (simp_all add: is_whitespace_def)

lemma from_str_padded:
  assumes w: "is_whitespace w" and ip: "ip \<noteq> []" "digits_ok ip" and fp: "digits_ok fp"
    and sign: "sign = '''' \<or> sign = ''+''"
  shows "Amount_from_str
     (replicate l w @ sign @ map digit_char ip @ ''.'' @ map digit_char fp @ replicate r w)
    = bind_r (from_str_loop (map digit_char ip @ ''.'' @ map digit_char fp) 0 None)
      (\<lambda>(result, decimals). ok_or (checked_mul result
         (10 ^ (case decimals of None \<Rightarrow> DECIMAL_PLACES | Some d \<Rightarrow> d))) TooHigh)"
proof -
  let ?core = "map digit_char ip @ ''.'' @ map digit_char fp"
  obtain d ds where dds: "ip = d # ds" and d: "d < 10"
    using ip by (cases ip) (auto simp: digits_ok_def)
  have "\<not> is_whitespace (last (sign @ ?core))"
    using last_digit_string [OF _ fp] point_not_whitespace by (cases "fp = []") auto
  moreover have "\<not> is_whitespace (hd (sign @ ?core))"
    using sign d digit_char_neq [OF d] point_not_whitespace by (auto simp: dds)
  ultimately have "trim (replicate l w @ (sign @ ?core) @ replicate r w) = sign @ ?core"
    by (intro trim_padded w) (auto simp: dds)
  then show ?thesis
    using sign digit_char_neq(3) [OF d] by (auto simp: Amount_from_str_def dds)
qed

text \<open>C31. Parsing a printed amount gives the amount back: \<open>from_str (format!(..., a)) = Ok(a)\<close> for
  every amount and every formatter (any width, alignment, sign flag) whose fill character is white
  space and whose precision, if given, is at most 18.\<close>

theorem Amount_from_str_fmt:
  assumes "is_whitespace (f_fill f)" and "\<And>p. f_precision f = Some p \<Longrightarrow> p \<le> DECIMAL_PLACES"
  shows "Amount_from_str (Amount_fmt a f) = Inr a"
proof -
  define ds where "ds = pad_zeros (DECIMAL_PLACES + 1) (dec_digits (unat a))"
  define ip where "ip = take (length ds - DECIMAL_PLACES) ds"
  define fr where "fr = drop (length ds - DECIMAL_PLACES) ds"
  define tr where "tr = trim_end_zeros fr"
  define prec where "prec = max (case f_precision f of None \<Rightarrow> 0 | Some p \<Rightarrow> p) (length tr)"
  define fp where "fp = tr @ replicate (prec - length tr) 0"
  have ds: "ds = ip @ fr" "digits_ok ds" "DECIMAL_PLACES + 1 \<le> length ds"
    by (simp add: ip_def fr_def) (auto simp: ds_def pad_zeros_def)
  then have ip: "ip \<noteq> []" "digits_ok ip" and fr: "digits_ok fr" "length fr = DECIMAL_PLACES"
    by (auto simp: ip_def fr_def digits_ok_def dest: in_set_takeD in_set_dropD)
  obtain n where n: "fr = tr @ replicate n 0"
    using trim_end_zeros_split [of fr] by (auto simp: tr_def)
  then have lt: "length tr + n = DECIMAL_PLACES"
    using fr(2) by (metis length_append length_replicate)
  have prec: "length tr \<le> prec" "prec \<le> DECIMAL_PLACES"
    using assms(2) lt by (auto simp: prec_def split: option.splits)
  have fp: "digits_ok fp" "length fp = prec"
    using trim_end_zeros_ok [OF fr(1)] prec by (auto simp: fp_def tr_def)
  have "unat a = digits_val 0 ds"
    by (simp add: ds_def)
  also have "\<dots> = digits_val (digits_val 0 ip) tr * 10 ^ n"
    by (simp add: ds(1) n)
  also have "\<dots> = digits_val (digits_val 0 ip) fp * 10 ^ (DECIMAL_PLACES - length fp)"
  proof -
    have "n = (prec - length tr) + (DECIMAL_PLACES - prec)"
      using prec lt by linarith
    then show ?thesis
      unfolding fp(2) by (simp add: fp_def power_add)
  qed
  finally have val: "digits_val (digits_val 0 ip) fp * 10 ^ (DECIMAL_PLACES - length fp) = unat a" ..
  show ?thesis
    unfolding Amount_fmt_def Let_def ds_def [symmetric] ip_def [symmetric] fr_def [symmetric]
      tr_def [symmetric] prec_def [symmetric] fp_def [symmetric]
    using parse_core [OF ip(2) fp(1) _ val] fp(2) prec(2)
    by (subst from_str_padded [OF assms(1) ip fp(1)]) auto
qed

theorem Amount_from_str_fmt_witness:
  "Amount_from_str (Amount_fmt 1500000000000000000
     \<lparr>f_width = Some 9, f_precision = Some 3, f_align = Some AlignCenter, f_sign_plus = True,
      f_fill = CHR '' ''\<rparr>) = Inr 1500000000000000000"
  by (rule Amount_from_str_fmt) (simp_all add: is_whitespace_def DECIMAL_PLACES_def)

end
