(* ===== verification/Policy.thy ===== *)
theory Policy
  imports Base_Numbers
begin

text \<open>
  Fees and limits: \<^verbatim>\<open>linera-execution/src/policy.rs\<close>, and the resource requests
  \<^verbatim>\<open>Resources\<close> of \<^verbatim>\<open>linera-base/src/data_types.rs\<close> that the policy prices. Every price is a
  checked product; \<open>total_price\<close> is the checked sum of the eight of them.
\<close>

record Resources =
  r_fuel :: u64
  r_read_operations :: u32
  r_write_operations :: u32
  r_bytes_to_read :: u32
  r_bytes_to_write :: u32
  r_messages :: u32
  r_message_size :: u32
  r_storage_size_delta :: u32

record ResourceControlPolicy =
  block_cost :: Amount
  fuel_unit :: Amount
  read_operation :: Amount
  write_operation :: Amount
  byte_read :: Amount
  byte_written :: Amount
  byte_stored :: Amount
  operation_cost :: Amount
  operation_byte :: Amount
  message_cost :: Amount
  message_byte :: Amount
  maximum_fuel_per_block :: u64
  maximum_executed_block_size :: u64
  maximum_bytes_read_per_block :: u64
  maximum_bytes_written_per_block :: u64

definition policy_default :: ResourceControlPolicy where
  "policy_default = \<lparr>block_cost = 0, fuel_unit = 0, read_operation = 0, write_operation = 0,
     byte_read = 0, byte_written = 0, byte_stored = 0, operation_cost = 0, operation_byte = 0,
     message_cost = 0, message_byte = 0, maximum_fuel_per_block = num_max,
     maximum_executed_block_size = num_max, maximum_bytes_read_per_block = num_max,
     maximum_bytes_written_per_block = num_max\<rparr>"

definition block_price :: "ResourceControlPolicy \<Rightarrow> Amount" where
  "block_price self = block_cost self"

definition operation_bytes_price :: "ResourceControlPolicy \<Rightarrow> u64 \<Rightarrow> ArithmeticError + Amount" where
  "operation_bytes_price self size' = try_mul (operation_byte self) (ucast size')"

definition message_bytes_price :: "ResourceControlPolicy \<Rightarrow> u64 \<Rightarrow> ArithmeticError + Amount" where
  "message_bytes_price self size' = try_mul (message_byte self) (ucast size')"

definition read_operations_price :: "ResourceControlPolicy \<Rightarrow> u32 \<Rightarrow> ArithmeticError + Amount" where
  "read_operations_price self count = try_mul (read_operation self) (ucast count)"

definition write_operations_price :: "ResourceControlPolicy \<Rightarrow> u32 \<Rightarrow> ArithmeticError + Amount" where
  "write_operations_price self count = try_mul (write_operation self) (ucast count)"

definition bytes_read_price :: "ResourceControlPolicy \<Rightarrow> u64 \<Rightarrow> ArithmeticError + Amount" where
  "bytes_read_price self count = try_mul (byte_read self) (ucast count)"

definition bytes_written_price :: "ResourceControlPolicy \<Rightarrow> u64 \<Rightarrow> ArithmeticError + Amount" where
  "bytes_written_price self count = try_mul (byte_written self) (ucast count)"

definition bytes_stored_price :: "ResourceControlPolicy \<Rightarrow> u64 \<Rightarrow> ArithmeticError + Amount" where
  "bytes_stored_price self count = try_mul (byte_stored self) (ucast count)"

definition fuel_price :: "ResourceControlPolicy \<Rightarrow> u64 \<Rightarrow> ArithmeticError + Amount" where
  "fuel_price self fuel = try_mul (fuel_unit self) (ucast fuel)"

definition policy_remaining_fuel :: "ResourceControlPolicy \<Rightarrow> Amount \<Rightarrow> u64" where
  "policy_remaining_fuel self balance =
     (let q = saturating_div balance (fuel_unit self) in
      if unat q < 2 ^ 64 then ucast q else num_max)"

definition add_price :: "ArithmeticError + Amount \<Rightarrow> Amount \<Rightarrow> ArithmeticError + Amount" where
  "add_price price amount = bind_r price (\<lambda>p. try_add amount p)"

definition total_price :: "ResourceControlPolicy \<Rightarrow> Resources \<Rightarrow> ArithmeticError + Amount" where
  "total_price self resources =
     bind_r (add_price (fuel_price self (r_fuel resources)) 0) (\<lambda>amount.
     bind_r (add_price (read_operations_price self (r_read_operations resources)) amount) (\<lambda>amount.
     bind_r (add_price (write_operations_price self (r_write_operations resources)) amount) (\<lambda>amount.
     bind_r (add_price (bytes_read_price self (ucast (r_bytes_to_read resources))) amount) (\<lambda>amount.
     bind_r (add_price (bytes_written_price self (ucast (r_bytes_to_write resources))) amount) (\<lambda>amount.
     bind_r (add_price (try_mul (message_cost self) (ucast (r_messages resources))) amount) (\<lambda>amount.
     bind_r (add_price (message_bytes_price self (ucast (r_message_size resources))) amount) (\<lambda>amount.
     bind_r (add_price (bytes_stored_price self (ucast (r_storage_size_delta resources))) amount) (\<lambda>amount.
     Inr amount))))))))"

definition only_fuel :: ResourceControlPolicy where
  "only_fuel = policy_default\<lparr>fuel_unit := Amount_from_micros 1\<rparr>"

definition fuel_and_block :: ResourceControlPolicy where
  "fuel_and_block = policy_default\<lparr>block_cost := Amount_from_millis 1,
     fuel_unit := Amount_from_micros 1\<rparr>"

definition all_categories :: ResourceControlPolicy where
  "all_categories = policy_default\<lparr>block_cost := Amount_from_millis 1,
     fuel_unit := Amount_from_nanos 1, byte_read := from_attos 100, byte_written := from_attos 1000,
     operation_cost := from_attos 10, operation_byte := from_attos 1, message_cost := from_attos 10,
     message_byte := from_attos 1\<rparr>"

definition devnet :: ResourceControlPolicy where
  "devnet = \<lparr>block_cost = Amount_from_millis 1, fuel_unit = Amount_from_nanos 10,
     read_operation = Amount_from_micros 10, write_operation = Amount_from_micros 20,
     byte_read = Amount_from_nanos 10, byte_written = Amount_from_nanos 100,
     byte_stored = Amount_from_nanos 10, operation_cost = Amount_from_micros 10,
     operation_byte = Amount_from_nanos 10, message_cost = Amount_from_micros 10,
     message_byte = Amount_from_nanos 100, maximum_fuel_per_block = 100000000,
     maximum_executed_block_size = 1000000, maximum_bytes_read_per_block = 100000000,
     maximum_bytes_written_per_block = 10000000\<rparr>"

section \<open>Exactness of prices\<close>

lemma try_mul_cases:
  "try_mul (a :: u128) b =
     (if unat a * unat b < 2 ^ 128 then Inr (a * b) else Inl Overflow)"
  by (simp add: try_mul_def checked_mul_def)

text \<open>The unbounded sum of the prices added so far.\<close>

definition exact_sum :: "ArithmeticError + Amount \<Rightarrow> nat \<Rightarrow> bool" where
  "exact_sum r n \<longleftrightarrow> (if n < 2 ^ 128 then r = Inr (of_nat n) else r = Inl Overflow)"

lemma exact_sum_zero [simp]: "exact_sum (Inr 0) 0"
  by (simp add: exact_sum_def)

lemma exact_sum_step:
  assumes "exact_sum r n" and "k \<le> unat a * unat b" "unat a * unat b \<le> k"
  shows "exact_sum (bind_r r (add_price (try_mul a b))) (n + k)"
proof (cases "n < 2 ^ 128")
  case True
  then have r: "r = Inr (of_nat n)" and un: "unat (of_nat n :: u128) = n"
    using assms by (simp_all add: exact_sum_def unat_of_nat_small)
  have "unat (a * b) = k" "of_nat k = a * b" if "k < 2 ^ 128"
    using that assms by (simp_all add: unat_word_ariths word_unat_eq_iff unat_of_nat_small)
  then show ?thesis
    using True assms
    by (auto simp: exact_sum_def r add_price_def try_mul_cases try_add_def checked_add_def un)
next
  case False
  then show ?thesis using assms by (simp add: exact_sum_def)
qed

definition exact_price :: "ResourceControlPolicy \<Rightarrow> Resources \<Rightarrow> nat" where
  "exact_price p r =
     unat (fuel_unit p) * unat (r_fuel r) + unat (read_operation p) * unat (r_read_operations r)
     + unat (write_operation p) * unat (r_write_operations r)
     + unat (byte_read p) * unat (r_bytes_to_read r) + unat (byte_written p) * unat (r_bytes_to_write r)
     + unat (message_cost p) * unat (r_messages r) + unat (message_byte p) * unat (r_message_size r)
     + unat (byte_stored p) * unat (r_storage_size_delta r)"

lemma unat_ucast_wide [simp]:
  "unat (ucast (x :: u64) :: u128) = unat x" "unat (ucast (y :: u32) :: u128) = unat y"
  "unat (ucast (y :: u32) :: u64) = unat y"
  by (simp_all add: unsigned_ucast_eq take_bit_eq_mod order.strict_trans2 [OF unat_lt_pow]
      mod_less order.strict_trans1 [OF less_imp_le [OF unat_lt_pow]])

lemma total_price_nested:
  "total_price p r =
     bind_r (bind_r (bind_r (bind_r (bind_r (bind_r (bind_r (bind_r (Inr 0)
       (add_price (try_mul (fuel_unit p) (ucast (r_fuel r)))))
       (add_price (try_mul (read_operation p) (ucast (r_read_operations r)))))
       (add_price (try_mul (write_operation p) (ucast (r_write_operations r)))))
       (add_price (try_mul (byte_read p) (ucast (ucast (r_bytes_to_read r) :: u64)))))
       (add_price (try_mul (byte_written p) (ucast (ucast (r_bytes_to_write r) :: u64)))))
       (add_price (try_mul (message_cost p) (ucast (r_messages r)))))
       (add_price (try_mul (message_byte p) (ucast (ucast (r_message_size r) :: u64)))))
       (add_price (try_mul (byte_stored p) (ucast (ucast (r_storage_size_delta r) :: u64))))"
  unfolding total_price_def fuel_price_def read_operations_price_def write_operations_price_def
    bytes_read_price_def bytes_written_price_def message_bytes_price_def bytes_stored_price_def
  by (simp only: bind_r_assoc bind_r_Inr bind_r_right_unit)

lemma unat_clamp_le: "unat (if unat (q :: u128) < 2 ^ 64 then ucast q else num_max :: u64) \<le> unat q"
  by (simp add: unsigned_ucast_eq take_bit_eq_mod)

lemma fuel_price_remaining:
  assumes "fuel_unit p \<noteq> 0"
  shows "\<exists>a. fuel_price p (policy_remaining_fuel p balance) = Inr a \<and> a \<le> balance"
proof -
  let ?q = "policy_remaining_fuel p balance"
  have "unat ?q \<le> unat (saturating_div balance (fuel_unit p))"
    unfolding policy_remaining_fuel_def Let_def by (rule unat_clamp_le)
  then have "unat (fuel_unit p) * unat ?q \<le> unat (fuel_unit p) * (unat balance div unat (fuel_unit p))"
    using assms by (simp add: unat_saturating_div)
  then have le: "unat (fuel_unit p) * unat ?q \<le> unat balance"
    by (rule order.trans) simp
  moreover have "unat balance < 2 ^ 128"
    using unat_lt_pow [of balance] by simp
  ultimately have lt: "unat (fuel_unit p) * unat ?q < 2 ^ 128"
    by (rule le_less_trans)
  then have "unat (fuel_unit p * ucast ?q) = unat (fuel_unit p) * unat ?q"
    by (simp add: unat_word_ariths)
  then show ?thesis
    using lt le by (simp add: fuel_price_def try_mul_cases word_le_nat_alt)
qed

text \<open>The converse direction as well: fuel is affordable exactly up to \<open>policy_remaining_fuel\<close>.\<close>

lemma fuel_affordable_iff:
  "(\<exists>fees. fuel_price p n = Inr fees \<and> unat fees \<le> unat b) \<longleftrightarrow> n \<le> policy_remaining_fuel p b"
proof (cases "fuel_unit p = 0")
  case True
  moreover have "n \<le> num_max"
    using unat_le_pow [of n] by (simp add: word_le_nat_alt)
  ultimately show ?thesis
    by (simp add: fuel_price_def try_mul_cases policy_remaining_fuel_def saturating_div_def)
next
  case False
  then have pos: "0 < unat (fuel_unit p)" by (simp add: word_neq_0_conv word_less_nat_alt)
  have bb: "unat b < 2 ^ 128" "unat n < 2 ^ 64"
    using unat_lt_pow [of b] unat_lt_pow [of n] by simp_all
  have "(\<exists>fees. fuel_price p n = Inr fees \<and> unat fees \<le> unat b) \<longleftrightarrow> unat (fuel_unit p) * unat n \<le> unat b"
    using bb by (auto simp: fuel_price_def try_mul_cases unat_word_ariths)
  also have "\<dots> \<longleftrightarrow> unat n \<le> unat b div unat (fuel_unit p)"
    using pos by (simp add: less_eq_div_iff_mult_less_eq mult.commute)
  also have "\<dots> \<longleftrightarrow> n \<le> policy_remaining_fuel p b"
    using False bb by (auto simp: policy_remaining_fuel_def Let_def word_le_nat_alt unat_saturating_div
        unsigned_ucast_eq take_bit_eq_mod)
  finally show ?thesis .
qed

text \<open>C34. The price of a resource request is exact: \<open>total_price\<close> returns the unbounded sum of
  unit price times quantity over all eight resources whenever that sum fits in 128 bits, and the
  overflow error (never a wrapped amount) otherwise.\<close>

theorem total_price_exact:
  "total_price p r = (if exact_price p r < 2 ^ 128 then Inr (of_nat (exact_price p r)) else Inl Overflow)"
proof -
  have "exact_sum (total_price p r) (0 + unat (fuel_unit p) * unat (r_fuel r)
     + unat (read_operation p) * unat (r_read_operations r)
     + unat (write_operation p) * unat (r_write_operations r)
     + unat (byte_read p) * unat (r_bytes_to_read r) + unat (byte_written p) * unat (r_bytes_to_write r)
     + unat (message_cost p) * unat (r_messages r) + unat (message_byte p) * unat (r_message_size r)
     + unat (byte_stored p) * unat (r_storage_size_delta r))"
    unfolding total_price_nested
    by (intro exact_sum_step exact_sum_zero) (simp_all only: unat_ucast_wide order.refl)
  then show ?thesis by (simp add: exact_sum_def exact_price_def)
qed

end
