(* ===== verification/Ownership.thy ===== *)
theory Ownership
  imports Base_Numbers
begin

text \<open>
  Rounds (\<^verbatim>\<open>Round\<close> in \<^verbatim>\<open>linera-base/src/data_types.rs\<close>) and chain ownership
  (\<^verbatim>\<open>linera-base/src/ownership.rs\<close>). Hashes, public keys and signatures are opaque: an element of
  the corresponding fixed-width byte array is represented by a natural number, ordered as the
  arrays are. \<open>Owner::from(public_key)\<close> hashes the key; the hash function is the parameter
  \<open>owner_of\<close>.
\<close>

type_synonym CryptoHash = nat
type_synonym PublicKey = nat
type_synonym Signature = nat
type_synonym Owner = CryptoHash

section \<open>Rounds\<close>

datatype Round = Fast | MultiLeader u32 | SingleLeader u32 | Validator u32

definition is_multi_leader :: "Round \<Rightarrow> bool" where
  "is_multi_leader r = (case r of MultiLeader _ \<Rightarrow> True | _ \<Rightarrow> False)"

definition is_fast :: "Round \<Rightarrow> bool" where
  "is_fast r = (case r of Fast \<Rightarrow> True | _ \<Rightarrow> False)"

definition number :: "Round \<Rightarrow> u32" where
  "number r = (case r of Fast \<Rightarrow> 0 | MultiLeader n \<Rightarrow> n | SingleLeader n \<Rightarrow> n | Validator n \<Rightarrow> n)"

definition type_name :: "Round \<Rightarrow> string" where
  "type_name r = (case r of Fast \<Rightarrow> ''fast'' | MultiLeader _ \<Rightarrow> ''multi''
     | SingleLeader _ \<Rightarrow> ''single'' | Validator _ \<Rightarrow> ''validator'')"

text \<open>The derived order: first the variant, in the order of declaration, then the number.\<close>

definition variant_index :: "Round \<Rightarrow> nat" where
  "variant_index r = (case r of Fast \<Rightarrow> 0 | MultiLeader _ \<Rightarrow> 1 | SingleLeader _ \<Rightarrow> 2 | Validator _ \<Rightarrow> 3)"

instantiation Round :: linorder
begin

definition less_eq_Round :: "Round \<Rightarrow> Round \<Rightarrow> bool" where
  "less_eq_Round a b \<longleftrightarrow> variant_index a < variant_index b
     \<or> variant_index a = variant_index b \<and> number a \<le> number b"

definition less_Round :: "Round \<Rightarrow> Round \<Rightarrow> bool" where
  "less_Round a b \<longleftrightarrow> variant_index a < variant_index b
     \<or> variant_index a = variant_index b \<and> number a < number b"

instance
proof
  fix x y z :: Round
  show "x < y \<longleftrightarrow> x \<le> y \<and> \<not> y \<le> x"
    by (auto simp: less_eq_Round_def less_Round_def)
  show "x \<le> x"
    by (simp add: less_eq_Round_def)
  show "x \<le> y \<Longrightarrow> y \<le> z \<Longrightarrow> x \<le> z"
    by (auto simp: less_eq_Round_def)
  show "x \<le> y \<Longrightarrow> y \<le> x \<Longrightarrow> x = y"
    by (cases x; cases y) (auto simp: less_eq_Round_def variant_index_def number_def)
  show "x \<le> y \<or> y \<le> x"
    by (auto simp: less_eq_Round_def)
qed

end

lemmas Round_order_defs = less_eq_Round_def less_Round_def variant_index_def number_def

lemma Round_less_simps [simp]:
  "\<not> r < Fast" "Fast \<le> r" "r \<le> Fast \<longleftrightarrow> r = Fast"
  "MultiLeader a < MultiLeader b \<longleftrightarrow> a < b" "SingleLeader a < SingleLeader b \<longleftrightarrow> a < b"
  "Validator a < Validator b \<longleftrightarrow> a < b"
  "MultiLeader a < SingleLeader b" "MultiLeader a < Validator b" "SingleLeader a < Validator b"
  "\<not> SingleLeader a < MultiLeader b" "\<not> Validator a < MultiLeader b" "\<not> Validator a < SingleLeader b"
  "MultiLeader a \<le> MultiLeader b \<longleftrightarrow> a \<le> b" "SingleLeader a \<le> SingleLeader b \<longleftrightarrow> a \<le> b"
  "Validator a \<le> Validator b \<longleftrightarrow> a \<le> b"
  "MultiLeader a \<le> SingleLeader b" "MultiLeader a \<le> Validator b" "SingleLeader a \<le> Validator b"
  "\<not> SingleLeader a \<le> MultiLeader b" "\<not> Validator a \<le> MultiLeader b" "\<not> Validator a \<le> SingleLeader b"
  by (cases r; simp add: Round_order_defs)+

lemma Fast_less_iff [simp]: "Fast < r \<longleftrightarrow> r \<noteq> Fast"
  by (cases r) (simp_all add: Round_order_defs)

lemma is_fast_iff [simp]: "is_fast r \<longleftrightarrow> r = Fast"
  by (cases r) (simp_all add: is_fast_def)

text \<open>Rounds are finitely many; their order embeds into the natural numbers, so it is well founded.\<close>

definition round_key :: "Round \<Rightarrow> nat" where
  "round_key r = variant_index r * 2 ^ 32 + unat (number r)"

lemma less_Round_key: "a < b \<Longrightarrow> round_key a < round_key b"
proof -
  assume ab: "a < b"
  have "unat (number a) < 2 ^ 32" "unat (number b) < 2 ^ 32"
    using unat_lt_pow [of "number a"] unat_lt_pow [of "number b"] by simp_all
  moreover from ab have "variant_index a + 1 \<le> variant_index b
      \<or> variant_index a = variant_index b \<and> unat (number a) < unat (number b)"
    by (auto simp: less_Round_def word_less_nat_alt)
  ultimately show ?thesis
    by (auto simp: round_key_def)
qed

instance Round :: wellorder
proof
  fix P and a :: Round
  assume step: "\<And>x :: Round. (\<And>y. y < x \<Longrightarrow> P y) \<Longrightarrow> P x"
  show "P a"
    by (induction a rule: measure_induct_rule [of round_key]) (metis step less_Round_key)
qed

section \<open>Ownership\<close>

record TimeoutConfig =
  fast_round_duration :: "TimeDelta option"
  base_timeout :: TimeDelta
  timeout_increment :: TimeDelta
  fallback_duration :: TimeDelta

definition TimeoutConfig_default :: TimeoutConfig where
  "TimeoutConfig_default = \<lparr>fast_round_duration = None, base_timeout = TimeDelta_from_secs 10,
     timeout_increment = TimeDelta_from_secs 1,
     fallback_duration = TimeDelta_from_secs (60 * 60 * 24)\<rparr>"

record ChainOwnership =
  super_owners :: "(Owner, PublicKey) btree"
  owners :: "(Owner, PublicKey \<times> u64) btree"
  multi_leader_rounds :: u32
  timeout_config :: TimeoutConfig

definition ownership_single :: "(PublicKey \<Rightarrow> Owner) \<Rightarrow> PublicKey \<Rightarrow> ChainOwnership" where
  "ownership_single owner_of public_key = \<lparr>super_owners = [(owner_of public_key, public_key)],
     owners = [], multi_leader_rounds = 2, timeout_config = TimeoutConfig_default\<rparr>"

definition ownership_multiple ::
  "(PublicKey \<Rightarrow> Owner) \<Rightarrow> (PublicKey \<times> u64) list \<Rightarrow> u32 \<Rightarrow> TimeoutConfig \<Rightarrow> ChainOwnership" where
  "ownership_multiple owner_of keys_and_weights mlr tc = \<lparr>super_owners = [],
     owners = bt_from_list (map (\<lambda>(pk, w). (owner_of pk, (pk, w))) keys_and_weights) [],
     multi_leader_rounds = mlr, timeout_config = tc\<rparr>"

definition with_regular_owner ::
  "(PublicKey \<Rightarrow> Owner) \<Rightarrow> ChainOwnership \<Rightarrow> PublicKey \<Rightarrow> u64 \<Rightarrow> ChainOwnership" where
  "with_regular_owner owner_of self public_key weight =
     self\<lparr>owners := bt_insert (owner_of public_key) (public_key, weight) (owners self)\<rparr>"

definition is_active :: "ChainOwnership \<Rightarrow> bool" where
  "is_active self \<longleftrightarrow> super_owners self \<noteq> [] \<or> owners self \<noteq> []
     \<or> fallback_duration (timeout_config self) = 0"

definition ownership_verify_owner :: "ChainOwnership \<Rightarrow> Owner \<Rightarrow> PublicKey option" where
  "ownership_verify_owner self owner =
     (case bt_get (super_owners self) owner of
        Some public_key \<Rightarrow> Some public_key
      | None \<Rightarrow> map_option fst (bt_get (owners self) owner))"

definition round_timeout :: "ChainOwnership \<Rightarrow> Round \<Rightarrow> TimeDelta option" where
  "round_timeout self round =
     (let tc = timeout_config self in
      case round of
        Fast \<Rightarrow> fast_round_duration tc
      | MultiLeader r \<Rightarrow>
          if saturating_add r 1 = multi_leader_rounds self then Some (base_timeout tc) else None
      | SingleLeader r \<Rightarrow>
          Some (saturating_add (base_timeout tc) (saturating_mul (timeout_increment tc) (ucast r)))
      | Validator r \<Rightarrow>
          Some (saturating_add (base_timeout tc) (saturating_mul (timeout_increment tc) (ucast r))))"

definition first_round :: "ChainOwnership \<Rightarrow> Round" where
  "first_round self =
     (if super_owners self \<noteq> [] then Fast
      else if owners self = [] then Validator 0
      else if 0 < multi_leader_rounds self then MultiLeader 0
      else SingleLeader 0)"

definition all_owners :: "ChainOwnership \<Rightarrow> Owner list" where
  "all_owners self = map fst (super_owners self) @ map fst (owners self)"

definition all_public_keys :: "ChainOwnership \<Rightarrow> PublicKey list" where
  "all_public_keys self = map snd (super_owners self) @ map (fst \<circ> snd) (owners self)"

definition next_round :: "ChainOwnership \<Rightarrow> Round \<Rightarrow> Round option" where
  "next_round self round =
     (case round of
        Fast \<Rightarrow> Some (if multi_leader_rounds self = 0 then SingleLeader 0 else MultiLeader 0)
      | MultiLeader r \<Rightarrow>
          (case checked_add r 1 of
             Some r' \<Rightarrow> Some (if r' < multi_leader_rounds self then MultiLeader r' else SingleLeader 0)
           | None \<Rightarrow> Some (SingleLeader 0))
      | SingleLeader r \<Rightarrow>
          Some (case checked_add r 1 of None \<Rightarrow> Validator 0 | Some r' \<Rightarrow> SingleLeader r')
      | Validator r \<Rightarrow> map_option Validator (checked_add r 1))"

section \<open>The sequence of rounds\<close>

definition valid_round :: "ChainOwnership \<Rightarrow> Round \<Rightarrow> bool" where
  "valid_round self r = (case r of MultiLeader n \<Rightarrow> n < multi_leader_rounds self | _ \<Rightarrow> True)"

lemma checked_add_one:
  "checked_add r 1 = (if r = num_max then None else Some (r + 1))" for r :: "'a::len word"
  using try_add_one_Inr [of r "r + 1"] by (auto simp: try_add_one_def ok_or_def checked_add_def split: if_splits)

lemma word_succ_le: "(r :: 'a::len word) < n \<Longrightarrow> r + 1 \<le> n \<and> r \<noteq> num_max \<and> r < r + 1"
proof -
  assume "r < n"
  then have "r \<noteq> num_max" by (auto simp: num_max_def)
  moreover from this have "unat (r + 1) = unat r + 1"
    using try_add_one_unat [of r "r + 1"] try_add_one_Inr [of r "r + 1"] by simp
  ultimately show ?thesis
    using \<open>r < n\<close> by (simp add: word_le_nat_alt word_less_nat_alt)
qed

lemma not_max_less_succ: "(r :: 'a::len word) \<noteq> num_max \<Longrightarrow> r < r + 1"
  using word_succ_le [of r num_max] by (simp add: num_max_def less_le)

lemma word_less_succ: "(n :: 'a::len word) \<noteq> num_max \<Longrightarrow> x < n + 1 \<longleftrightarrow> x \<le> n"
  using word_succ_le [of n x] not_max_less_succ [of n] by (meson leD le_less_trans not_le_imp_less)

lemma succ_le_word: "(n :: 'a::len word) \<noteq> num_max \<Longrightarrow> n + 1 \<le> x \<longleftrightarrow> n < x"
  using word_less_succ [of n x] by (simp flip: not_less)

lemma le_num_max [simp]: "(x :: 'a::len word) \<le> num_max"
  by (simp add: num_max_def)

lemma next_round_increases: "next_round self r = Some r' \<Longrightarrow> r < r'"
  by (auto simp: next_round_def checked_add_one not_max_less_succ split: Round.splits if_splits)

text \<open>C32. \<open>next_round\<close> is the successor in the sequence of rounds of the chain: the result is a
  round of the chain (no multi-leader round beyond the configured number), it is greater than the
  argument, no round of the chain lies in between, and it is missing only after the very last
  validator round.\<close>

theorem next_round_successor:
  "(case next_round self r of
      Some r' \<Rightarrow> valid_round self r' \<and> r < r' \<and> \<not> (\<exists>s. valid_round self s \<and> r < s \<and> s < r')
    | None \<Rightarrow> r = Validator num_max)"
proof (cases r)
  case Fast
  then show ?thesis
    by (auto simp: next_round_def valid_round_def word_greater_zero_iff split: Round.splits)
next
  case (MultiLeader n)
  have "x < multi_leader_rounds self \<Longrightarrow> multi_leader_rounds self \<le> n + 1 \<Longrightarrow> x < n + 1" for x
    by (rule less_le_trans)
  with MultiLeader show ?thesis
    by (auto simp: next_round_def valid_round_def checked_add_one less_Round_def variant_index_def
        number_def not_max_less_succ word_less_succ succ_le_word not_less split: Round.splits)
next
  case (SingleLeader n)
  then show ?thesis
    by (auto simp: next_round_def valid_round_def checked_add_one less_Round_def variant_index_def
        number_def not_max_less_succ word_less_succ succ_le_word not_less split: Round.splits)
next
  case (Validator n)
  then show ?thesis
    by (auto simp: next_round_def valid_round_def checked_add_one less_Round_def variant_index_def
        number_def not_max_less_succ word_less_succ succ_le_word not_less split: Round.splits)
qed

end
