(* ===== verification/Committee.thy ===== *)
theory Committee
  imports Policy Ownership
begin

text \<open>
  Committees of validators (\<^verbatim>\<open>linera-execution/src/committee.rs\<close>). \<open>Committee_new\<close> computes the
  voting thresholds with the wrapping arithmetic of 64-bit integers. The locale \<open>quorum_system\<close> is
  what the rest of the protocol needs from a committee: two quorums always share an honest
  validator. It is interpreted on \<open>Committee\<close> for well-formed committees whose doubled total
  weight fits in 64 bits.
\<close>

type_synonym ValidatorName = PublicKey
type_synonym Epoch = u32

record ValidatorState =
  network_address_of :: string
  votes :: u64

record Committee =
  validators :: "(ValidatorName, ValidatorState) btree"
  total_votes :: u64
  quorum_threshold :: u64
  validity_threshold :: u64
  policy :: ResourceControlPolicy

definition Committee_new ::
  "(ValidatorName, ValidatorState) btree \<Rightarrow> ResourceControlPolicy \<Rightarrow> Committee" where
  "Committee_new vs p =
     (let total = foldl (\<lambda>sum state. sum + votes state) 0 (map snd vs)
      in \<lparr>validators = vs, total_votes = total, quorum_threshold = 2 * total div 3 + 1,
          validity_threshold = (total + 2) div 3, policy = p\<rparr>)"

definition weight :: "Committee \<Rightarrow> ValidatorName \<Rightarrow> u64" where
  "weight self author = (case bt_get (validators self) author of Some state \<Rightarrow> votes state | None \<Rightarrow> 0)"

definition keys_and_weights :: "Committee \<Rightarrow> (PublicKey \<times> u64) list" where
  "keys_and_weights self = map (\<lambda>(name, validator). (name, votes validator)) (validators self)"

definition network_address :: "Committee \<Rightarrow> ValidatorName \<Rightarrow> string option" where
  "network_address self author = map_option network_address_of (bt_get (validators self) author)"

definition validator_addresses :: "Committee \<Rightarrow> (ValidatorName \<times> string) list" where
  "validator_addresses self = map (\<lambda>(name, v). (name, network_address_of v)) (validators self)"

definition Epoch_try_add_one :: "Epoch \<Rightarrow> ArithmeticError + Epoch" where
  "Epoch_try_add_one self = ok_or (checked_add self 1) Overflow"

definition Epoch_try_add_assign_one :: "Epoch \<Rightarrow> (ArithmeticError + unit) \<times> Epoch" where
  "Epoch_try_add_assign_one self = assign_num self (ok_or (checked_add self 1) Overflow)"

text \<open>The two serialized forms: the full one carries the thresholds, which are recomputed and
  compared when it is read back; the minimal one leaves them out.\<close>

record CommitteeFull =
  cf_validators :: "(ValidatorName, ValidatorState) btree"
  cf_total_votes :: u64
  cf_quorum_threshold :: u64
  cf_validity_threshold :: u64
  cf_policy :: ResourceControlPolicy

record CommitteeMinimal =
  cm_validators :: "(ValidatorName, ValidatorState) btree"
  cm_policy :: ResourceControlPolicy

datatype CommitteeError = InvalidTotalVotes u64 u64 | InvalidQuorumThreshold u64 u64
  | InvalidValidityThreshold u64 u64

definition Committee_try_from :: "CommitteeFull \<Rightarrow> CommitteeError + Committee" where
  "Committee_try_from full =
     (let committee = Committee_new (cf_validators full) (cf_policy full) in
      if cf_total_votes full \<noteq> total_votes committee
      then Inl (InvalidTotalVotes (cf_total_votes full) (total_votes committee))
      else if cf_quorum_threshold full \<noteq> quorum_threshold committee
      then Inl (InvalidQuorumThreshold (cf_quorum_threshold full) (quorum_threshold committee))
      else if cf_validity_threshold full \<noteq> validity_threshold committee
      then Inl (InvalidValidityThreshold (cf_validity_threshold full) (validity_threshold committee))
      else Inr committee)"

definition CommitteeFull_from :: "Committee \<Rightarrow> CommitteeFull" where
  "CommitteeFull_from c = \<lparr>cf_validators = validators c, cf_total_votes = total_votes c,
     cf_quorum_threshold = quorum_threshold c, cf_validity_threshold = validity_threshold c,
     cf_policy = policy c\<rparr>"

definition Committee_from :: "CommitteeMinimal \<Rightarrow> Committee" where
  "Committee_from m = Committee_new (cm_validators m) (cm_policy m)"

definition CommitteeMinimal_from :: "Committee \<Rightarrow> CommitteeMinimal" where
  "CommitteeMinimal_from c = \<lparr>cm_validators = validators c, cm_policy = policy c\<rparr>"

section \<open>Quorum systems\<close>

text \<open>What the consensus argument relies on. \<open>wf\<close> is the provider's invariant.\<close>

locale quorum_system =
  fixes wf :: "'s \<Rightarrow> bool"
    and members :: "'s \<Rightarrow> 'v set"
    and wt :: "'s \<Rightarrow> 'v \<Rightarrow> nat"
    and quorum :: "'s \<Rightarrow> nat"
    and fault_bound :: "'s \<Rightarrow> nat"
  assumes finite_members: "wf c \<Longrightarrow> finite (members c)"
    and overlap: "wf c \<Longrightarrow> sum (wt c) (members c) + fault_bound c < 2 * quorum c"
begin

definition is_quorum :: "'s \<Rightarrow> 'v set \<Rightarrow> bool" where
  "is_quorum c Q \<longleftrightarrow> Q \<subseteq> members c \<and> quorum c \<le> sum (wt c) Q"

definition tolerable :: "'s \<Rightarrow> 'v set \<Rightarrow> bool" where
  "tolerable c F \<longleftrightarrow> sum (wt c) (F \<inter> members c) \<le> fault_bound c"

lemma intersection_heavy:
  assumes c: "wf c" and Q: "is_quorum c Q" "is_quorum c Q'"
  shows "fault_bound c < sum (wt c) (Q \<inter> Q')"
proof -
  have fin: "finite (members c)"
    using c by (rule finite_members)
  then have finQ: "finite Q" "finite Q'"
    using Q by (auto simp: is_quorum_def intro: finite_subset)
  have "sum (wt c) (Q \<union> Q') \<le> sum (wt c) (members c)"
    using fin Q by (intro sum_mono2) (auto simp: is_quorum_def)
  moreover have "sum (wt c) (Q \<union> Q') + sum (wt c) (Q \<inter> Q') = sum (wt c) Q + sum (wt c) Q'"
    using finQ by (rule sum.union_inter)
  ultimately show ?thesis
    using overlap [OF c] Q by (auto simp: is_quorum_def)
qed

lemma honest_in_both:
  assumes c: "wf c" and Q: "is_quorum c Q" "is_quorum c Q'" and F: "tolerable c F"
  shows "\<exists>v \<in> Q \<inter> Q'. v \<notin> F"
proof (rule ccontr)
  assume "\<not> ?thesis"
  then have "Q \<inter> Q' \<subseteq> F \<inter> members c"
    using Q by (auto simp: is_quorum_def)
  moreover have "finite (F \<inter> members c)"
    using finite_members [OF c] by simp
  ultimately have "sum (wt c) (Q \<inter> Q') \<le> sum (wt c) (F \<inter> members c)"
    by (intro sum_mono2) auto
  with intersection_heavy [OF c Q] F show False
    by (simp add: tolerable_def)
qed

lemma honest_in_quorum: "wf c \<Longrightarrow> is_quorum c Q \<Longrightarrow> tolerable c F \<Longrightarrow> \<exists>v \<in> Q. v \<notin> F"
  using honest_in_both [of c Q Q F] by simp

end

section \<open>Committees are quorum systems\<close>

definition exact_total :: "(ValidatorName, ValidatorState) btree \<Rightarrow> nat" where
  "exact_total vs = sum_list (map (\<lambda>(_, state). unat (votes state)) vs)"

definition committee_wf :: "Committee \<Rightarrow> bool" where
  "committee_wf c \<longleftrightarrow> bt_ok (validators c) \<and> 2 * exact_total (validators c) < 2 ^ 64
     \<and> c = Committee_new (validators c) (policy c)"

definition committee_members :: "Committee \<Rightarrow> ValidatorName set" where
  "committee_members c = fst ` set (validators c)"

definition committee_weight :: "Committee \<Rightarrow> ValidatorName \<Rightarrow> nat" where
  "committee_weight c v = unat (weight c v)"

definition committee_fault_bound :: "Committee \<Rightarrow> nat" where
  "committee_fault_bound c = unat (validity_threshold c) - 1"

lemma unat_word_div_numeral: "unat (a div b) = unat a div unat (b :: u64)"
  by (rule unat_div_distrib)

lemma unat_foldl_votes:
  "unat s + exact_total vs < 2 ^ 64 \<Longrightarrow>
   unat (foldl (\<lambda>sum state. sum + votes state) s (map snd vs)) = unat s + exact_total vs"
proof (induction vs arbitrary: s)
  case (Cons p vs)
  then have "unat (s + votes (snd p)) = unat s + unat (votes (snd p))"
    by (simp add: unat_word_ariths exact_total_def split_beta)
  with Cons show ?case by (simp add: exact_total_def split_beta)
qed (simp add: exact_total_def)

lemma Committee_new_totals:
  assumes "2 * exact_total vs < 2 ^ 64"
  shows "unat (total_votes (Committee_new vs p)) = exact_total vs"
    and "unat (quorum_threshold (Committee_new vs p)) = 2 * exact_total vs div 3 + 1"
    and "unat (validity_threshold (Committee_new vs p)) = (exact_total vs + 2) div 3"
proof -
  let ?t = "foldl (\<lambda>sum state. sum + votes state) 0 (map snd vs)"
  have t: "unat ?t = exact_total vs"
    using unat_foldl_votes [of 0 vs] assms by simp
  have "unat (2 * ?t) = 2 * exact_total vs"
    using assms by (simp add: unat_word_ariths t)
  then have "unat (2 * ?t div 3) = 2 * exact_total vs div 3"
    by (simp add: unat_word_div_numeral)
  then show "unat (quorum_threshold (Committee_new vs p)) = 2 * exact_total vs div 3 + 1"
    using assms by (simp add: Committee_new_def Let_def unat_word_ariths)
  have "unat (?t + 2) = exact_total vs + 2"
    using assms by (simp add: unat_word_ariths t)
  then show "unat (validity_threshold (Committee_new vs p)) = (exact_total vs + 2) div 3"
    by (simp add: Committee_new_def Let_def unat_word_div_numeral)
  show "unat (total_votes (Committee_new vs p)) = exact_total vs"
    by (simp add: Committee_new_def Let_def t)
qed

lemma sum_weight_members:
  assumes "bt_ok (validators c)"
  shows "sum (committee_weight c) (committee_members c) = exact_total (validators c)"
proof -
  have d: "distinct (map fst (validators c))"
    using assms by (rule bt_ok_distinct)
  have "sum (committee_weight c) (committee_members c)
      = sum_list (map (committee_weight c) (map fst (validators c)))"
    using d by (simp add: committee_members_def sum.distinct_set_conv_list flip: set_map)
  also have "map (committee_weight c) (map fst (validators c))
      = map (\<lambda>(_, state). unat (votes state)) (validators c)"
    using d by (auto simp: committee_weight_def weight_def)
  finally show ?thesis by (simp add: exact_total_def)
qed

lemma committee_wf_thresholds:
  assumes "committee_wf c"
  shows "unat (quorum_threshold c) = 2 * exact_total (validators c) div 3 + 1"
    and "unat (validity_threshold c) = (exact_total (validators c) + 2) div 3"
    and "unat (total_votes c) = exact_total (validators c)"
  using assms Committee_new_totals [of "validators c" "policy c"] by (auto simp: committee_wf_def)

lemma thresholds_overlap: "n + ((n + 2) div 3 - 1) < 2 * (2 * n div 3 + 1)" for n :: nat
proof -
  have "3 * ((n + 2) div 3) \<le> n + 2" "2 * n < 3 * (2 * n div 3 + 1)"
    by (simp_all add: dividend_less_times_div)
  then show ?thesis by (cases "(n + 2) div 3") simp_all
qed

lemma thresholds_of_faults:
  assumes "n = 3 * f + 1 + k" "k \<le> (2 :: nat)"
  shows "2 * n div 3 + 1 = n - f" "(n + 2) div 3 = f + 1"
proof -
  have "k = 0 \<or> k = 1 \<or> k = 2" using assms(2) by linarith
  then show "2 * n div 3 + 1 = n - f" "(n + 2) div 3 = f + 1"
    using assms(1) by (elim disjE; simp; fail)+
qed

interpretation committee: quorum_system committee_wf committee_members committee_weight
  "\<lambda>c. unat (quorum_threshold c)" committee_fault_bound
proof
  fix c
  assume c: "committee_wf c"
  show "finite (committee_members c)"
    by (simp add: committee_members_def)
  have "exact_total (validators c) + ((exact_total (validators c) + 2) div 3 - 1)
      < 2 * (2 * exact_total (validators c) div 3 + 1)"
    by (rule thresholds_overlap)
  moreover have "bt_ok (validators c)"
    using c by (simp add: committee_wf_def)
  ultimately show "sum (committee_weight c) (committee_members c) + committee_fault_bound c
      < 2 * unat (quorum_threshold c)"
    using c by (simp add: sum_weight_members committee_wf_thresholds committee_fault_bound_def)
qed

text \<open>C33. The thresholds computed by \<open>Committee::new\<close> are the intended ones: for a total weight
  \<open>N = 3f + 1 + k\<close> with \<open>k \<le> 2\<close> (and \<open>2N\<close> representable in 64 bits), the quorum threshold is
  \<open>N - f\<close> and the validity threshold is \<open>f + 1\<close>.\<close>

theorem Committee_thresholds:
  assumes "exact_total vs = 3 * f + 1 + k" "k \<le> 2" "2 * exact_total vs < 2 ^ 64"
  shows "unat (total_votes (Committee_new vs p)) = exact_total vs
    \<and> unat (quorum_threshold (Committee_new vs p)) = exact_total vs - f
    \<and> unat (validity_threshold (Committee_new vs p)) = f + 1"
  using Committee_new_totals [OF assms(3), of p] thresholds_of_faults [OF assms(1,2)] by argo

definition validator_state :: "u64 \<Rightarrow> ValidatorState" where
  "validator_state v = \<lparr>network_address_of = [], votes = v\<rparr>"

theorem Committee_thresholds_witness:
  "let vs = [(1, validator_state 2), (2, validator_state 3)] in
   unat (quorum_threshold (Committee_new vs policy_default)) = 4"
  using Committee_thresholds [of "[(1, validator_state 2), (2, validator_state 3)]" 1 1 policy_default]
  by (simp add: exact_total_def validator_state_def)

text \<open>C8. Any two quorums of a well-formed committee share a validator outside every set of
  faulty validators whose weight is below the validity threshold.\<close>

theorem Committee_quorums_intersect:
  assumes "committee_wf c"
    and "Q \<subseteq> committee_members c" "unat (quorum_threshold c) \<le> (\<Sum>v\<in>Q. unat (weight c v))"
    and "Q' \<subseteq> committee_members c" "unat (quorum_threshold c) \<le> (\<Sum>v\<in>Q'. unat (weight c v))"
    and "(\<Sum>v\<in>F \<inter> committee_members c. unat (weight c v)) < unat (validity_threshold c)"
  shows "\<exists>v \<in> Q \<inter> Q'. v \<notin> F"
  using assms
  by (intro committee.honest_in_both [of c])
     (auto simp: committee.is_quorum_def committee.tolerable_def committee_weight_def
       committee_fault_bound_def)

definition four_validators :: Committee where
  "four_validators = Committee_new (map (\<lambda>v. (v, validator_state 1)) [1, 2, 3, 4]) policy_default"

lemma four_validators_wf: "committee_wf four_validators"
  by (simp add: committee_wf_def four_validators_def Committee_new_def Let_def exact_total_def
      validator_state_def bt_ok_def)

theorem Committee_quorums_intersect_witness: "\<exists>v \<in> {1, 2, 3} \<inter> {2, 3, 4}. v \<notin> {2 :: nat}"
  by (rule Committee_quorums_intersect [of four_validators])
     (simp_all add: four_validators_wf committee_members_def weight_def,
      simp_all add: four_validators_def Committee_new_def validator_state_def Let_def)

lemma Committee_full_roundtrip:
  "Committee_try_from (CommitteeFull_from (Committee_new vs p)) = Inr (Committee_new vs p)"
  by (simp add: Committee_try_from_def CommitteeFull_from_def Let_def)
     (simp add: Committee_new_def Let_def)

lemma Committee_minimal_roundtrip:
  "Committee_from (CommitteeMinimal_from (Committee_new vs p)) = Committee_new vs p"
  by (simp add: Committee_from_def CommitteeMinimal_from_def Committee_new_def Let_def)

lemma Committee_try_from_ok:
  "Committee_try_from full = Inr c \<Longrightarrow>
     c = Committee_new (cf_validators full) (cf_policy full) \<and> CommitteeFull_from c = full"
  by (cases full) (auto simp: Committee_try_from_def CommitteeFull_from_def Committee_new_def Let_def
      split: if_splits)

end
