(* ===== verification/Execution_Types.thy ===== *)
theory Execution_Types
  imports Committee
begin

text \<open>
  The vocabulary of operations and messages: identifiers (\<^verbatim>\<open>linera-base/src/identifiers.rs\<close>),
  application permissions and oracle responses (\<^verbatim>\<open>linera-base/src/data_types.rs\<close>), system
  operations and messages (\<^verbatim>\<open>linera-execution/src/system.rs\<close>), outgoing messages and execution
  outcomes (\<^verbatim>\<open>linera-execution/src/lib.rs\<close>).
\<close>

section \<open>Identifiers\<close>

type_synonym ChainId = CryptoHash
type_synonym ChannelName = bytes
type_synonym StreamName = bytes

record MessageId =
  mid_chain_id :: ChainId
  mid_height :: BlockHeight
  mid_index :: u32

record BytecodeId =
  contract_blob_hash :: CryptoHash
  service_blob_hash :: CryptoHash

record ApplicationId =
  bytecode_id :: BytecodeId
  creation :: MessageId

datatype GenericApplicationId = App_System | App_User ApplicationId

definition user_application_id :: "GenericApplicationId \<Rightarrow> ApplicationId option" where
  "user_application_id self = (case self of App_User app_id \<Rightarrow> Some app_id | App_System \<Rightarrow> None)"

datatype Destination = Dest_Recipient ChainId | Dest_Subscribers ChannelName

definition is_channel :: "Destination \<Rightarrow> bool" where
  "is_channel self = (case self of Dest_Subscribers _ \<Rightarrow> True | Dest_Recipient _ \<Rightarrow> False)"

datatype ChainDescription = Root u32 | Child MessageId

definition is_child :: "ChainDescription \<Rightarrow> bool" where
  "is_child self = (case self of Child _ \<Rightarrow> True | Root _ \<Rightarrow> False)"

datatype BlobType = Blob_Data | Blob_ContractBytecode | Blob_ServiceBytecode

record BlobId =
  blob_hash :: CryptoHash
  blob_type :: BlobType

definition BlobId_new :: "CryptoHash \<Rightarrow> BlobType \<Rightarrow> BlobId" where
  "BlobId_new h t = \<lparr>blob_hash = h, blob_type = t\<rparr>"

record Account =
  acc_chain_id :: ChainId
  acc_owner :: "Owner option"

definition Account_chain :: "ChainId \<Rightarrow> Account" where
  "Account_chain chain_id = \<lparr>acc_chain_id = chain_id, acc_owner = None\<rparr>"

definition Account_owner :: "ChainId \<Rightarrow> Owner \<Rightarrow> Account" where
  "Account_owner chain_id owner = \<lparr>acc_chain_id = chain_id, acc_owner = Some owner\<rparr>"

record ChannelSubscription =
  sub_chain_id :: ChainId
  sub_name :: ChannelName

section \<open>Permissions and oracle responses\<close>

record ApplicationPermissions =
  execute_operations :: "ApplicationId list option"
  mandatory_applications :: "ApplicationId list"
  close_chain_apps :: "ApplicationId list"

definition permissions_new_single :: "ApplicationId \<Rightarrow> ApplicationPermissions" where
  "permissions_new_single app_id = \<lparr>execute_operations = Some [app_id],
     mandatory_applications = [app_id], close_chain_apps = [app_id]\<rparr>"

definition can_execute_operations :: "ApplicationPermissions \<Rightarrow> GenericApplicationId \<Rightarrow> bool" where
  "can_execute_operations self app_id =
     (case (app_id, execute_operations self) of
        (_, None) \<Rightarrow> True
      | (App_System, Some _) \<Rightarrow> False
      | (App_User app_id, Some app_ids) \<Rightarrow> app_id \<in> set app_ids)"

definition can_close_chain :: "ApplicationPermissions \<Rightarrow> ApplicationId \<Rightarrow> bool" where
  "can_close_chain self app_id \<longleftrightarrow> app_id \<in> set (close_chain_apps self)"

datatype OracleResponse = Oracle_Service bytes | Oracle_Post bytes | Oracle_Blob BlobId | Oracle_Assert

definition is_permitted_in_fast_blocks :: "OracleResponse \<Rightarrow> bool" where
  "is_permitted_in_fast_blocks self = (case self of Oracle_Blob _ \<Rightarrow> True | _ \<Rightarrow> False)"

section \<open>System operations and messages\<close>

record OpenChainConfig =
  oc_ownership :: ChainOwnership
  oc_admin_id :: ChainId
  oc_epoch :: Epoch
  oc_committees :: "(Epoch, Committee) btree"
  oc_balance :: Amount
  oc_application_permissions :: ApplicationPermissions

datatype Recipient = Burn | Rec_Account Account

definition Recipient_chain :: "ChainId \<Rightarrow> Recipient" where
  "Recipient_chain chain_id = Rec_Account (Account_chain chain_id)"

datatype SystemChannel = Channel_Admin

record UserApplicationDescription =
  ad_bytecode_id :: BytecodeId
  ad_creation :: MessageId
  ad_parameters :: bytes
  ad_required_application_ids :: "ApplicationId list"

datatype AdminOperation = Admin_CreateCommittee Epoch Committee | Admin_RemoveCommittee Epoch

datatype SystemOperation =
    Op_Transfer "Owner option" Recipient Amount
  | Op_Claim Owner ChainId Recipient Amount
  | Op_OpenChain OpenChainConfig
  | Op_CloseChain
  | Op_ChangeOwnership "PublicKey list" "(PublicKey \<times> u64) list" u32 TimeoutConfig
  | Op_ChangeApplicationPermissions ApplicationPermissions
  | Op_Subscribe ChainId SystemChannel
  | Op_Unsubscribe ChainId SystemChannel
  | Op_PublishBytecode BytecodeId
  | Op_PublishDataBlob CryptoHash
  | Op_ReadBlob BlobId
  | Op_CreateApplication BytecodeId bytes bytes "ApplicationId list"
  | Op_RequestApplication ChainId ApplicationId
  | Op_Admin AdminOperation

text \<open>\<open>Msg_Credit target amount source\<close>, \<open>Msg_Withdraw owner amount recipient\<close>.\<close>

datatype SystemMessage =
    Msg_Credit "Owner option" Amount "Owner option"
  | Msg_Withdraw Owner Amount Recipient
  | Msg_OpenChain OpenChainConfig
  | Msg_CreateCommittee Epoch Committee
  | Msg_RemoveCommittee Epoch
  | Msg_Subscribe ChainId ChannelSubscription
  | Msg_Unsubscribe ChainId ChannelSubscription
  | Msg_ApplicationCreated
  | Msg_RegisterApplications "UserApplicationDescription list"
  | Msg_RequestApplication ApplicationId

section \<open>Operations, messages and outcomes\<close>

datatype Operation = System_op SystemOperation | User_op ApplicationId bytes

datatype Message = System_msg SystemMessage | User_msg ApplicationId bytes

definition Operation_application_id :: "Operation \<Rightarrow> GenericApplicationId" where
  "Operation_application_id self =
     (case self of System_op _ \<Rightarrow> App_System | User_op app_id _ \<Rightarrow> App_User app_id)"

definition Message_application_id :: "Message \<Rightarrow> GenericApplicationId" where
  "Message_application_id self =
     (case self of System_msg _ \<Rightarrow> App_System | User_msg app_id _ \<Rightarrow> App_User app_id)"

definition Message_goes_to_inbox :: "Message \<Rightarrow> bool" where
  "Message_goes_to_inbox self \<longleftrightarrow>
     \<not> (case self of System_msg (Msg_Subscribe _ _) \<Rightarrow> True | System_msg (Msg_Unsubscribe _ _) \<Rightarrow> True
        | _ \<Rightarrow> False)"

definition matches_subscribe :: "Message \<Rightarrow> (ChainId \<times> ChannelSubscription) option" where
  "matches_subscribe self =
     (case self of System_msg (Msg_Subscribe cid sub) \<Rightarrow> Some (cid, sub) | _ \<Rightarrow> None)"

definition matches_unsubscribe :: "Message \<Rightarrow> (ChainId \<times> ChannelSubscription) option" where
  "matches_unsubscribe self =
     (case self of System_msg (Msg_Unsubscribe cid sub) \<Rightarrow> Some (cid, sub) | _ \<Rightarrow> None)"

definition matches_open_chain :: "Message \<Rightarrow> OpenChainConfig option" where
  "matches_open_chain self = (case self of System_msg (Msg_OpenChain config) \<Rightarrow> Some config | _ \<Rightarrow> None)"

datatype MessageKind = Simple | Protected | Tracked | Bouncing

record ('m, 'g) RawOutgoingMessage =
  ro_destination :: Destination
  ro_authenticated :: bool
  ro_grant :: 'g
  ro_kind :: MessageKind
  ro_message :: 'm

record 'm SendMessageRequest =
  sm_destination :: Destination
  sm_authenticated :: bool
  sm_is_tracked :: bool
  sm_grant :: Resources
  sm_message :: 'm

definition RawOutgoingMessage_from :: "'m SendMessageRequest \<Rightarrow> ('m, Resources) RawOutgoingMessage" where
  "RawOutgoingMessage_from request =
     (let kind = (if sm_is_tracked request then Tracked else Simple)
      in \<lparr>ro_destination = sm_destination request, ro_authenticated = sm_authenticated request,
          ro_grant = sm_grant request, ro_kind = kind, ro_message = sm_message request\<rparr>)"

record ('m, 'g) RawExecutionOutcome =
  eo_authenticated_signer :: "Owner option"
  eo_refund_grant_to :: "Account option"
  eo_messages :: "('m, 'g) RawOutgoingMessage list"
  eo_events :: "(StreamName \<times> bytes \<times> bytes) list"
  eo_subscribe :: "(ChannelName \<times> ChainId) list"
  eo_unsubscribe :: "(ChannelName \<times> ChainId) list"

definition RawExecutionOutcome_default :: "('m, 'g) RawExecutionOutcome" where
  "RawExecutionOutcome_default = \<lparr>eo_authenticated_signer = None, eo_refund_grant_to = None,
     eo_messages = [], eo_events = [], eo_subscribe = [], eo_unsubscribe = []\<rparr>"

definition with_authenticated_signer ::
  "('m, 'g) RawExecutionOutcome \<Rightarrow> Owner option \<Rightarrow> ('m, 'g) RawExecutionOutcome" where
  "with_authenticated_signer self signer = self\<lparr>eo_authenticated_signer := signer\<rparr>"

definition with_refund_grant_to ::
  "('m, 'g) RawExecutionOutcome \<Rightarrow> Account option \<Rightarrow> ('m, 'g) RawExecutionOutcome" where
  "with_refund_grant_to self account = self\<lparr>eo_refund_grant_to := account\<rparr>"

definition with_message ::
  "('m, 'g) RawExecutionOutcome \<Rightarrow> ('m, 'g) RawOutgoingMessage \<Rightarrow> ('m, 'g) RawExecutionOutcome" where
  "with_message self message = self\<lparr>eo_messages := eo_messages self @ [message]\<rparr>"

datatype ExecutionOutcome =
    System_outcome "(SystemMessage, Amount) RawExecutionOutcome"
  | User_outcome ApplicationId "(bytes, Amount) RawExecutionOutcome"

definition Outcome_application_id :: "ExecutionOutcome \<Rightarrow> GenericApplicationId" where
  "Outcome_application_id self =
     (case self of System_outcome _ \<Rightarrow> App_System | User_outcome app_id _ \<Rightarrow> App_User app_id)"

definition message_count :: "ExecutionOutcome \<Rightarrow> nat" where
  "message_count self = (case self of System_outcome outcome \<Rightarrow> length (eo_messages outcome)
     | User_outcome _ outcome \<Rightarrow> length (eo_messages outcome))"

definition message_into_priced ::
  "('m, Resources) RawOutgoingMessage \<Rightarrow> ResourceControlPolicy
    \<Rightarrow> ArithmeticError + ('m, Amount) RawOutgoingMessage" where
  "message_into_priced self p =
     bind_r (total_price p (ro_grant self)) (\<lambda>grant.
     Inr \<lparr>ro_destination = ro_destination self, ro_authenticated = ro_authenticated self,
          ro_grant = grant, ro_kind = ro_kind self, ro_message = ro_message self\<rparr>)"

fun collect_results :: "('e + 'a) list \<Rightarrow> 'e + 'a list" where
  "collect_results [] = Inr []"
| "collect_results (r # rs) = bind_r r (\<lambda>x. bind_r (collect_results rs) (\<lambda>xs. Inr (x # xs)))"

definition outcome_into_priced ::
  "('m, Resources) RawExecutionOutcome \<Rightarrow> ResourceControlPolicy
    \<Rightarrow> ArithmeticError + ('m, Amount) RawExecutionOutcome" where
  "outcome_into_priced self p =
     bind_r (collect_results (map (\<lambda>m. message_into_priced m p) (eo_messages self))) (\<lambda>messages.
     Inr \<lparr>eo_authenticated_signer = eo_authenticated_signer self,
          eo_refund_grant_to = eo_refund_grant_to self, eo_messages = messages,
          eo_events = eo_events self, eo_subscribe = eo_subscribe self,
          eo_unsubscribe = eo_unsubscribe self\<rparr>)"

record OperationContext =
  oc_chain_id :: ChainId
  oc_authenticated_signer :: "Owner option"
  oc_authenticated_caller_id :: "ApplicationId option"
  oc_height :: BlockHeight
  oc_index :: "u32 option"

definition ctx_refund_grant_to :: "OperationContext \<Rightarrow> Account option" where
  "ctx_refund_grant_to self =
     Some \<lparr>acc_chain_id = oc_chain_id self, acc_owner = oc_authenticated_signer self\<rparr>"

definition next_message_id :: "OperationContext \<Rightarrow> u32 \<Rightarrow> MessageId" where
  "next_message_id self next_message_index =
     \<lparr>mid_chain_id = oc_chain_id self, mid_height = oc_height self, mid_index = next_message_index\<rparr>"

record MessageContext =
  mc_chain_id :: ChainId
  mc_is_bouncing :: bool
  mc_authenticated_signer :: "Owner option"
  mc_refund_grant_to :: "Account option"
  mc_height :: BlockHeight
  mc_certificate_hash :: CryptoHash
  mc_message_id :: MessageId

section \<open>Errors\<close>

text \<open>The errors of the system application and of execution; the variants that only wrap an error of
  the storage, of a virtual machine or of another library are left out. \<open>System_Panic\<close> and
  \<open>Exec_Panic\<close> stand for a failed \<^verbatim>\<open>expect\<close> or \<^verbatim>\<open>assert!\<close>, which aborts the call.\<close>

datatype SystemExecutionError =
    Sys_ArithmeticError ArithmeticError
  | InvalidNewChainAdminId ChainId
  | InvalidCommittees
  | InvalidEpoch ChainId Epoch
  | IncorrectTransferAmount
  | UnauthenticatedTransferOwner
  | InsufficientFunding Amount
  | InsufficientFundingForFees Amount
  | IncorrectClaimAmount
  | UnauthenticatedClaimOwner
  | AdminOperationOnNonAdminChain
  | InvalidCommitteeCreation
  | InvalidCommitteeRemoval
  | InvalidAdminSubscription ChainId SystemChannel
  | SelfSubscription ChainId SystemChannel
  | AlreadySubscribedToChannel ChainId SystemChannel
  | InvalidUnsubscription ChainId SystemChannel
  | AmountOverflow
  | AmountUnderflow
  | BalanceOverflow
  | BalanceUnderflow
  | CannotRewindEpoch
  | TicksOutOfOrder
  | UnknownApplicationId ApplicationId
  | Sys_InactiveChain
  | BlobNotFoundOnRead BlobId
  | Sys_OracleResponseMismatch
  | MissingOracleResponse
  | System_Panic string

datatype ExecutionError =
    Exec_ArithmeticError ArithmeticError
  | SystemError SystemExecutionError
  | UserError string
  | InvalidPromise
  | ReentrantCall ApplicationId
  | CrossApplicationCallInFinalize ApplicationId ApplicationId
  | ServiceWriteAttempt
  | ApplicationBytecodeNotFound UserApplicationDescription
  | ExcessiveRead
  | ExcessiveWrite
  | MaximumFuelExceeded
  | ExecutedBlockTooLarge
  | MissingRuntimeResponse
  | InvalidBytecodeId BytecodeId
  | OwnerIsNone
  | UnauthorizedApplication ApplicationId
  | UnexpectedOracleResponse
  | Exec_Bcs
  | Exec_OracleResponseMismatch
  | AssertBefore Timestamp Timestamp
  | EventKeyTooLong
  | StreamNameTooLong
  | UnstableOracle
  | Exec_Panic string

section \<open>Facts about pricing\<close>

lemma collect_results_Inr [result_simps]:
  "collect_results rs = Inr xs \<longleftrightarrow> rs = map Inr xs"
  by (induction rs arbitrary: xs) (auto simp: result_simps Cons_eq_map_conv)

lemma outcome_into_priced_Inr:
  assumes "outcome_into_priced self p = Inr out"
  shows "list_all2 (\<lambda>m m'. total_price p (ro_grant m) = Inr (ro_grant m')
      \<and> ro_message m' = ro_message m \<and> ro_kind m' = ro_kind m \<and> ro_destination m' = ro_destination m
      \<and> ro_authenticated m' = ro_authenticated m) (eo_messages self) (eo_messages out)"
proof -
  obtain ms where "map (\<lambda>m. message_into_priced m p) (eo_messages self) = map Inr ms"
    and out: "eo_messages out = ms"
    using assms by (auto simp: outcome_into_priced_def result_simps)
  then have "list_all2 (\<lambda>m m'. message_into_priced m p = Inr m') (eo_messages self) ms"
    by (simp add: list_eq_iff_nth_eq list_all2_conv_all_nth)
  then show ?thesis
    unfolding out by (rule list_all2_mono) (auto simp: message_into_priced_def result_simps)
qed

end
