(* ===== verification/Certificates.thy ===== *)
theory Certificates
  imports Chain_Types
begin

text \<open>
  Certificates, votes and proposals of \<^verbatim>\<open>linera-chain/src/data_types.rs\<close>. Hashing and signing
  are the fields of the parameter \<open>Crypto\<close>: \<open>hash_value\<close> is \<^verbatim>\<open>CryptoHash::new\<close> on certificate
  values, \<open>owner_from\<close> the hash that turns a public key into an owner, \<open>sign_content\<close> and
  \<open>check_content\<close> sign and verify proposals, \<open>key_public\<close> and \<open>sign\<close> are \<^verbatim>\<open>KeyPair::public\<close> and \<^verbatim>\<open>Signature::new\<close> on a value hash and
  round, \<open>sig_check\<close> and \<open>verify_batch\<close> are the verification functions of the signature library.
\<close>

section \<open>Numbering of messages\<close>

lemma message_by_index_concat: "message_by_index ms i = nth_opt (concat ms) i"
proof (induction ms i rule: message_by_index.induct)
  case (2 ms rest index)
  then show ?case by (auto simp: nth_opt_def nth_append)
qed (simp add: nth_opt_def)

lemma nth_concat_take:
  "t < length ms \<Longrightarrow> k < length (ms ! t) \<Longrightarrow>
     nth_opt (concat ms) (sum_list (map length (take t ms)) + k) = Some (ms ! t ! k)"
proof (induction ms arbitrary: t)
  case (Cons m ms)
  show ?case
  proof (cases t)
    case 0
    then show ?thesis using Cons.prems by (simp add: nth_opt_def nth_append)
  next
    case (Suc t')
    then have "nth_opt (concat ms) (sum_list (map length (take t' ms)) + k) = Some (ms ! t' ! k)"
      using Cons by simp
    then show ?thesis
      by (simp add: Suc nth_opt_def nth_append split: if_splits)
  qed
qed simp

text \<open>C30. The two ways of naming an outgoing message agree: if \<open>message_id_for_operation\<close> names the
  \<open>message_index\<close>-th message of an operation, then \<open>message_by_id\<close> finds exactly that message.\<close>

theorem message_by_id_for_operation:
  assumes "message_id_for_operation self operation_index message_index = Some mid"
  shows "message_by_id self mid = Some (messages (outcome self)
    ! (length (incoming_bundles (block self)) + unat operation_index) ! unat message_index)"
proof -
  let ?t = "length (incoming_bundles (block self)) + unat operation_index"
  let ?ms = "messages (outcome self)"
  have t: "?t < length ?ms" and len: "length (?ms ! ?t) < 2 ^ 32"
    and mi: "message_index < of_nat (length (?ms ! ?t))"
    and pre: "sum_list (map length (take ?t ?ms)) < 2 ^ 32"
    and ca: "checked_add (of_nat (sum_list (map length (take ?t ?ms)))) message_index = Some (mid_index mid)"
    and mid: "mid_chain_id mid = chain_id (block self)" "mid_height mid = height (block self)"
    using assms
    by (auto simp: message_id_for_operation_def Let_def nth_opt_def try_u32_def message_id_def bind_eq_Some_conv
        split: if_splits)
  have "unat message_index < length (?ms ! ?t)"
    using mi len by (simp add: word_less_nat_alt unat_of_nat_small)
  moreover have "unat (mid_index mid) = sum_list (map length (take ?t ?ms)) + unat message_index"
    using checked_add_Some [OF ca] pre by (simp add: unat_of_nat_small)
  ultimately show ?thesis
    using nth_concat_take [OF t] by (simp add: message_by_id_def mid message_by_index_concat)
qed

definition sample_message :: OutgoingMessage where
  "sample_message = \<lparr>om_destination = Dest_Recipient 7, om_authenticated_signer = None, om_grant = 0,
     om_refund_grant_to = None, om_kind = Simple, om_message = System_msg Msg_ApplicationCreated\<rparr>"

definition sample_block :: ExecutedBlock where
  "sample_block = \<lparr>block = \<lparr>chain_id = 3, epoch = 0, incoming_bundles = [],
       operations = [System_op Op_CloseChain], height = 5, timestamp = 0, authenticated_signer = None,
       previous_block_hash = None\<rparr>,
     outcome = \<lparr>messages = [[sample_message, sample_message\<lparr>om_grant := 9\<rparr>]], state_hash = 0,
       oracle_responses = [[]], events = [[]]\<rparr>\<rparr>"

theorem message_by_id_for_operation_witness:
  "message_by_id sample_block \<lparr>mid_chain_id = 3, mid_height = 5, mid_index = 1\<rparr>
     = Some (sample_message\<lparr>om_grant := 9\<rparr>)"
proof -
  have "message_id_for_operation sample_block 0 1
      = Some \<lparr>mid_chain_id = 3, mid_height = 5, mid_index = 1\<rparr>"
    by (simp add: message_id_for_operation_def sample_block_def message_id_def nth_opt_def try_u32_def
        checked_add_def word_le_nat_alt)
  from message_by_id_for_operation [OF this] show ?thesis
    by (simp add: sample_block_def)
qed

section \<open>Certificate values\<close>

datatype CertificateValue =
    ValidatedBlock ExecutedBlock
  | ConfirmedBlock ExecutedBlock
  | Timeout ChainId BlockHeight Epoch

type_synonym ValueHashAndRound = "CryptoHash \<times> Round"
type_synonym KeyPair = nat

record ProposalContent =
  pc_block :: Block
  pc_round :: Round
  pc_forced_oracle_responses :: "OracleResponse list list option"

record Crypto =
  hash_value :: "CertificateValue \<Rightarrow> CryptoHash"
  owner_from :: "PublicKey \<Rightarrow> Owner"
  sign_content :: "ProposalContent \<Rightarrow> KeyPair \<Rightarrow> Signature"
  check_content :: "ProposalContent \<Rightarrow> PublicKey \<Rightarrow> Signature \<Rightarrow> bool"
  key_public :: "KeyPair \<Rightarrow> PublicKey"
  sign :: "ValueHashAndRound \<Rightarrow> KeyPair \<Rightarrow> Signature"
  sig_check :: "ValueHashAndRound \<Rightarrow> PublicKey \<Rightarrow> Signature \<Rightarrow> bool"
  verify_batch :: "ValueHashAndRound \<Rightarrow> (PublicKey \<times> Signature) list \<Rightarrow> bool"

definition status :: "CertificateValue \<Rightarrow> string" where
  "status self = (case self of ValidatedBlock _ \<Rightarrow> ''validated'' | ConfirmedBlock _ \<Rightarrow> ''confirmed''
     | Timeout _ _ _ \<Rightarrow> ''timeout'')"

definition value_chain_id :: "CertificateValue \<Rightarrow> ChainId" where
  "value_chain_id self = (case self of ConfirmedBlock eb \<Rightarrow> chain_id (block eb)
     | ValidatedBlock eb \<Rightarrow> chain_id (block eb) | Timeout cid _ _ \<Rightarrow> cid)"

definition value_height :: "CertificateValue \<Rightarrow> BlockHeight" where
  "value_height self = (case self of ConfirmedBlock eb \<Rightarrow> height (block eb)
     | ValidatedBlock eb \<Rightarrow> height (block eb) | Timeout _ h _ \<Rightarrow> h)"

definition value_epoch :: "CertificateValue \<Rightarrow> Epoch" where
  "value_epoch self = (case self of ConfirmedBlock eb \<Rightarrow> epoch (block eb)
     | ValidatedBlock eb \<Rightarrow> epoch (block eb) | Timeout _ _ e \<Rightarrow> e)"

definition executed_block :: "CertificateValue \<Rightarrow> ExecutedBlock option" where
  "executed_block self = (case self of ConfirmedBlock eb \<Rightarrow> Some eb | ValidatedBlock eb \<Rightarrow> Some eb
     | Timeout _ _ _ \<Rightarrow> None)"

definition value_block :: "CertificateValue \<Rightarrow> Block option" where
  "value_block self = map_option block (executed_block self)"

definition has_message :: "CertificateValue \<Rightarrow> MessageId \<Rightarrow> bool" where
  "has_message self mid =
     (case executed_block self of None \<Rightarrow> False
      | Some eb \<Rightarrow> value_height self = mid_height mid \<and> value_chain_id self = mid_chain_id mid
          \<and> length (messages (outcome eb)) > unat (mid_index mid))"

definition is_confirmed :: "CertificateValue \<Rightarrow> bool" where
  "is_confirmed self = (case self of ConfirmedBlock _ \<Rightarrow> True | _ \<Rightarrow> False)"

definition is_validated :: "CertificateValue \<Rightarrow> bool" where
  "is_validated self = (case self of ValidatedBlock _ \<Rightarrow> True | _ \<Rightarrow> False)"

definition is_timeout :: "CertificateValue \<Rightarrow> bool" where
  "is_timeout self = (case self of Timeout _ _ _ \<Rightarrow> True | _ \<Rightarrow> False)"

definition to_log_str :: "CertificateValue \<Rightarrow> string" where
  "to_log_str self = (case self of ConfirmedBlock _ \<Rightarrow> ''confirmed_block''
     | ValidatedBlock _ \<Rightarrow> ''validated_block'' | Timeout _ _ _ \<Rightarrow> ''timeout'')"

record HashedCertificateValue =
  hv_value :: CertificateValue
  hv_hash :: CryptoHash

definition with_hash :: "Crypto \<Rightarrow> CertificateValue \<Rightarrow> HashedCertificateValue" where
  "with_hash cr self = \<lparr>hv_value = self, hv_hash = hash_value cr self\<rparr>"

definition with_hash_checked ::
  "Crypto \<Rightarrow> CertificateValue \<Rightarrow> CryptoHash \<Rightarrow> ChainError + HashedCertificateValue" where
  "with_hash_checked cr self hash =
     (let hv = with_hash cr self in
      bind_r (ensure (hv_hash hv = hash) (CertificateValueHashMismatch hash (hv_hash hv))) (\<lambda>_. Inr hv))"

definition with_hash_unchecked :: "CertificateValue \<Rightarrow> CryptoHash \<Rightarrow> HashedCertificateValue" where
  "with_hash_unchecked self hash = \<lparr>hv_value = self, hv_hash = hash\<rparr>"

definition new_confirmed :: "Crypto \<Rightarrow> ExecutedBlock \<Rightarrow> HashedCertificateValue" where
  "new_confirmed cr eb = with_hash cr (ConfirmedBlock eb)"

definition new_validated :: "Crypto \<Rightarrow> ExecutedBlock \<Rightarrow> HashedCertificateValue" where
  "new_validated cr eb = with_hash cr (ValidatedBlock eb)"

definition new_timeout :: "Crypto \<Rightarrow> ChainId \<Rightarrow> BlockHeight \<Rightarrow> Epoch \<Rightarrow> HashedCertificateValue" where
  "new_timeout cr cid h e = with_hash cr (Timeout cid h e)"

record LiteValue =
  lv_value_hash :: CryptoHash
  lv_chain_id :: ChainId

definition lite_of :: "HashedCertificateValue \<Rightarrow> LiteValue" where
  "lite_of self = \<lparr>lv_value_hash = hv_hash self, lv_chain_id = value_chain_id (hv_value self)\<rparr>"

definition validated_to_confirmed ::
  "Crypto \<Rightarrow> HashedCertificateValue \<Rightarrow> HashedCertificateValue option" where
  "validated_to_confirmed cr self =
     (case hv_value self of ValidatedBlock eb \<Rightarrow> Some (with_hash cr (ConfirmedBlock eb))
      | ConfirmedBlock _ \<Rightarrow> None | Timeout _ _ _ \<Rightarrow> None)"

section \<open>Votes and certificates\<close>

record Vote =
  vote_value :: HashedCertificateValue
  vote_round :: Round
  vote_validator :: ValidatorName
  vote_signature :: Signature

record LiteVote =
  lvote_value :: LiteValue
  lvote_round :: Round
  lvote_validator :: ValidatorName
  lvote_signature :: Signature

definition Vote_new :: "Crypto \<Rightarrow> HashedCertificateValue \<Rightarrow> Round \<Rightarrow> KeyPair \<Rightarrow> Vote" where
  "Vote_new cr value' round key_pair =
     (let hash_and_round = (hv_hash value', round);
          signature = sign cr hash_and_round key_pair
      in \<lparr>vote_value = value', vote_round = round, vote_validator = key_public cr key_pair,
          vote_signature = signature\<rparr>)"

definition Vote_lite :: "Vote \<Rightarrow> LiteVote" where
  "Vote_lite self = \<lparr>lvote_value = lite_of (vote_value self), lvote_round = vote_round self,
     lvote_validator = vote_validator self, lvote_signature = vote_signature self\<rparr>"

definition LiteVote_with_value :: "LiteVote \<Rightarrow> HashedCertificateValue \<Rightarrow> Vote option" where
  "LiteVote_with_value self value' =
     (if lvote_value self \<noteq> lite_of value' then None
      else Some \<lparr>vote_value = value', vote_round = lvote_round self,
             vote_validator = lvote_validator self, vote_signature = lvote_signature self\<rparr>)"

definition LiteVote_new :: "Crypto \<Rightarrow> LiteValue \<Rightarrow> Round \<Rightarrow> KeyPair \<Rightarrow> LiteVote" where
  "LiteVote_new cr value' round key_pair =
     (let hash_and_round = (lv_value_hash value', round)
      in \<lparr>lvote_value = value', lvote_round = round, lvote_validator = key_public cr key_pair,
          lvote_signature = sign cr hash_and_round key_pair\<rparr>)"

definition LiteVote_check :: "Crypto \<Rightarrow> LiteVote \<Rightarrow> ChainError + unit" where
  "LiteVote_check cr self =
     (let hash_and_round = (lv_value_hash (lvote_value self), lvote_round self)
      in ensure (sig_check cr hash_and_round (lvote_validator self) (lvote_signature self)) Chain_CryptoError)"

type_synonym Signatures = "(ValidatorName \<times> Signature) list"

record LiteCertificate =
  lc_value :: LiteValue
  lc_round :: Round
  lc_signatures :: Signatures

record Certificate =
  cert_value :: HashedCertificateValue
  cert_round :: Round
  cert_signatures :: Signatures

fun is_strictly_ordered :: "Signatures \<Rightarrow> bool" where
  "is_strictly_ordered (a # b # rest) \<longleftrightarrow> fst a < fst b \<and> is_strictly_ordered (b # rest)"
| "is_strictly_ordered _ \<longleftrightarrow> True"

definition LiteCertificate_new :: "LiteValue \<Rightarrow> Round \<Rightarrow> Signatures \<Rightarrow> LiteCertificate" where
  "LiteCertificate_new value' round signatures =
     \<lparr>lc_value = value', lc_round = round,
      lc_signatures = (if is_strictly_ordered signatures then signatures else sort_key fst signatures)\<rparr>"

fun try_from_votes_loop :: "LiteVote list \<Rightarrow> LiteValue \<Rightarrow> Round \<Rightarrow> Signatures \<Rightarrow> Signatures option" where
  "try_from_votes_loop [] value' round signatures = Some signatures"
| "try_from_votes_loop (vote # lvotes) value' round signatures =
     (if lv_value_hash (lvote_value vote) \<noteq> lv_value_hash value' \<or> lvote_round vote \<noteq> round then None
      else try_from_votes_loop lvotes value' round
             (signatures @ [(lvote_validator vote, lvote_signature vote)]))"

definition try_from_votes :: "LiteVote list \<Rightarrow> LiteCertificate option" where
  "try_from_votes lvotes =
     (case lvotes of [] \<Rightarrow> None
      | vote # rest \<Rightarrow>
        map_option (LiteCertificate_new (lvote_value vote) (lvote_round vote))
          (try_from_votes_loop rest (lvote_value vote) (lvote_round vote)
            [(lvote_validator vote, lvote_signature vote)]))"

fun check_quorum_loop ::
  "Committee \<Rightarrow> Signatures \<Rightarrow> u64 \<Rightarrow> ValidatorName set \<Rightarrow> ChainError + u64" where
  "check_quorum_loop committee [] w used_validators = Inr w"
| "check_quorum_loop committee ((validator, _) # rest) w used_validators =
     bind_r (ensure (validator \<notin> used_validators) CertificateValidatorReuse) (\<lambda>_.
     let used_validators = insert validator used_validators;
         voting_rights = weight committee validator in
     bind_r (ensure (voting_rights > 0) InvalidSigner) (\<lambda>_.
     check_quorum_loop committee rest (w + voting_rights) used_validators))"

definition check_signatures ::
  "Crypto \<Rightarrow> LiteValue \<Rightarrow> Round \<Rightarrow> Signatures \<Rightarrow> Committee \<Rightarrow> ChainError + unit" where
  "check_signatures cr value' round signatures committee =
     bind_r (check_quorum_loop committee signatures 0 {}) (\<lambda>w.
     bind_r (ensure (w \<ge> quorum_threshold committee) CertificateRequiresQuorum) (\<lambda>_.
     let hash_and_round = (lv_value_hash value', round) in
     ensure (verify_batch cr hash_and_round signatures) Chain_CryptoError))"

definition LiteCertificate_check :: "Crypto \<Rightarrow> LiteCertificate \<Rightarrow> Committee \<Rightarrow> ChainError + LiteValue" where
  "LiteCertificate_check cr self committee =
     bind_r (check_signatures cr (lc_value self) (lc_round self) (lc_signatures self) committee)
       (\<lambda>_. Inr (lc_value self))"

definition LiteCertificate_with_value :: "LiteCertificate \<Rightarrow> HashedCertificateValue \<Rightarrow> Certificate option" where
  "LiteCertificate_with_value self value' =
     (if lv_chain_id (lc_value self) \<noteq> value_chain_id (hv_value value')
         \<or> lv_value_hash (lc_value self) \<noteq> hv_hash value' then None
      else Some \<lparr>cert_value = value', cert_round = lc_round self, cert_signatures = lc_signatures self\<rparr>)"

definition Certificate_new :: "HashedCertificateValue \<Rightarrow> Round \<Rightarrow> Signatures \<Rightarrow> Certificate" where
  "Certificate_new value' round signatures =
     \<lparr>cert_value = value', cert_round = round,
      cert_signatures = (if is_strictly_ordered signatures then signatures else sort_key fst signatures)\<rparr>"

definition lite_value :: "Certificate \<Rightarrow> LiteValue" where
  "lite_value self = \<lparr>lv_value_hash = hv_hash (cert_value self),
     lv_chain_id = value_chain_id (hv_value (cert_value self))\<rparr>"

definition lite_certificate :: "Certificate \<Rightarrow> LiteCertificate" where
  "lite_certificate self = \<lparr>lc_value = lite_value self, lc_round = cert_round self,
     lc_signatures = cert_signatures self\<rparr>"

definition Certificate_check :: "Crypto \<Rightarrow> Certificate \<Rightarrow> Committee \<Rightarrow> ChainError + HashedCertificateValue" where
  "Certificate_check cr self committee =
     bind_r (check_signatures cr (lite_value self) (cert_round self) (cert_signatures self) committee)
       (\<lambda>_. Inr (cert_value self))"

text \<open>\<^verbatim>\<open>binary_search_by\<close> on a list sorted by name: the position of the name, or else the position where
  it belongs.\<close>

definition binary_search :: "Signatures \<Rightarrow> ValidatorName \<Rightarrow> nat + nat" where
  "binary_search sigs name =
     (let i = length (takeWhile (\<lambda>p. fst p < name) sigs) in
      if i < length sigs \<and> fst (sigs ! i) = name then Inr i else Inl i)"

definition add_signature :: "Certificate \<Rightarrow> ValidatorName \<times> Signature \<Rightarrow> Certificate" where
  "add_signature self signature =
     (let index = (case binary_search (cert_signatures self) (fst signature) of Inl i \<Rightarrow> i | Inr i \<Rightarrow> i)
      in self\<lparr>cert_signatures := take index (cert_signatures self) @ signature
                                  # drop index (cert_signatures self)\<rparr>)"

definition is_signed_by :: "Certificate \<Rightarrow> ValidatorName \<Rightarrow> bool" where
  "is_signed_by self name = is_ok (binary_search (cert_signatures self) name)"

definition Certificate_deserialize ::
  "HashedCertificateValue \<Rightarrow> Round \<Rightarrow> Signatures \<Rightarrow> string + Certificate" where
  "Certificate_deserialize value' round signatures =
     (if \<not> is_strictly_ordered signatures then Inl ''Vector is not strictly sorted''
      else Inr \<lparr>cert_value = value', cert_round = round, cert_signatures = signatures\<rparr>)"

definition Certificate_requires_blob :: "Certificate \<Rightarrow> BlobId \<Rightarrow> bool" where
  "Certificate_requires_blob self blob_id =
     (case executed_block (hv_value (cert_value self)) of None \<Rightarrow> False
      | Some eb \<Rightarrow> ExecutedBlock_requires_blob eb blob_id)"

fun bundles_loop ::
  "CryptoHash \<Rightarrow> Block \<Rightarrow> Medium \<Rightarrow> ChainId \<Rightarrow> u32 \<Rightarrow> u32 \<Rightarrow> OutgoingMessage list list
    \<Rightarrow> (Epoch \<times> MessageBundle) list" where
  "bundles_loop hash b medium rcp transaction_index index [] = []"
| "bundles_loop hash b medium rcp transaction_index index (txn_messages # rest) =
     (let posted = map (\<lambda>(idx, message). into_posted message idx)
            (filter (\<lambda>(_, message). has_destination message medium rcp)
              (zip (map (\<lambda>k. index + of_nat k) [0..<length txn_messages]) txn_messages));
          index = index + of_nat (length txn_messages);
          tail = bundles_loop hash b medium rcp (transaction_index + 1) index rest
      in if posted \<noteq> [] then
           (epoch b, \<lparr>mb_height = height b, mb_timestamp = timestamp b, mb_certificate_hash = hash,
              mb_transaction_index = transaction_index, mb_messages = posted\<rparr>) # tail
         else tail)"

definition message_bundles_for :: "Certificate \<Rightarrow> Medium \<Rightarrow> ChainId \<Rightarrow> (Epoch \<times> MessageBundle) list" where
  "message_bundles_for self medium rcp =
     (case executed_block (hv_value (cert_value self)) of None \<Rightarrow> []
      | Some eb \<Rightarrow> bundles_loop (hv_hash (cert_value self)) (block eb) medium rcp 0 0 (messages (outcome eb)))"

section \<open>Proposals\<close>

record Blob =
  b_id :: BlobId
  b_content :: bytes

record BlockProposal =
  content :: ProposalContent
  prop_owner :: Owner
  prop_signature :: Signature
  prop_blobs :: "Blob list"
  validated_block_certificate :: "LiteCertificate option"

definition new_initial :: "Crypto \<Rightarrow> Round \<Rightarrow> Block \<Rightarrow> KeyPair \<Rightarrow> Blob list \<Rightarrow> BlockProposal" where
  "new_initial cr round b secret blobs =
     (let c = \<lparr>pc_block = b, pc_round = round, pc_forced_oracle_responses = None\<rparr>
      in \<lparr>content = c, prop_owner = owner_from cr (key_public cr secret),
          prop_signature = sign_content cr c secret, prop_blobs = blobs,
          validated_block_certificate = None\<rparr>)"

text \<open>\<open>new_retry\<close> panics unless the certificate is for a validated block.\<close>

definition new_retry :: "Crypto \<Rightarrow> Round \<Rightarrow> Certificate \<Rightarrow> KeyPair \<Rightarrow> Blob list \<Rightarrow> BlockProposal option" where
  "new_retry cr round cert secret blobs =
     (case hv_value (cert_value cert) of
        ValidatedBlock eb \<Rightarrow>
          (let c = \<lparr>pc_block = block eb, pc_round = round,
                    pc_forced_oracle_responses = Some (oracle_responses (outcome eb))\<rparr>
           in Some \<lparr>content = c, prop_owner = owner_from cr (key_public cr secret),
                prop_signature = sign_content cr c secret, prop_blobs = blobs,
                validated_block_certificate = Some (lite_certificate cert)\<rparr>)
      | _ \<Rightarrow> None)"

definition check_signature :: "Crypto \<Rightarrow> BlockProposal \<Rightarrow> PublicKey \<Rightarrow> ChainError + unit" where
  "check_signature cr self public_key =
     ensure (check_content cr (content self) public_key (prop_signature self)) Chain_CryptoError"

section \<open>Aggregating signatures\<close>

record SignatureAggregator =
  ag_committee :: Committee
  ag_weight :: u64
  ag_used_validators :: "ValidatorName set"
  ag_partial :: Certificate

definition aggregator_new :: "HashedCertificateValue \<Rightarrow> Round \<Rightarrow> Committee \<Rightarrow> SignatureAggregator" where
  "aggregator_new value' round c = \<lparr>ag_committee = c, ag_weight = 0, ag_used_validators = {},
     ag_partial = \<lparr>cert_value = value', cert_round = round, cert_signatures = []\<rparr>\<rparr>"

text \<open>\<open>append\<close> returns its result and the aggregator it leaves behind, also on an error.\<close>

definition aggregator_append ::
  "Crypto \<Rightarrow> SignatureAggregator \<Rightarrow> ValidatorName \<Rightarrow> Signature
    \<Rightarrow> (ChainError + Certificate option) \<times> SignatureAggregator" where
  "aggregator_append cr self validator signature =
     (let hash_and_round = (hv_hash (cert_value (ag_partial self)), cert_round (ag_partial self)) in
      if \<not> sig_check cr hash_and_round validator signature then (Inl Chain_CryptoError, self)
      else if validator \<in> ag_used_validators self then (Inl CertificateValidatorReuse, self)
      else
      let self = self\<lparr>ag_used_validators := insert validator (ag_used_validators self)\<rparr>;
          voting_rights = weight (ag_committee self) validator in
      if \<not> voting_rights > 0 then (Inl InvalidSigner, self)
      else
      let self = self\<lparr>ag_weight := ag_weight self + voting_rights\<rparr>;
          self = self\<lparr>ag_partial := add_signature (ag_partial self) (validator, signature)\<rparr> in
      if ag_weight self \<ge> quorum_threshold (ag_committee self)
      then (Inr (Some (ag_partial self)), self\<lparr>ag_weight := 0\<rparr>)
      else (Inr None, self))"

fun aggregator_run ::
  "Crypto \<Rightarrow> SignatureAggregator \<Rightarrow> Signatures
    \<Rightarrow> (ChainError + Certificate option) list \<times> SignatureAggregator" where
  "aggregator_run cr self [] = ([], self)"
| "aggregator_run cr self ((validator, signature) # rest) =
     (let (r, self) = aggregator_append cr self validator signature;
          (rs, self) = aggregator_run cr self rest
      in (r # rs, self))"

end
