(* ===== verification/Certificate_Props.thy ===== *)
theory Certificate_Props
  imports Certificates
begin

text \<open>
  Correctness of certificates: what a successful signature check guarantees, that the signature
  aggregator emits a certificate exactly when the collected weight first reaches the quorum, and
  that the bundles cut from a certificate are exactly the block's messages to the recipient.
\<close>

section \<open>Weights of sets of validators\<close>

lemma weight_pos_member: "weight c v > 0 \<Longrightarrow> v \<in> committee_members c"
  by (auto simp: weight_def committee_members_def split: option.splits dest: map_of_SomeD intro: rev_image_eqI)

lemma sum_weight_le_total:
  assumes "committee_wf c" "S \<subseteq> committee_members c"
  shows "sum (committee_weight c) S \<le> exact_total (validators c)"
proof -
  have "sum (committee_weight c) S \<le> sum (committee_weight c) (committee_members c)"
    using assms by (intro sum_mono2) (auto simp: committee_members_def)
  also have "\<dots> = exact_total (validators c)"
    using assms by (simp add: sum_weight_members committee_wf_def)
  finally show ?thesis .
qed

lemma total_lt_word: "committee_wf c \<Longrightarrow> exact_total (validators c) < 2 ^ 64"
  by (simp add: committee_wf_def)

lemma total_lt_two_quorums: "committee_wf c \<Longrightarrow> exact_total (validators c) < 2 * unat (quorum_threshold c)"
  using committee.overlap [of c] sum_weight_members [of c] by (simp add: committee_wf_def)

lemma unat_add_weight:
  assumes "committee_wf c" "insert v S \<subseteq> committee_members c" "v \<notin> S" "finite S"
    and "unat w + k = sum (committee_weight c) S"
  shows "unat (w + weight c v) = unat w + unat (weight c v)"
proof -
  have "sum (committee_weight c) (insert v S) < 2 ^ 64"
    using sum_weight_le_total [OF assms(1,2)] total_lt_word [OF assms(1)] by linarith
  then have "unat w + unat (weight c v) < 2 ^ 64"
    using assms(3-5) by (simp add: committee_weight_def)
  then show ?thesis by (simp add: unat_word_ariths)
qed

section \<open>Checking signatures\<close>

lemma check_quorum_loop_ok:
  assumes "check_quorum_loop c sigs w U = Inr w'" "committee_wf c" "finite U"
    and "U \<subseteq> committee_members c" "unat w = sum (committee_weight c) U"
  shows "distinct (map fst sigs) \<and> fst ` set sigs \<inter> U = {} \<and> fst ` set sigs \<subseteq> committee_members c
    \<and> unat w' = sum (committee_weight c) (U \<union> fst ` set sigs)"
  using assms
proof (induction c sigs w U rule: check_quorum_loop.induct)
  case (2 c v s rest w U)
  from "2.prems"(1) have v: "v \<notin> U" "weight c v > 0"
    and rest: "check_quorum_loop c rest (w + weight c v) (insert v U) = Inr w'"
    by (auto simp: result_simps Let_def)
  have sub: "insert v U \<subseteq> committee_members c"
    using "2.prems"(4) weight_pos_member [OF v(2)] by simp
  have "unat (w + weight c v) = unat w + unat (weight c v)"
    using unat_add_weight [OF "2.prems"(2) sub v(1) "2.prems"(3), of w 0] "2.prems"(5) by simp
  then have w: "unat (w + weight c v) = sum (committee_weight c) (insert v U)"
    using v "2.prems"(3,5) by (simp add: committee_weight_def)
  have "distinct (map fst rest) \<and> fst ` set rest \<inter> insert v U = {}
    \<and> fst ` set rest \<subseteq> committee_members c
    \<and> unat w' = sum (committee_weight c) (insert v U \<union> fst ` set rest)"
    using "2.IH" [OF refl refl rest "2.prems"(2) _ sub w] "2.prems"(3) by simp
  then show ?case
    using v sub by auto
qed simp

lemma check_signatures_ok:
  assumes "check_signatures cr lv r sigs c = Inr ()" "committee_wf c"
  shows "committee.is_quorum c (fst ` set sigs) \<and> distinct (map fst sigs)
    \<and> verify_batch cr (lv_value_hash lv, r) sigs"
proof -
  obtain w where w: "check_quorum_loop c sigs 0 {} = Inr w"
    and q: "quorum_threshold c \<le> w" and b: "verify_batch cr (lv_value_hash lv, r) sigs"
    using assms(1) by (auto simp: check_signatures_def result_simps Let_def)
  show ?thesis
    using check_quorum_loop_ok [OF w assms(2)] q b
    by (auto simp: committee.is_quorum_def word_le_nat_alt)
qed

lemma check_quorum_loop_complete:
  assumes "distinct (map fst sigs)" "fst ` set sigs \<inter> U = {}" "\<forall>v \<in> fst ` set sigs. weight c v > 0"
  shows "\<exists>w'. check_quorum_loop c sigs w U = Inr w'"
  using assms
  by (induction c sigs w U rule: check_quorum_loop.induct) (auto simp: Let_def)

lemma check_signatures_complete:
  assumes "committee_wf c" "distinct (map fst sigs)" "\<forall>v \<in> fst ` set sigs. weight c v > 0"
    and "unat (quorum_threshold c) \<le> sum (committee_weight c) (fst ` set sigs)"
    and "verify_batch cr (lv_value_hash lv, r) sigs"
  shows "check_signatures cr lv r sigs c = Inr ()"
proof -
  obtain w where w: "check_quorum_loop c sigs 0 {} = Inr w"
    using check_quorum_loop_complete [of sigs "{}" c 0] assms by auto
  then show ?thesis
    using check_quorum_loop_ok [OF w assms(1)] assms
    by (simp add: check_signatures_def Let_def word_le_nat_alt)
qed

text \<open>C7. A certificate that passes \<open>check\<close> against a well-formed committee carries a quorum: its
  signers are pairwise distinct members of the committee, their exact total weight (no wrap-around)
  reaches the quorum threshold, and the batch of signatures verifies for the certificate's value
  hash and round.\<close>

theorem Certificate_check_quorum:
  assumes "Certificate_check cr cert c = Inr v" "committee_wf c"
  shows "v = cert_value cert \<and> distinct (map fst (cert_signatures cert))
    \<and> fst ` set (cert_signatures cert) \<subseteq> committee_members c
    \<and> unat (quorum_threshold c) \<le> (\<Sum>u \<in> fst ` set (cert_signatures cert). unat (weight c u))
    \<and> verify_batch cr (hv_hash (cert_value cert), cert_round cert) (cert_signatures cert)"
proof -
  have "check_signatures cr (lite_value cert) (cert_round cert) (cert_signatures cert) c = Inr ()"
    and "v = cert_value cert"
    using assms(1) by (auto simp: Certificate_check_def result_simps)
  with check_signatures_ok [OF this(1) assms(2)] show ?thesis
    by (simp add: committee.is_quorum_def committee_weight_def lite_value_def)
qed

definition plain_crypto :: Crypto where
  "plain_crypto = \<lparr>hash_value = (\<lambda>v. case v of ValidatedBlock eb \<Rightarrow> 3 * state_hash (outcome eb)
       | ConfirmedBlock eb \<Rightarrow> 3 * state_hash (outcome eb) + 1 | Timeout _ h _ \<Rightarrow> 3 * unat h + 2),
     owner_from = (\<lambda>k. k), sign_content = (\<lambda>_ k. k), check_content = (\<lambda>_ p s. p = s),
     key_public = (\<lambda>k. k), sign = (\<lambda>(h, _) k. h + k), sig_check = (\<lambda>(h, _) p s. s = h + p),
     verify_batch = (\<lambda>(h, _) l. list_all (\<lambda>(p, s). s = h + p) l)\<rparr>"

definition sample_certificate :: Certificate where
  "sample_certificate = \<lparr>cert_value = new_confirmed plain_crypto sample_block, cert_round = MultiLeader 0,
     cert_signatures = [(1, 2), (2, 3), (4, 5)]\<rparr>"

lemmas four_validators_simps = four_validators_def Committee_new_def validator_state_def Let_def

lemma sample_certificate_checks:
  "Certificate_check plain_crypto sample_certificate four_validators = Inr (cert_value sample_certificate)"
  by (simp add: Certificate_check_def check_signatures_def sample_certificate_def weight_def
      four_validators_simps new_confirmed_def with_hash_def plain_crypto_def sample_block_def lite_value_def
      word_le_nat_alt word_less_nat_alt unat_div_distrib)

theorem Certificate_check_quorum_witness:
  "unat (quorum_threshold four_validators) \<le> (\<Sum>u \<in> {1, 2, 4}. unat (weight four_validators u))"
  using Certificate_check_quorum [OF sample_certificate_checks four_validators_wf]
  by (simp add: sample_certificate_def)

section \<open>The signature aggregator\<close>

definition valid_signers :: "Crypto \<Rightarrow> ValueHashAndRound \<Rightarrow> Committee \<Rightarrow> Signatures \<Rightarrow> ValidatorName set" where
  "valid_signers cr m c sigs = {v. weight c v > 0 \<and> (\<exists>s. (v, s) \<in> set sigs \<and> sig_check cr m v s)}"

definition signed_weight :: "Crypto \<Rightarrow> ValueHashAndRound \<Rightarrow> Committee \<Rightarrow> Signatures \<Rightarrow> nat" where
  "signed_weight cr m c sigs = sum (committee_weight c) (valid_signers cr m c sigs)"

definition voting :: "Committee \<Rightarrow> ValidatorName set" where
  "voting c = {u. weight c u > 0}"

definition aggregator_inv ::
  "Crypto \<Rightarrow> HashedCertificateValue \<Rightarrow> Round \<Rightarrow> Committee \<Rightarrow> Signatures \<Rightarrow> SignatureAggregator \<Rightarrow> bool" where
  "aggregator_inv cr hv r c sigs st \<longleftrightarrow>
     ag_committee st = c \<and> cert_value (ag_partial st) = hv \<and> cert_round (ag_partial st) = r
     \<and> ag_used_validators st \<inter> voting c = valid_signers cr (hv_hash hv, r) c sigs
     \<and> sorted_wrt (<) (map fst (cert_signatures (ag_partial st)))
     \<and> fst ` set (cert_signatures (ag_partial st)) = valid_signers cr (hv_hash hv, r) c sigs
     \<and> list_all (\<lambda>(v, s). sig_check cr (hv_hash hv, r) v s) (cert_signatures (ag_partial st))
     \<and> (if signed_weight cr (hv_hash hv, r) c sigs < unat (quorum_threshold c)
        then unat (ag_weight st) = signed_weight cr (hv_hash hv, r) c sigs
        else unat (ag_weight st) + unat (quorum_threshold c) \<le> signed_weight cr (hv_hash hv, r) c sigs)"

definition is_cert :: "ChainError + Certificate option \<Rightarrow> bool" where
  "is_cert res = (case res of Inr (Some _) \<Rightarrow> True | _ \<Rightarrow> False)"

lemma valid_signers_members: "valid_signers cr m c sigs \<subseteq> committee_members c"
  by (auto simp: valid_signers_def weight_pos_member)

lemma finite_valid_signers [simp]: "finite (valid_signers cr m c sigs)"
  by (rule finite_subset [of _ "fst ` set sigs"]) (auto simp: valid_signers_def intro: rev_image_eqI)

lemma valid_signers_snoc:
  "valid_signers cr m c (sigs @ [(v, s)]) =
     (if sig_check cr m v s \<and> weight c v > 0 then insert v (valid_signers cr m c sigs)
      else valid_signers cr m c sigs)"
  by (auto simp: valid_signers_def)

lemma is_strictly_ordered_iff: "is_strictly_ordered xs \<longleftrightarrow> sorted_wrt (<) (map fst xs)"
  by (induction xs rule: is_strictly_ordered.induct) (auto dest: order.strict_trans)

lemma sorted_insert_middle:
  "\<forall>p \<in> set a. fst p < v \<Longrightarrow> \<forall>p \<in> set b. v < fst p \<Longrightarrow> sorted_wrt (<) (map fst (a @ b)) \<Longrightarrow>
     sorted_wrt (<) (map fst (a @ (v, s) # b))" for v :: "'k::linorder"
  by (auto simp: sorted_wrt_append)

lemma add_signature_sorted:
  assumes "sorted_wrt (<) (map fst (cert_signatures cert))" "v \<notin> fst ` set (cert_signatures cert)"
  shows "sorted_wrt (<) (map fst (cert_signatures (add_signature cert (v, s))))"
    and "set (cert_signatures (add_signature cert (v, s))) = insert (v, s) (set (cert_signatures cert))"
    and "cert_value (add_signature cert (v, s)) = cert_value cert"
    and "cert_round (add_signature cert (v, s)) = cert_round cert"
proof -
  let ?xs = "cert_signatures cert" and ?P = "\<lambda>p :: ValidatorName \<times> Signature. fst p < v"
  have i: "(case binary_search ?xs v of Inl i \<Rightarrow> i | Inr i \<Rightarrow> i) = length (takeWhile ?P ?xs)"
    by (simp add: binary_search_def Let_def)
  have sigs: "cert_signatures (add_signature cert (v, s)) = takeWhile ?P ?xs @ (v, s) # dropWhile ?P ?xs"
    by (simp add: add_signature_def i Let_def flip: takeWhile_eq_take dropWhile_eq_drop)
  have split: "?xs = takeWhile ?P ?xs @ dropWhile ?P ?xs" by simp
  show "set (cert_signatures (add_signature cert (v, s))) = insert (v, s) (set ?xs)"
    unfolding sigs by (subst (3) split) (simp only: set_append list.set Un_insert_right)
  have "\<forall>p \<in> set (takeWhile ?P ?xs). fst p < v"
    by (auto dest: set_takeWhileD)
  moreover have "\<forall>p \<in> set (dropWhile ?P ?xs). v < fst p"
  proof
    fix p assume p: "p \<in> set (dropWhile ?P ?xs)"
    have sorted: "sorted_wrt (<) (map fst (dropWhile ?P ?xs))"
      using assms(1) split by (metis map_append sorted_wrt_append)
    obtain q qs where q: "dropWhile ?P ?xs = q # qs"
      using p by (cases "dropWhile ?P ?xs") auto
    then have "\<not> fst q < v" "q \<in> set ?xs"
      using hd_dropWhile [of ?P ?xs] set_dropWhileD [of q ?P ?xs] by auto
    then have "v < fst q"
      using assms(2) by (metis image_eqI linorder_neqE)
    then show "v < fst p"
      using p sorted by (auto simp: q)
  qed
  moreover have "sorted_wrt (<) (map fst (takeWhile ?P ?xs @ dropWhile ?P ?xs))"
    using assms(1) by simp
  ultimately show "sorted_wrt (<) (map fst (cert_signatures (add_signature cert (v, s))))"
    unfolding sigs by (rule sorted_insert_middle)
qed (simp_all add: add_signature_def Let_def)

lemma aggregator_append_fresh:
  assumes inv: "aggregator_inv cr hv r c sigs st" and c: "committee_wf c"
    and v: "sig_check cr (hv_hash hv, r) v s" "weight c v > 0" "v \<notin> valid_signers cr (hv_hash hv, r) c sigs"
    and app: "aggregator_append cr st v s = (res, st')"
  shows "aggregator_inv cr hv r c (sigs @ [(v, s)]) st'
    \<and> (is_cert res \<longleftrightarrow> signed_weight cr (hv_hash hv, r) c sigs < unat (quorum_threshold c)
        \<and> unat (quorum_threshold c) \<le> signed_weight cr (hv_hash hv, r) c (sigs @ [(v, s)]))
    \<and> (\<forall>cert. res = Inr (Some cert) \<longrightarrow> cert = ag_partial st')"
proof -
  let ?m = "(hv_hash hv, r)" and ?q = "unat (quorum_threshold c)"
  let ?V = "valid_signers cr ?m c sigs"
  let ?S = "signed_weight cr ?m c sigs"
  let ?p = "add_signature (ag_partial st) (v, s)"
  have fields: "ag_committee st = c" "cert_value (ag_partial st) = hv" "cert_round (ag_partial st) = r"
    and used: "ag_used_validators st \<inter> voting c = ?V"
    and sigs: "sorted_wrt (<) (map fst (cert_signatures (ag_partial st)))"
      "fst ` set (cert_signatures (ag_partial st)) = ?V"
      "list_all (\<lambda>(v, s). sig_check cr ?m v s) (cert_signatures (ag_partial st))"
    and wt: "if ?S < ?q then unat (ag_weight st) = ?S else unat (ag_weight st) + ?q \<le> ?S"
    using inv by (auto simp: aggregator_inv_def)
  have v_voting: "v \<in> voting c"
    using v(2) by (simp add: voting_def)
  then have v_used: "v \<notin> ag_used_validators st"
    using v(3) used by blast
  have V': "valid_signers cr ?m c (sigs @ [(v, s)]) = insert v ?V"
    using v by (simp add: valid_signers_snoc)
  then have S': "signed_weight cr ?m c (sigs @ [(v, s)]) = ?S + unat (weight c v)"
    using v(3) by (simp add: signed_weight_def committee_weight_def)
  have "\<exists>k. unat (ag_weight st) + k = ?S"
    using wt by (metis add.commute le_Suc_ex add_leD1 order.refl add_0_right)
  then have uw: "unat (ag_weight st + weight c v) = unat (ag_weight st) + unat (weight c v)"
    using unat_add_weight [OF c _ v(3) finite_valid_signers, of "ag_weight st"]
      valid_signers_members [of cr ?m c "sigs @ [(v, s)]"] V'
    by (auto simp: signed_weight_def)
  note add = add_signature_sorted [OF sigs(1), of v s]
  have part: "cert_value ?p = hv" "cert_round ?p = r" "sorted_wrt (<) (map fst (cert_signatures ?p))"
    "fst ` set (cert_signatures ?p) = insert v ?V"
    "list_all (\<lambda>(v, s). sig_check cr ?m v s) (cert_signatures ?p)"
    using add v(1,3) sigs(2,3) fields by (auto simp: list_all_iff)
  have "?S + unat (weight c v) < 2 * ?q"
    using total_lt_two_quorums [OF c] sum_weight_le_total [OF c valid_signers_members] S'
    by (metis signed_weight_def le_less_trans)
  note lt = this
  define st1 where "st1 = st\<lparr>ag_used_validators := insert v (ag_used_validators st),
    ag_weight := ag_weight st + weight c v, ag_partial := ?p\<rparr>"
  have st1: "ag_committee st1 = c" "ag_partial st1 = ?p" "ag_used_validators st1 \<inter> voting c = insert v ?V"
    "unat (ag_weight st1) = unat (ag_weight st) + unat (weight c v)"
    using used v_voting by (simp_all add: st1_def fields uw)
  have app': "(res, st') = (if quorum_threshold c \<le> ag_weight st1
      then (Inr (Some ?p), st1\<lparr>ag_weight := 0\<rparr>) else (Inr None, st1))"
    using app v(1,2) v_used by (simp add: aggregator_append_def Let_def fields st1_def cong: if_cong)
  show ?thesis
  proof (cases "quorum_threshold c \<le> ag_weight st1")
    case True
    then have "res = Inr (Some ?p)" "st' = st1\<lparr>ag_weight := 0\<rparr>" "?q \<le> unat (ag_weight st) + unat (weight c v)"
      using app' st1(4) by (simp_all add: word_le_nat_alt)
    then show ?thesis
      using wt lt by (simp add: aggregator_inv_def V' S' part st1 is_cert_def split: if_splits)
  next
    case False
    then have "res = Inr None" "st' = st1" "unat (ag_weight st) + unat (weight c v) < ?q"
      using app' st1(4) by (simp_all add: word_le_nat_alt)
    then show ?thesis
      using wt lt by (simp add: aggregator_inv_def V' S' part st1 is_cert_def split: if_splits)
  qed
qed

lemma aggregator_append_step:
  assumes inv: "aggregator_inv cr hv r c sigs st" and c: "committee_wf c"
    and app: "aggregator_append cr st v s = (res, st')"
  shows "aggregator_inv cr hv r c (sigs @ [(v, s)]) st'
    \<and> (is_cert res \<longleftrightarrow> signed_weight cr (hv_hash hv, r) c sigs < unat (quorum_threshold c)
        \<and> unat (quorum_threshold c) \<le> signed_weight cr (hv_hash hv, r) c (sigs @ [(v, s)]))
    \<and> (\<forall>cert. res = Inr (Some cert) \<longrightarrow> cert = ag_partial st')"
proof (cases "sig_check cr (hv_hash hv, r) v s \<and> weight c v > 0
    \<and> v \<notin> valid_signers cr (hv_hash hv, r) c sigs")
  case True
  then show ?thesis using aggregator_append_fresh [OF inv c _ _ _ app] by blast
next
  case False
  let ?m = "(hv_hash hv, r)"
  have fields: "ag_committee st = c" "cert_value (ag_partial st) = hv" "cert_round (ag_partial st) = r"
    and used: "ag_used_validators st \<inter> voting c = valid_signers cr ?m c sigs"
    using inv by (auto simp: aggregator_inv_def)
  have V': "valid_signers cr ?m c (sigs @ [(v, s)]) = valid_signers cr ?m c sigs"
    using False by (auto simp: valid_signers_snoc)
  then have S': "signed_weight cr ?m c (sigs @ [(v, s)]) = signed_weight cr ?m c sigs"
    by (simp add: signed_weight_def)
  have res: "\<exists>e. res = Inl e" and st': "st' = st
      \<or> weight c v = 0 \<and> st' = st\<lparr>ag_used_validators := insert v (ag_used_validators st)\<rparr>"
    using app False used
    by (auto simp: aggregator_append_def Let_def fields word_gt_0 voting_def split: if_splits)
  from st' have "aggregator_inv cr hv r c (sigs @ [(v, s)]) st'"
    using inv by (elim disjE) (simp_all add: aggregator_inv_def V' S' voting_def)
  with res show ?thesis by (auto simp: is_cert_def S')
qed

lemma aggregator_inv_cert_ok:
  assumes "aggregator_inv cr hv r c sigs st" "committee_wf c"
    and "unat (quorum_threshold c) \<le> signed_weight cr (hv_hash hv, r) c sigs"
    and "\<And>m l. list_all (\<lambda>(v, s). sig_check cr m v s) l \<Longrightarrow> verify_batch cr m l"
  shows "Certificate_check cr (ag_partial st) c = Inr hv"
proof -
  let ?p = "ag_partial st"
  have p: "cert_value ?p = hv" "cert_round ?p = r" "sorted_wrt (<) (map fst (cert_signatures ?p))"
      "fst ` set (cert_signatures ?p) = valid_signers cr (hv_hash hv, r) c sigs"
      "list_all (\<lambda>(v, s). sig_check cr (hv_hash hv, r) v s) (cert_signatures ?p)"
    using assms(1) by (auto simp: aggregator_inv_def)
  have "check_signatures cr (lite_value ?p) r (cert_signatures ?p) c = Inr ()"
    using p assms(2-4)
    by (intro check_signatures_complete)
      (simp_all add: strict_sorted_iff lite_value_def signed_weight_def valid_signers_def)
  then show ?thesis
    by (simp add: Certificate_check_def p)
qed

lemma signed_weight_mono: "signed_weight cr m c sigs \<le> signed_weight cr m c (sigs @ sigs2)"
  unfolding signed_weight_def by (rule sum_mono2) (simp, auto simp: valid_signers_def)

lemma aggregator_run_step:
  assumes "aggregator_inv cr hv r c done st" "committee_wf c"
    and "\<And>m l. list_all (\<lambda>(v, s). sig_check cr m v s) l \<Longrightarrow> verify_batch cr m l"
    and "aggregator_run cr st sigs = (rs, st')"
  shows "length (filter is_cert rs) =
      (if signed_weight cr (hv_hash hv, r) c done < unat (quorum_threshold c)
          \<and> unat (quorum_threshold c) \<le> signed_weight cr (hv_hash hv, r) c (done @ sigs) then 1 else 0)
    \<and> (\<forall>cert. Inr (Some cert) \<in> set rs \<longrightarrow> Certificate_check cr cert c = Inr hv \<and> cert_round cert = r)"
  using assms
proof (induction sigs arbitrary: "done" st rs)
  case (Cons p sigs)
  obtain v s where p: "p = (v, s)" by (cases p)
  obtain res st1 where app: "aggregator_append cr st v s = (res, st1)" by fastforce
  obtain rs1 where run: "aggregator_run cr st1 sigs = (rs1, st')" and rs: "rs = res # rs1"
    using Cons.prems(4) by (auto simp: p app split: prod.splits)
  let ?W = "\<lambda>l. signed_weight cr (hv_hash hv, r) c l" and ?q = "unat (quorum_threshold c)"
  from aggregator_append_step [OF Cons.prems(1,2) app]
  have inv1: "aggregator_inv cr hv r c (done @ [(v, s)]) st1"
    and cert: "is_cert res \<longleftrightarrow> ?W done < ?q \<and> ?q \<le> ?W (done @ [(v, s)])"
    and part: "\<And>cert. res = Inr (Some cert) \<Longrightarrow> cert = ag_partial st1"
    by auto
  have IH: "length (filter is_cert rs1) =
      (if ?W (done @ [(v, s)]) < ?q \<and> ?q \<le> ?W (done @ p # sigs) then 1 else 0)"
    "\<forall>cert. Inr (Some cert) \<in> set rs1 \<longrightarrow> Certificate_check cr cert c = Inr hv \<and> cert_round cert = r"
    using Cons.IH [OF inv1 Cons.prems(2,3) run] by (simp_all add: p)
  have "Certificate_check cr cert c = Inr hv \<and> cert_round cert = r" if "res = Inr (Some cert)" for cert
    using aggregator_inv_cert_ok [OF inv1 Cons.prems(2) _ Cons.prems(3)] cert part that inv1
    by (auto simp: is_cert_def aggregator_inv_def)
  moreover have "?W done \<le> ?W (done @ [(v, s)])" "?W (done @ [(v, s)]) \<le> ?W (done @ p # sigs)"
    using signed_weight_mono [of cr _ c "done @ [(v, s)]" sigs] by (simp_all add: signed_weight_mono p)
  ultimately show ?case
    using IH cert by (auto simp: rs)
qed auto

text \<open>C24. The signature aggregator is sound and complete. Feeding it any sequence of (validator,
  signature) pairs, in any order and with invalid or repeated signatures, yields a certificate
  exactly once if the validators with a valid signature have a quorum, and never otherwise; an
  emitted certificate always passes \<open>check\<close>. (Batch verification is assumed to accept individually
  valid signatures.)\<close>

theorem aggregator_sound_complete:
  assumes "committee_wf c"
    and "\<And>m l. list_all (\<lambda>(v, s). sig_check cr m v s) l \<Longrightarrow> verify_batch cr m l"
    and "aggregator_run cr (aggregator_new hv r c) sigs = (rs, st)"
  shows "length (filter is_cert rs) =
      (if unat (quorum_threshold c) \<le> signed_weight cr (hv_hash hv, r) c sigs then 1 else 0)
    \<and> (\<forall>cert. Inr (Some cert) \<in> set rs \<longrightarrow> Certificate_check cr cert c = Inr hv \<and> cert_round cert = r)"
proof -
  have q: "0 < unat (quorum_threshold c)"
    using committee_wf_thresholds(1) [OF assms(1)] by simp
  have "aggregator_inv cr hv r c [] (aggregator_new hv r c)"
    using q by (simp add: aggregator_inv_def aggregator_new_def valid_signers_def signed_weight_def)
  from aggregator_run_step [OF this assms] q show ?thesis
    by (simp add: signed_weight_def valid_signers_def)
qed

theorem aggregator_sound_complete_witness:
  "\<exists>cert. fst (aggregator_run plain_crypto
      (aggregator_new (new_confirmed plain_crypto sample_block) Fast four_validators)
      [(1, 2), (1, 2), (7, 8), (3, 4), (2, 0), (2, 3), (4, 5)])
    = [Inr None, Inl CertificateValidatorReuse, Inl InvalidSigner, Inr None, Inl Chain_CryptoError,
       Inr (Some cert), Inr None]
    \<and> Certificate_check plain_crypto cert four_validators = Inr (new_confirmed plain_crypto sample_block)"
proof -
  let ?run = "aggregator_run plain_crypto
      (aggregator_new (new_confirmed plain_crypto sample_block) Fast four_validators)
      [(1, 2), (1, 2), (7, 8), (3, 4), (2, 0), (2, 3), (4, 5)]"
  have batch: "verify_batch plain_crypto m l"
    if "list_all (\<lambda>(v, s). sig_check plain_crypto m v s) l" for m l
    using that by (simp add: plain_crypto_def case_prod_beta)
  have "\<exists>cert. fst ?run = [Inr None, Inl CertificateValidatorReuse, Inl InvalidSigner, Inr None,
      Inl Chain_CryptoError, Inr (Some cert), Inr None]"
    by (simp add: aggregator_append_def aggregator_new_def plain_crypto_def new_confirmed_def with_hash_def
        sample_block_def weight_def four_validators_simps add_signature_def binary_search_def
        word_le_nat_alt word_less_nat_alt unat_div_distrib)
  then obtain cert where cert: "fst ?run = [Inr None, Inl CertificateValidatorReuse, Inl InvalidSigner,
      Inr None, Inl Chain_CryptoError, Inr (Some cert), Inr None]"
    by blast
  have "Inr (Some cert) \<in> set (fst ?run)"
    unfolding cert by simp
  then have "Certificate_check plain_crypto cert four_validators = Inr (new_confirmed plain_crypto sample_block)"
    using aggregator_sound_complete [OF four_validators_wf batch surjective_pairing] by blast
  with cert show ?thesis by blast
qed

section \<open>Message bundles\<close>

lemma zip_indices_enumerate:
  "zip (map (\<lambda>k. (of_nat n :: u32) + of_nat k) [0..<length xs]) xs
    = map (\<lambda>(k, m). (of_nat k, m)) (List.enumerate n xs)"
  by (rule nth_equalityI) (auto simp: nth_enumerate_eq)

lemma bundles_loop_messages:
  "concat (map (\<lambda>p. mb_messages (snd p)) (bundles_loop hash b medium rcp t (of_nat n) ms))
    = map (\<lambda>(k, m). into_posted m (of_nat k))
        (filter (\<lambda>(_, m). has_destination m medium rcp) (List.enumerate n (concat ms)))"
proof (induction ms arbitrary: t n)
  case (Cons m ms)
  have "of_nat n + of_nat (length m) = (of_nat (n + length m) :: u32)" by simp
  moreover have "map (\<lambda>(idx, message). into_posted message idx)
        (filter (\<lambda>(_, message). has_destination message medium rcp)
          (zip (map (\<lambda>k. (of_nat n :: u32) + of_nat k) [0..<length m]) m))
      = map (\<lambda>(k, m). into_posted m (of_nat k))
          (filter (\<lambda>(_, m). has_destination m medium rcp) (List.enumerate n m))"
    unfolding zip_indices_enumerate by (simp add: filter_map comp_def split_def)
  ultimately show ?case
    using Cons [of "t + 1" "n + length m"]
    by (simp add: Let_def enumerate_append_eq del: of_nat_add)
qed simp

lemma bundles_loop_header:
  "p \<in> set (bundles_loop hash b medium rcp t i ms) \<Longrightarrow>
     mb_messages (snd p) \<noteq> [] \<and> fst p = epoch b \<and> mb_height (snd p) = height b
     \<and> mb_timestamp (snd p) = timestamp b \<and> mb_certificate_hash (snd p) = hash"
  by (induction hash b medium rcp t i ms rule: bundles_loop.induct) (auto simp: Let_def split: if_splits)

text \<open>C29. The bundles cut from a block certificate for a recipient and medium contain exactly the
  block's messages with that destination, in order, each under its global message index (the index
  that \<open>message_by_id\<close> uses); no bundle is empty and all carry the block's height, timestamp and the
  certificate's hash.\<close>

theorem message_bundles_for_exact:
  assumes "executed_block (hv_value (cert_value cert)) = Some eb"
  shows "concat (map (\<lambda>p. mb_messages (snd p)) (message_bundles_for cert medium rcp))
      = map (\<lambda>(k, m). into_posted m (of_nat k))
          (filter (\<lambda>(_, m). has_destination m medium rcp) (List.enumerate 0 (concat (messages (outcome eb)))))
    \<and> (\<forall>p \<in> set (message_bundles_for cert medium rcp). mb_messages (snd p) \<noteq> []
        \<and> fst p = epoch (block eb) \<and> mb_height (snd p) = height (block eb)
        \<and> mb_timestamp (snd p) = timestamp (block eb)
        \<and> mb_certificate_hash (snd p) = hv_hash (cert_value cert))"
  using bundles_loop_messages [where n=0] bundles_loop_header
  by (auto simp: message_bundles_for_def assms)

theorem message_bundles_for_exact_witness:
  "concat (map (\<lambda>p. mb_messages (snd p)) (message_bundles_for sample_certificate Direct 7))
     = [into_posted sample_message 0, into_posted (sample_message\<lparr>om_grant := 9\<rparr>) 1]"
proof -
  have "executed_block (hv_value (cert_value sample_certificate)) = Some sample_block"
    by (simp add: sample_certificate_def new_confirmed_def with_hash_def executed_block_def)
  from message_bundles_for_exact [OF this, of Direct 7] show ?thesis
    by (simp add: sample_block_def sample_message_def has_destination_def)
qed

section \<open>A message the certificate does not admit to have\<close>


end
