(* ===== verification/Manager.thy ===== *)
theory Manager
  imports Certificate_Props
begin

text \<open>
  The chain manager (\<^verbatim>\<open>linera-chain/src/manager.rs\<close>): the state a validator keeps to certify the
  next block of a chain. Leader election draws from \<^verbatim>\<open>WeightedAliasIndex\<close> with a \<^verbatim>\<open>ChaCha8Rng\<close>; both
  come from external crates and are the parameter \<open>Sampler\<close>: \<open>alias_ok\<close> tells whether a list of
  weights is accepted, \<open>alias_sample\<close> draws an index from a list of weights with a seeded generator.
  A distribution is represented by the weights it was built from.
\<close>

datatype Outcome = Outcome_Accept | Outcome_Skip

record Sampler =
  alias_ok :: "u64 list \<Rightarrow> bool"
  alias_sample :: "u64 list \<Rightarrow> u64 \<Rightarrow> nat"

record ChainManager =
  m_ownership :: ChainOwnership
  m_seed :: u64
  m_distribution :: "u64 list option"
  m_fallback_distribution :: "u64 list option"
  m_proposed :: "BlockProposal option"
  m_locked :: "Certificate option"
  m_timeout :: "Certificate option"
  m_pending :: "Vote option"
  m_timeout_vote :: "Vote option"
  m_fallback_vote :: "Vote option"
  m_round_timeout :: "Timestamp option"
  m_current_round :: Round
  m_fallback_owners :: "(Owner, PublicKey \<times> u64) btree"
  m_pending_blobs :: "BlobId \<rightharpoonup> Blob"

definition alias_new :: "Sampler \<Rightarrow> u64 list \<Rightarrow> ChainError + u64 list" where
  "alias_new sm weights = (if alias_ok sm weights then Inr weights else Inl OwnerWeightError)"

definition ChainManager_new ::
  "Crypto \<Rightarrow> Sampler \<Rightarrow> ChainOwnership \<Rightarrow> u64 \<Rightarrow> Timestamp \<Rightarrow> (PublicKey \<times> u64) list
    \<Rightarrow> ChainError + ChainManager" where
  "ChainManager_new cr sm ownership seed local_time fallback_owners =
     bind_r (if owners ownership \<noteq> [] then
               bind_r (alias_new sm (map (\<lambda>(_, _, w). w) (owners ownership))) (\<lambda>d. Inr (Some d))
             else Inr None) (\<lambda>distribution.
     let fallback_owners = bt_from_list (map (\<lambda>(pk, w). (owner_from cr pk, (pk, w))) fallback_owners) [] in
     bind_r (if fallback_owners \<noteq> [] then
               bind_r (alias_new sm (map (\<lambda>(_, _, w). w) fallback_owners)) (\<lambda>d. Inr (Some d))
             else Inr None) (\<lambda>fallback_distribution.
     let current_round = first_round ownership;
         round_duration = round_timeout ownership current_round;
         timeout_at = map_option (Timestamp_saturating_add local_time) round_duration in
     Inr \<lparr>m_ownership = ownership, m_seed = seed, m_distribution = distribution,
          m_fallback_distribution = fallback_distribution, m_proposed = None, m_locked = None,
          m_timeout = None, m_pending = None, m_timeout_vote = None, m_fallback_vote = None,
          m_round_timeout = timeout_at, m_current_round = current_round,
          m_fallback_owners = fallback_owners, m_pending_blobs = Map.empty\<rparr>))"

definition manager_reset ::
  "Crypto \<Rightarrow> Sampler \<Rightarrow> ChainManager \<Rightarrow> ChainOwnership \<Rightarrow> BlockHeight \<Rightarrow> Timestamp \<Rightarrow> (PublicKey \<times> u64) list
    \<Rightarrow> ChainError + ChainManager" where
  "manager_reset cr sm self ownership h local_time fallback_owners =
     ChainManager_new cr sm ownership h local_time fallback_owners"

definition is_super :: "ChainManager \<Rightarrow> Owner \<Rightarrow> bool" where
  "is_super self owner = bt_contains (super_owners (m_ownership self)) owner"

definition expected_round :: "ChainManager \<Rightarrow> BlockProposal \<Rightarrow> ChainError + Round" where
  "expected_round self proposal =
     (case validated_block_certificate proposal of
        None \<Rightarrow> Inr (m_current_round self)
      | Some cert \<Rightarrow>
          bind_r (ok_or (next_round (m_ownership self) (lc_round cert)) (Chain_ArithmeticError Overflow))
            (\<lambda>r. Inr (max r (m_current_round self))))"

definition check_proposed_block :: "ChainManager \<Rightarrow> BlockProposal \<Rightarrow> ChainError + Outcome" where
  "check_proposed_block self proposal =
     (let new_round = pc_round (content proposal);
          new_block = pc_block (content proposal);
          owner = prop_owner proposal in
      bind_r (ensure (height new_block < num_max) InvalidBlockHeight) (\<lambda>_.
      bind_r (expected_round self proposal) (\<lambda>expected.
      bind_r (if is_super self owner \<or> (new_round \<le> SingleLeader 0 \<and> \<not> is_fast expected)
              then ensure (expected \<le> new_round) (InsufficientRound expected)
              else ensure (expected = new_round) (WrongRound expected)) (\<lambda>_.
      let check_locked =
        (case m_locked self of None \<Rightarrow> Inr Outcome_Accept
         | Some lck \<Rightarrow>
             bind_r (ensure (case validated_block_certificate proposal of None \<Rightarrow> False
                             | Some cert \<Rightarrow> cert_round lck \<le> lc_round cert)
                       (HasLockedBlock (value_height (hv_value (cert_value lck))) (cert_round lck)))
               (\<lambda>_. Inr Outcome_Accept)) in
      case m_proposed self of
        None \<Rightarrow> check_locked
      | Some old_proposal \<Rightarrow>
          if content old_proposal = content proposal then Inr Outcome_Skip
          else
          bind_r (ensure (new_round > pc_round (content old_proposal))
                    (InsufficientRoundStrict (pc_round (content old_proposal)))) (\<lambda>_.
          bind_r (if is_fast (pc_round (content old_proposal)) \<and> validated_block_certificate proposal = None
                  then ensure (pc_block (content old_proposal) = new_block)
                         (HasLockedBlock (height new_block) Fast)
                  else Inr ()) (\<lambda>_.
          check_locked))))))"

definition vote_timeout ::
  "Crypto \<Rightarrow> ChainManager \<Rightarrow> ChainId \<Rightarrow> BlockHeight \<Rightarrow> Epoch \<Rightarrow> KeyPair option \<Rightarrow> Timestamp
    \<Rightarrow> bool \<times> ChainManager" where
  "vote_timeout cr self cid h e key_pair local_time =
     (case key_pair of None \<Rightarrow> (False, self)
      | Some key_pair \<Rightarrow>
        (case m_round_timeout self of None \<Rightarrow> (False, self)
         | Some timeout_at \<Rightarrow>
           if local_time < timeout_at \<or> owners (m_ownership self) = [] then (False, self)
           else
           let current_round = m_current_round self in
           if (case m_timeout_vote self of Some vote \<Rightarrow> vote_round vote = current_round | None \<Rightarrow> False)
           then (False, self)
           else (True, self\<lparr>m_timeout_vote :=
                   Some (Vote_new cr (new_timeout cr cid h e) current_round key_pair)\<rparr>)))"

definition vote_fallback ::
  "Crypto \<Rightarrow> ChainManager \<Rightarrow> ChainId \<Rightarrow> BlockHeight \<Rightarrow> Epoch \<Rightarrow> KeyPair option \<Rightarrow> bool \<times> ChainManager" where
  "vote_fallback cr self cid h e key_pair =
     (case key_pair of None \<Rightarrow> (False, self)
      | Some key_pair \<Rightarrow>
        if m_fallback_vote self \<noteq> None \<or> m_current_round self \<ge> Validator 0 then (False, self)
        else
        let last_regular_round = SingleLeader num_max in
        (True, self\<lparr>m_fallback_vote :=
           Some (Vote_new cr (new_timeout cr cid h e) last_regular_round key_pair)\<rparr>))"

definition check_validated_block :: "ChainManager \<Rightarrow> Certificate \<Rightarrow> ChainError + Outcome" where
  "check_validated_block self certificate =
     (let new_block = value_block (hv_value (cert_value certificate));
          new_round = cert_round certificate;
          check_locked =
            (case m_locked self of None \<Rightarrow> Inr Outcome_Accept
             | Some lck \<Rightarrow>
                 if hv_hash (cert_value lck) = hv_hash (cert_value certificate)
                    \<and> cert_round lck = cert_round certificate then Inr Outcome_Skip
                 else bind_r (ensure (new_round > cert_round lck) (InsufficientRoundStrict (cert_round lck)))
                        (\<lambda>_. Inr Outcome_Accept)) in
      case m_pending self of
        None \<Rightarrow> check_locked
      | Some vote \<Rightarrow>
          (case hv_value (vote_value vote) of
             ConfirmedBlock eb \<Rightarrow>
               if Some (block eb) = new_block \<and> vote_round vote = new_round then Inr Outcome_Skip
               else check_locked
           | ValidatedBlock _ \<Rightarrow>
               bind_r (ensure (new_round \<ge> vote_round vote) (InsufficientRound (vote_round vote)))
                 (\<lambda>_. check_locked)
           | Timeout _ _ _ \<Rightarrow> Inl (InternalError ''pending can only be validated or confirmed block'')))"

definition round_candidates :: "ChainManager \<Rightarrow> Round list" where
  "round_candidates self =
     (case m_timeout self of None \<Rightarrow> []
      | Some certificate \<Rightarrow>
          [case next_round (m_ownership self) (cert_round certificate) of
             Some r \<Rightarrow> r | None \<Rightarrow> Validator num_max])
     @ (case m_locked self of None \<Rightarrow> [] | Some certificate \<Rightarrow> [cert_round certificate])
     @ (case m_proposed self of None \<Rightarrow> [] | Some proposal \<Rightarrow> [pc_round (content proposal)])"

definition update_current_round :: "ChainManager \<Rightarrow> Timestamp \<Rightarrow> ChainManager" where
  "update_current_round self local_time =
     (let current_round = max (case round_candidates self of [] \<Rightarrow> Fast | r # rs \<Rightarrow> fold max rs r)
                            (first_round (m_ownership self)) in
      if current_round \<le> m_current_round self then self
      else
      let round_duration = round_timeout (m_ownership self) current_round in
      self\<lparr>m_round_timeout := map_option (Timestamp_saturating_add local_time) round_duration,
           m_current_round := current_round\<rparr>)"

definition create_vote ::
  "Crypto \<Rightarrow> ChainManager \<Rightarrow> BlockProposal \<Rightarrow> BlockExecutionOutcome \<Rightarrow> KeyPair option \<Rightarrow> Timestamp
    \<Rightarrow> ChainManager" where
  "create_vote cr self proposal exec_outcome key_pair local_time =
     (let self = self\<lparr>m_proposed := Some proposal\<rparr>;
          self = update_current_round self local_time;
          round = pc_round (content proposal);
          eb = outcome_with exec_outcome (pc_block (content proposal));
          self = (case validated_block_certificate proposal of None \<Rightarrow> self
                  | Some lite_cert \<Rightarrow>
                    if (case m_locked self of None \<Rightarrow> True | Some lck \<Rightarrow> cert_round lck < lc_round lite_cert)
                    then (case LiteCertificate_with_value lite_cert (new_validated cr eb) of
                            Some certificate \<Rightarrow> self\<lparr>m_locked := Some certificate\<rparr>
                          | None \<Rightarrow> self)
                    else self);
          self = self\<lparr>m_pending_blobs :=
                   foldl (\<lambda>m blob. m(b_id blob \<mapsto> blob)) (m_pending_blobs self) (prop_blobs proposal)\<rparr>
      in case key_pair of None \<Rightarrow> self
         | Some key_pair \<Rightarrow>
           let value' = (if is_fast round then new_confirmed cr eb else new_validated cr eb)
           in self\<lparr>m_pending := Some (Vote_new cr value' round key_pair)\<rparr>)"

definition create_final_vote ::
  "Crypto \<Rightarrow> ChainManager \<Rightarrow> Certificate \<Rightarrow> KeyPair option \<Rightarrow> Timestamp \<Rightarrow> ChainManager" where
  "create_final_vote cr self certificate key_pair local_time =
     (let round = cert_round certificate in
      if key_pair \<noteq> None \<and> round < m_current_round self then self
      else
      case validated_to_confirmed cr (cert_value certificate) of
        None \<Rightarrow> self
      | Some value' \<Rightarrow>
          let self = self\<lparr>m_locked := Some certificate\<rparr>;
              self = update_current_round self local_time in
          (case key_pair of None \<Rightarrow> self
           | Some key_pair \<Rightarrow> self\<lparr>m_pending := Some (Vote_new cr value' round key_pair)\<rparr>))"

definition handle_timeout_certificate :: "ChainManager \<Rightarrow> Certificate \<Rightarrow> Timestamp \<Rightarrow> ChainManager" where
  "handle_timeout_certificate self certificate local_time =
     (if \<not> is_timeout (hv_value (cert_value certificate)) then self
      else
      let round = cert_round certificate in
      if (case m_timeout self of Some known \<Rightarrow> cert_round known \<ge> round | None \<Rightarrow> False) then self
      else update_current_round (self\<lparr>m_timeout := Some certificate\<rparr>) local_time)"

definition round_seed :: "ChainManager \<Rightarrow> u32 \<Rightarrow> u64" where
  "round_seed self round = word_rotl 32 (ucast round) + m_seed self"

definition round_leader_index :: "Sampler \<Rightarrow> ChainManager \<Rightarrow> u32 \<Rightarrow> nat option" where
  "round_leader_index sm self round =
     map_option (\<lambda>d. alias_sample sm d (round_seed self round)) (m_distribution self)"

definition fallback_round_leader_index :: "Sampler \<Rightarrow> ChainManager \<Rightarrow> u32 \<Rightarrow> nat option" where
  "fallback_round_leader_index sm self round =
     map_option (\<lambda>d. alias_sample sm d (round_seed self round)) (m_fallback_distribution self)"

definition verify_owner :: "Sampler \<Rightarrow> ChainManager \<Rightarrow> BlockProposal \<Rightarrow> PublicKey option" where
  "verify_owner sm self proposal =
     (case bt_get (super_owners (m_ownership self)) (prop_owner proposal) of
        Some public_key \<Rightarrow> Some public_key
      | None \<Rightarrow>
        (case pc_round (content proposal) of
           Fast \<Rightarrow> None
         | MultiLeader _ \<Rightarrow> map_option fst (bt_get (owners (m_ownership self)) (prop_owner proposal))
         | SingleLeader r \<Rightarrow>
             Option.bind (round_leader_index sm self r) (\<lambda>index.
             Option.bind (nth_opt (owners (m_ownership self)) index) (\<lambda>(leader, public_key, _).
             if leader = prop_owner proposal then Some public_key else None))
         | Validator r \<Rightarrow>
             Option.bind (fallback_round_leader_index sm self r) (\<lambda>index.
             Option.bind (nth_opt (m_fallback_owners self) index) (\<lambda>(leader, public_key, _).
             if leader = prop_owner proposal then Some public_key else None))))"

definition round_leader :: "Sampler \<Rightarrow> ChainManager \<Rightarrow> Round \<Rightarrow> Owner option" where
  "round_leader sm self round =
     (case round of
        SingleLeader r \<Rightarrow>
          Option.bind (round_leader_index sm self r) (\<lambda>index. nth_opt (map fst (owners (m_ownership self))) index)
      | Validator r \<Rightarrow>
          Option.bind (fallback_round_leader_index sm self r) (\<lambda>index. nth_opt (map fst (m_fallback_owners self)) index)
      | Fast \<Rightarrow> None
      | MultiLeader _ \<Rightarrow> None)"

section \<open>The information a manager reveals\<close>

record ChainManagerInfo =
  i_ownership :: ChainOwnership
  i_requested_proposed :: "BlockProposal option"
  i_requested_locked :: "Certificate option"
  i_timeout :: "Certificate option"
  i_pending :: "LiteVote option"
  i_timeout_vote :: "LiteVote option"
  i_fallback_vote :: "LiteVote option"
  i_requested_pending_value :: "HashedCertificateValue option"
  i_current_round :: Round
  i_leader :: "Owner option"
  i_round_timeout :: "Timestamp option"
  i_pending_blobs :: "BlobId \<rightharpoonup> Blob"

definition ChainManagerInfo_from :: "Sampler \<Rightarrow> ChainManager \<Rightarrow> ChainManagerInfo" where
  "ChainManagerInfo_from sm manager =
     (let current_round = m_current_round manager in
      \<lparr>i_ownership = m_ownership manager, i_requested_proposed = None, i_requested_locked = None,
       i_timeout = m_timeout manager, i_pending = map_option Vote_lite (m_pending manager),
       i_timeout_vote = map_option Vote_lite (m_timeout_vote manager),
       i_fallback_vote = map_option Vote_lite (m_fallback_vote manager),
       i_requested_pending_value = None, i_current_round = current_round,
       i_leader = round_leader sm manager current_round, i_round_timeout = m_round_timeout manager,
       i_pending_blobs = Map.empty\<rparr>)"

definition add_values :: "ChainManagerInfo \<Rightarrow> ChainManager \<Rightarrow> ChainManagerInfo" where
  "add_values self manager = self\<lparr>i_requested_proposed := m_proposed manager,
     i_requested_locked := m_locked manager,
     i_requested_pending_value := map_option vote_value (m_pending manager),
     i_pending_blobs := m_pending_blobs manager\<rparr>"

definition highest_validated_block :: "ChainManagerInfo \<Rightarrow> Block option" where
  "highest_validated_block self =
     (let from_proposed =
        (case i_requested_proposed self of None \<Rightarrow> None
         | Some proposal \<Rightarrow>
             if is_fast (pc_round (content proposal)) then Some (pc_block (content proposal)) else None) in
      case i_requested_locked self of
        Some certificate \<Rightarrow>
          (case value_block (hv_value (cert_value certificate)) of Some b \<Rightarrow> Some b | None \<Rightarrow> from_proposed)
      | None \<Rightarrow> from_proposed)"

section \<open>What the operations guarantee\<close>

named_theorems manager_simps \<open>effect of the manager's operations on its fields\<close>

lemma expected_round_Inr:
  assumes "expected_round m p = Inr e"
  shows "m_current_round m \<le> e"
    and "validated_block_certificate p = Some cert \<Longrightarrow> lc_round cert < e"
  using assms next_round_increases [of "m_ownership m"]
  by (auto simp: expected_round_def result_simps less_max_iff_disj split: option.splits)

lemma check_proposed_block_Accept:
  assumes "check_proposed_block m p = Inr Outcome_Accept"
  shows "m_current_round m \<le> pc_round (content p)"
    and "\<And>old. m_proposed m = Some old \<Longrightarrow> pc_round (content old) < pc_round (content p)"
    and "\<And>lck. m_locked m = Some lck \<Longrightarrow>
           \<exists>cert. validated_block_certificate p = Some cert \<and> cert_round lck \<le> lc_round cert"
    and "\<And>cert. validated_block_certificate p = Some cert \<Longrightarrow> lc_round cert < pc_round (content p)"
    and "height (pc_block (content p)) < num_max"
proof -
  obtain e where e: "expected_round m p = Inr e" "e \<le> pc_round (content p)"
    using assms by (auto simp: check_proposed_block_def Let_def result_simps split: if_splits)
  note exp = expected_round_Inr [OF e(1)]
  show "m_current_round m \<le> pc_round (content p)"
    using exp(1) e(2) by simp
  show "lc_round cert < pc_round (content p)" if "validated_block_certificate p = Some cert" for cert
    using exp(2) [OF that] e(2) by simp
  show "\<exists>cert. validated_block_certificate p = Some cert \<and> cert_round lck \<le> lc_round cert"
    if "m_locked m = Some lck" for lck
    using assms that by (auto simp: check_proposed_block_def Let_def result_simps split: option.splits if_splits)
  show "pc_round (content old) < pc_round (content p)" if "m_proposed m = Some old" for old
    using assms that by (auto simp: check_proposed_block_def Let_def result_simps split: option.splits if_splits)
  show "height (pc_block (content p)) < num_max"
    using assms by (auto simp: check_proposed_block_def Let_def result_simps)
qed

lemma check_validated_block_Accept:
  assumes "check_validated_block m cert = Inr Outcome_Accept"
  shows "\<And>lck. m_locked m = Some lck \<Longrightarrow> cert_round lck < cert_round cert"
  using assms
  by (auto simp: check_validated_block_def Let_def result_simps
      split: option.splits if_splits CertificateValue.splits)

text \<open>\<open>update_current_round\<close> only touches the round and its timeout.\<close>

lemma update_current_round_fields [simp, manager_simps]:
  "m_ownership (update_current_round m t) = m_ownership m"
  "m_proposed (update_current_round m t) = m_proposed m"
  "m_locked (update_current_round m t) = m_locked m"
  "m_timeout (update_current_round m t) = m_timeout m"
  "m_pending (update_current_round m t) = m_pending m"
  "m_timeout_vote (update_current_round m t) = m_timeout_vote m"
  "m_fallback_vote (update_current_round m t) = m_fallback_vote m"
  "m_pending_blobs (update_current_round m t) = m_pending_blobs m"
  by (simp_all add: update_current_round_def Let_def)

lemma max_candidates:
  "max (case rs of [] \<Rightarrow> Fast | r # rs \<Rightarrow> fold max rs r) f = Max (insert f (set rs))" for f :: Round
proof (cases rs)
  case (Cons r rs')
  then show ?thesis
    by (simp add: Max.set_eq_fold [symmetric] insert_commute max.commute)
qed (cases f; simp add: max_def)

lemma update_current_round_round:
  "m_current_round (update_current_round m t) =
     Max (insert (m_current_round m) (insert (first_round (m_ownership m)) (set (round_candidates m))))"
proof -
  define M where "M = Max (insert (first_round (m_ownership m)) (set (round_candidates m)))"
  have "m_current_round (update_current_round m t) = (if M \<le> m_current_round m then m_current_round m else M)"
    by (simp only: update_current_round_def max_candidates Let_def M_def [symmetric]) simp
  moreover have "Max (insert (m_current_round m) (insert (first_round (m_ownership m)) (set (round_candidates m))))
      = max (m_current_round m) M"
    unfolding M_def by (rule Max_insert) auto
  ultimately show ?thesis by (auto simp: max_def)
qed

lemma update_current_round_ge:
  "m_current_round m \<le> m_current_round (update_current_round m t)"
  "first_round (m_ownership m) \<le> m_current_round (update_current_round m t)"
  "r \<in> set (round_candidates m) \<Longrightarrow> r \<le> m_current_round (update_current_round m t)"
  unfolding update_current_round_round by (simp_all del: Max_insert)

end
