(* ===== verification/Consensus.thy ===== *)
theory Consensus
  imports Manager
begin

text \<open>
  Agreement. A system of validators runs the chain manager for one chain and one height. Honest
  validators take the steps of the chain worker
  (\<^verbatim>\<open>linera-core/src/chain_worker/state/\<close>): they vote on proposals, on validated blocks and for
  timeouts. Everything else is adversarial: proposals, certificates and the votes of the other
  validators are arbitrary, except that a certificate that passes the signature check contains the
  signature of an honest validator only if that validator cast the vote (signatures cannot be
  forged). The log of votes is a history variable.
\<close>

record System =
  managers :: "ValidatorName \<Rightarrow> ChainManager"
  vote_log :: "ValidatorName \<Rightarrow> Vote set"

text \<open>The votes a manager hands out, in the responses made from \<open>ChainManagerInfo\<close>.\<close>

definition votes_of :: "ChainManager \<Rightarrow> Vote set" where
  "votes_of m = set_option (m_pending m) \<union> set_option (m_timeout_vote m) \<union> set_option (m_fallback_vote m)"

definition publish :: "ValidatorName \<Rightarrow> ChainManager \<Rightarrow> System \<Rightarrow> System" where
  "publish v m S = S\<lparr>managers := (managers S)(v := m),
     vote_log := (vote_log S)(v := vote_log S v \<union> votes_of m)\<rparr>"

definition unforged :: "ValidatorName set \<Rightarrow> System \<Rightarrow> CryptoHash \<Rightarrow> Round \<Rightarrow> Signatures \<Rightarrow> bool" where
  "unforged honest S hash r sigs \<longleftrightarrow>
     (\<forall>v \<in> fst ` set sigs \<inter> honest. \<exists>x \<in> vote_log S v. hv_hash (vote_value x) = hash \<and> vote_round x = r)"

definition well_hashed :: "Crypto \<Rightarrow> HashedCertificateValue \<Rightarrow> bool" where
  "well_hashed cr hv \<longleftrightarrow> hv_hash hv = hash_value cr (hv_value hv)"

text \<open>A certificate that passes the check, is not forged, and whose hash is that of its value (a
  received certificate is always rehashed).\<close>

definition valid_cert :: "Crypto \<Rightarrow> Committee \<Rightarrow> ValidatorName set \<Rightarrow> System \<Rightarrow> Certificate \<Rightarrow> bool" where
  "valid_cert cr c honest S cert \<longleftrightarrow>
     Certificate_check cr cert c = Inr (cert_value cert)
     \<and> well_hashed cr (cert_value cert)
     \<and> unforged honest S (hv_hash (cert_value cert)) (cert_round cert) (cert_signatures cert)"

definition valid_lite :: "Crypto \<Rightarrow> Committee \<Rightarrow> ValidatorName set \<Rightarrow> System \<Rightarrow> LiteCertificate \<Rightarrow> bool" where
  "valid_lite cr c honest S lc \<longleftrightarrow>
     LiteCertificate_check cr lc c = Inr (lc_value lc)
     \<and> unforged honest S (lv_value_hash (lc_value lc)) (lc_round lc) (lc_signatures lc)"

inductive system_step ::
  "Crypto \<Rightarrow> Committee \<Rightarrow> ValidatorName set \<Rightarrow> (ValidatorName \<Rightarrow> KeyPair) \<Rightarrow> System \<Rightarrow> System \<Rightarrow> bool"
  for cr c honest key where
  vote_proposal:
    "v \<in> honest \<Longrightarrow>
     check_proposed_block (managers S v) p = Inr Outcome_Accept \<Longrightarrow>
     (\<And>lc. validated_block_certificate p = Some lc \<Longrightarrow>
        valid_lite cr c honest S lc
        \<and> LiteCertificate_with_value lc
            (new_validated cr (outcome_with out (pc_block (content p)))) \<noteq> None) \<Longrightarrow>
     system_step cr c honest key S
       (publish v (create_vote cr (managers S v) p out (Some (key v)) t) S)"
| vote_validated:
    "v \<in> honest \<Longrightarrow>
     valid_cert cr c honest S cert \<Longrightarrow>
     is_validated (hv_value (cert_value cert)) \<Longrightarrow>
     check_validated_block (managers S v) cert = Inr Outcome_Accept \<Longrightarrow>
     system_step cr c honest key S
       (publish v (create_final_vote cr (managers S v) cert (Some (key v)) t) S)"
| timeout_certificate:
    "v \<in> honest \<Longrightarrow>
     valid_cert cr c honest S cert \<Longrightarrow>
     system_step cr c honest key S
       (publish v (handle_timeout_certificate (managers S v) cert t) S)"
| leader_timeout:
    "v \<in> honest \<Longrightarrow>
     system_step cr c honest key S
       (publish v (snd (vote_timeout cr (managers S v) cid h e (Some (key v)) t)) S)"
| fallback:
    "v \<in> honest \<Longrightarrow>
     system_step cr c honest key S
       (publish v (snd (vote_fallback cr (managers S v) cid h e (Some (key v)))) S)"

definition fresh_manager :: "ChainOwnership \<Rightarrow> ChainManager \<Rightarrow> bool" where
  "fresh_manager own m \<longleftrightarrow> m_ownership m = own \<and> m_proposed m = None \<and> m_locked m = None
     \<and> votes_of m = {} \<and> m_current_round m = first_round own"

inductive reachable ::
  "Crypto \<Rightarrow> Committee \<Rightarrow> ValidatorName set \<Rightarrow> (ValidatorName \<Rightarrow> KeyPair) \<Rightarrow> ChainOwnership \<Rightarrow> System \<Rightarrow> bool"
  for cr c honest key own where
  start: "(\<And>v. v \<in> honest \<Longrightarrow> fresh_manager own (managers S v) \<and> vote_log S v = {}) \<Longrightarrow>
    reachable cr c honest key own S"
| step: "reachable cr c honest key own S \<Longrightarrow> system_step cr c honest key S S' \<Longrightarrow>
    reachable cr c honest key own S'"

section \<open>Effect of the handlers\<close>

lemma ChainManager_new_fresh:
  "ChainManager_new cr sm own seed t fb = Inr m \<Longrightarrow> fresh_manager own m"
  by (auto simp: ChainManager_new_def Let_def result_simps fresh_manager_def votes_of_def split: if_splits)

lemma create_vote_fields:
  fixes cr m p out k t
  defines "m' \<equiv> create_vote cr m p out (Some k) t"
  shows "m_ownership m' = m_ownership m" "m_proposed m' = Some p"
    "m_timeout_vote m' = m_timeout_vote m" "m_fallback_vote m' = m_fallback_vote m"
    "m_pending m' = Some (Vote_new cr
       ((if is_fast (pc_round (content p)) then new_confirmed cr else new_validated cr)
         (outcome_with out (pc_block (content p)))) (pc_round (content p)) k)"
    "m_current_round m' = m_current_round (update_current_round (m\<lparr>m_proposed := Some p\<rparr>) t)"
  by (simp_all add: m'_def create_vote_def Let_def split: option.splits)

lemma create_vote_locked:
  "m_locked (create_vote cr m p out k t) =
     (case validated_block_certificate p of None \<Rightarrow> m_locked m
      | Some lc \<Rightarrow>
        if (case m_locked m of None \<Rightarrow> True | Some lck \<Rightarrow> cert_round lck < lc_round lc)
        then (case LiteCertificate_with_value lc (new_validated cr (outcome_with out (pc_block (content p)))) of
                Some cert \<Rightarrow> Some cert | None \<Rightarrow> m_locked m)
        else m_locked m)"
  by (simp add: create_vote_def Let_def split: option.splits)

lemma create_final_vote_cases:
  assumes "is_validated (hv_value (cert_value cert))"
  obtains (old) "cert_round cert < m_current_round m" "create_final_vote cr m cert (Some k) t = m"
  | (new) eb where "m_current_round m \<le> cert_round cert" "hv_value (cert_value cert) = ValidatedBlock eb"
      "create_final_vote cr m cert (Some k) t
        = (update_current_round (m\<lparr>m_locked := Some cert\<rparr>) t)
            \<lparr>m_pending := Some (Vote_new cr (new_confirmed cr eb) (cert_round cert) k)\<rparr>"
  using assms
  by (cases "hv_value (cert_value cert)"; cases "cert_round cert < m_current_round m")
     (auto simp: create_final_vote_def Let_def is_validated_def validated_to_confirmed_def new_confirmed_def)

section \<open>The invariant of an honest validator\<close>

abbreviation val_of :: "Vote \<Rightarrow> CertificateValue" where
  "val_of x \<equiv> hv_value (vote_value x)"

text \<open>\<open>C\<close> is the set of certificates that are known to be valid, \<open>m\<close> the manager and \<open>L\<close> the votes cast.\<close>

definition round_inv :: "ChainOwnership \<Rightarrow> ChainManager \<Rightarrow> bool" where
  "round_inv own m \<longleftrightarrow> m_ownership m = own \<and> first_round own \<le> m_current_round m
     \<and> (\<forall>p. m_proposed m = Some p \<longrightarrow> pc_round (content p) \<le> m_current_round m)
     \<and> (\<forall>lck. m_locked m = Some lck \<longrightarrow> cert_round lck \<le> m_current_round m)"

definition validated_inv :: "ChainManager \<Rightarrow> Vote set \<Rightarrow> bool" where
  "validated_inv m L \<longleftrightarrow>
     (\<forall>x \<in> L. is_validated (val_of x) \<longrightarrow> vote_round x \<noteq> Fast
        \<and> (\<exists>p. m_proposed m = Some p \<and> vote_round x \<le> pc_round (content p)))
     \<and> (\<forall>x \<in> L. \<forall>y \<in> L. is_validated (val_of x) \<and> is_validated (val_of y) \<and> vote_round x = vote_round y
          \<longrightarrow> val_of x = val_of y)"

definition fast_inv :: "ChainOwnership \<Rightarrow> ChainManager \<Rightarrow> Vote set \<Rightarrow> bool" where
  "fast_inv own m L \<longleftrightarrow>
     (\<forall>x \<in> L. is_confirmed (val_of x) \<and> vote_round x = Fast \<longrightarrow> m_proposed m \<noteq> None \<and> first_round own = Fast)
     \<and> (\<forall>x \<in> L. \<forall>y \<in> L. is_confirmed (val_of x) \<and> is_confirmed (val_of y) \<and> vote_round x = Fast
          \<and> vote_round y = Fast \<longrightarrow> val_of x = val_of y)"

definition confirmed_inv :: "(Certificate \<Rightarrow> bool) \<Rightarrow> ChainManager \<Rightarrow> Vote set \<Rightarrow> bool" where
  "confirmed_inv C m L \<longleftrightarrow>
     (\<forall>x \<in> L. \<forall>eb. val_of x = ConfirmedBlock eb \<and> vote_round x \<noteq> Fast \<longrightarrow>
        (\<exists>lck. m_locked m = Some lck \<and> vote_round x \<le> cert_round lck)
        \<and> (\<exists>cert. C cert \<and> hv_value (cert_value cert) = ValidatedBlock eb \<and> cert_round cert = vote_round x))"

definition lock_inv :: "(Certificate \<Rightarrow> bool) \<Rightarrow> Vote set \<Rightarrow> bool" where
  "lock_inv C L \<longleftrightarrow>
     (\<forall>x \<in> L. \<forall>y \<in> L. is_confirmed (val_of x) \<and> vote_round x \<noteq> Fast \<and> is_validated (val_of y)
        \<and> vote_round x < vote_round y \<longrightarrow>
        (\<exists>cert. C cert \<and> hv_value (cert_value cert) = val_of y
           \<and> vote_round x \<le> cert_round cert \<and> cert_round cert < vote_round y))"

definition validator_inv ::
  "Crypto \<Rightarrow> ChainOwnership \<Rightarrow> (Certificate \<Rightarrow> bool) \<Rightarrow> ChainManager \<Rightarrow> Vote set \<Rightarrow> bool" where
  "validator_inv cr own C m L \<longleftrightarrow>
     (\<forall>x \<in> L. well_hashed cr (vote_value x)) \<and> votes_of m \<subseteq> L
     \<and> round_inv own m \<and> validated_inv m L \<and> fast_inv own m L \<and> confirmed_inv C m L \<and> lock_inv C L"

lemmas validator_inv_defs = validator_inv_def round_inv_def validated_inv_def fast_inv_def
  confirmed_inv_def lock_inv_def

lemma validator_inv_mono:
  assumes "validator_inv cr own C m L" and "\<And>x. C x \<Longrightarrow> C' x"
  shows "validator_inv cr own C' m L"
proof -
  have "confirmed_inv C' m L"
    using assms unfolding validator_inv_def confirmed_inv_def by meson
  moreover have "lock_inv C' L"
    using assms unfolding validator_inv_def lock_inv_def by meson
  ultimately show ?thesis
    using assms by (simp add: validator_inv_def)
qed

lemma is_validated_simps [simp]:
  "is_validated (ValidatedBlock eb)" "\<not> is_validated (ConfirmedBlock eb)" "\<not> is_validated (Timeout a b d)"
  "is_confirmed (ConfirmedBlock eb)" "\<not> is_confirmed (ValidatedBlock eb)" "\<not> is_confirmed (Timeout a b d)"
  by (simp_all add: is_validated_def is_confirmed_def)

lemma Vote_new_simps [simp]:
  "vote_value (Vote_new cr hv r k) = hv" "vote_round (Vote_new cr hv r k) = r"
  by (simp_all add: Vote_new_def Let_def)

lemma with_hash_simps [simp]: "hv_value (with_hash cr x) = x" "hv_hash (with_hash cr x) = hash_value cr x"
  by (simp_all add: with_hash_def)

lemma well_hashed_simps [simp]:
  "well_hashed cr (with_hash cr y)" "well_hashed cr (new_confirmed cr eb)" "well_hashed cr (new_validated cr eb)"
  "well_hashed cr (new_timeout cr a b d)"
  by (simp_all add: well_hashed_def new_confirmed_def new_validated_def new_timeout_def)

lemma new_value_simps [simp]:
  "hv_value (new_confirmed cr eb) = ConfirmedBlock eb" "hv_value (new_validated cr eb) = ValidatedBlock eb"
  "hv_value (new_timeout cr a b d) = Timeout a b d"
  by (simp_all add: new_confirmed_def new_validated_def new_timeout_def)

lemma with_value_round:
  "LiteCertificate_with_value lc hv = Some cert \<Longrightarrow> cert_round cert = lc_round lc \<and> cert_value cert = hv"
  by (auto simp: LiteCertificate_with_value_def split: if_splits)

text \<open>Timeouts: the vote log grows by timeout votes only, the round only increases.\<close>

lemma validator_inv_timeout:
  assumes inv: "validator_inv cr own C m L"
    and m': "m_ownership m' = m_ownership m" "m_proposed m' = m_proposed m" "m_locked m' = m_locked m"
      "m_current_round m \<le> m_current_round m'"
    and N: "votes_of m' \<subseteq> L \<union> N" "\<And>x. x \<in> N \<Longrightarrow> is_timeout (val_of x) \<and> well_hashed cr (vote_value x)"
  shows "validator_inv cr own C m' (L \<union> N)"
proof -
  have no: "\<not> is_validated (val_of x)" "\<not> is_confirmed (val_of x)" "val_of x \<noteq> ConfirmedBlock eb"
    if "x \<in> N" for x eb
    using N(2) [OF that] by (cases "val_of x"; simp add: is_timeout_def)+
  have "round_inv own m'"
    using inv m' by (auto simp: validator_inv_def round_inv_def intro: order.trans)
  moreover have "validated_inv m' (L \<union> N)" "fast_inv own m' (L \<union> N)"
    using inv no by (auto simp: validator_inv_def validated_inv_def fast_inv_def m')
  moreover have "confirmed_inv C m' (L \<union> N)"
    using inv no unfolding validator_inv_def confirmed_inv_def m' by (metis UnE)
  moreover have "lock_inv C (L \<union> N)"
    using inv no unfolding validator_inv_def lock_inv_def by (metis UnE)
  moreover have "\<forall>x \<in> L \<union> N. well_hashed cr (vote_value x)"
    using inv N(2) by (auto simp: validator_inv_def)
  ultimately show ?thesis
    using N(1) by (simp add: validator_inv_def)
qed

text \<open>Voting on a proposal: the round rises to the proposal's, the lock only moves up.\<close>

lemma create_vote_round:
  "m_current_round m \<le> m_current_round (create_vote cr m p out (Some k) t)"
  "pc_round (content p) \<le> m_current_round (create_vote cr m p out (Some k) t)"
  using update_current_round_ge [where m="m\<lparr>m_proposed := Some p\<rparr>" and t=t]
  by (simp_all add: create_vote_fields(6) round_candidates_def split: option.splits)

lemma create_vote_lock_rises:
  assumes "m_locked m = Some lck"
  shows "\<exists>lck'. m_locked (create_vote cr m p out k t) = Some lck' \<and> cert_round lck \<le> cert_round lck'"
  using assms with_value_round by (fastforce simp: create_vote_locked split: option.splits)

lemma create_vote_round_inv:
  assumes inv: "round_inv own m" and acc: "check_proposed_block m p = Inr Outcome_Accept"
  shows "round_inv own (create_vote cr m p out (Some k) t)"
proof -
  let ?m = "create_vote cr m p out (Some k) t"
  note round = create_vote_round [where m=m and cr=cr and p=p and out=out and k=k and t=t]
  have "cert_round lck \<le> m_current_round ?m" if "m_locked ?m = Some lck" for lck
  proof -
    have "m_locked m = Some lck \<or> (\<exists>lc. validated_block_certificate p = Some lc \<and> cert_round lck = lc_round lc)"
      using that with_value_round by (fastforce simp: create_vote_locked split: option.splits if_splits)
    then show ?thesis
      using inv round check_proposed_block_Accept(4) [OF acc]
      by (auto simp: round_inv_def intro: order.trans less_imp_le)
  qed
  then show ?thesis
    using inv round by (auto simp: round_inv_def create_vote_fields intro: order.trans)
qed

lemma lock_inv_proposal:
  assumes inv: "lock_inv C L" "confirmed_inv C m L"
    and acc: "check_proposed_block m p = Inr Outcome_Accept"
    and lite: "\<And>lc. validated_block_certificate p = Some lc \<Longrightarrow>
      \<exists>cert. C cert \<and> LiteCertificate_with_value lc (new_validated cr eb) = Some cert"
    and x: "vote_round x = pc_round (content p)" "vote_round x = Fast \<or> val_of x = ValidatedBlock eb"
  shows "lock_inv C (insert x L)"
  unfolding lock_inv_def
proof (intro ballI impI)
  fix y z assume yz: "y \<in> insert x L" "z \<in> insert x L" "is_confirmed (val_of y) \<and> vote_round y \<noteq> Fast
    \<and> is_validated (val_of z) \<and> vote_round y < vote_round z"
  then have y: "y \<in> L" using x(2) by auto
  show "\<exists>cert. C cert \<and> hv_value (cert_value cert) = val_of z \<and> vote_round y \<le> cert_round cert
      \<and> cert_round cert < vote_round z"
  proof (cases "z \<in> L")
    case True
    then show ?thesis using inv(1) y yz(3) unfolding lock_inv_def by blast
  next
    case False
    then have z: "z = x" "val_of x = ValidatedBlock eb"
      using yz x(2) by auto
    obtain eb' where "val_of y = ConfirmedBlock eb'"
      using yz(3) by (cases "val_of y") auto
    then obtain lck where lck: "m_locked m = Some lck" "vote_round y \<le> cert_round lck"
      using inv(2) y yz(3) unfolding confirmed_inv_def by blast
    obtain lc where lc: "validated_block_certificate p = Some lc" "cert_round lck \<le> lc_round lc"
      using check_proposed_block_Accept(3) [OF acc lck(1)] by blast
    obtain cert where "C cert" "LiteCertificate_with_value lc (new_validated cr eb) = Some cert"
      using lite [OF lc(1)] by blast
    with lck lc check_proposed_block_Accept(4) [OF acc lc(1)] x(1) z with_value_round show ?thesis
      by (metis new_value_simps(2) order.trans)
  qed
qed

lemma validated_inv_proposal:
  assumes inv: "validated_inv m L" and p: "m_proposed m' = Some p"
    and old: "\<And>old. m_proposed m = Some old \<Longrightarrow> pc_round (content old) < pc_round (content p)"
    and x: "vote_round x = pc_round (content p)" "is_validated (val_of x) \<longleftrightarrow> vote_round x \<noteq> Fast"
  shows "validated_inv m' (insert x L)"
proof -
  have below: "vote_round y < vote_round x" if y: "y \<in> L" "is_validated (val_of y)" for y
  proof -
    obtain q where "m_proposed m = Some q" "vote_round y \<le> pc_round (content q)"
      using inv y unfolding validated_inv_def by blast
    with old x(1) show ?thesis by (metis le_less_trans)
  qed
  show ?thesis
    unfolding validated_inv_def
  proof (intro conjI ballI impI)
    fix y assume y: "y \<in> insert x L" "is_validated (val_of y)"
    show "vote_round y \<noteq> Fast"
      using y inv x(2) unfolding validated_inv_def by blast
    have "vote_round y \<le> vote_round x"
      using y below by (metis insertE less_imp_le order.refl)
    then show "\<exists>q. m_proposed m' = Some q \<and> vote_round y \<le> pc_round (content q)"
      by (simp add: p x(1))
  next
    fix y z assume "y \<in> insert x L" "z \<in> insert x L"
      "is_validated (val_of y) \<and> is_validated (val_of z) \<and> vote_round y = vote_round z"
    then show "val_of y = val_of z"
      using below inv unfolding validated_inv_def by (metis insertE less_irrefl)
  qed
qed

lemma fast_inv_proposal:
  assumes inv: "fast_inv own m L" and p: "m_proposed m' = Some p"
    and old: "\<And>old. m_proposed m = Some old \<Longrightarrow> pc_round (content old) < pc_round (content p)"
    and x: "vote_round x = pc_round (content p)" "vote_round x = Fast \<Longrightarrow> first_round own = Fast"
  shows "fast_inv own m' (insert x L)"
proof -
  have "\<not> (is_confirmed (val_of y) \<and> vote_round y = Fast)" if "y \<in> L" "vote_round x = Fast" for y
    using that inv old x(1) unfolding fast_inv_def by auto
  then show ?thesis
    using inv x(2) unfolding fast_inv_def p by blast
qed

lemma confirmed_inv_insert:
  assumes inv: "confirmed_inv C m L"
    and lock: "\<And>lck. m_locked m = Some lck \<Longrightarrow> \<exists>lck'. m_locked m' = Some lck' \<and> cert_round lck \<le> cert_round lck'"
    and x: "\<And>eb. val_of x = ConfirmedBlock eb \<Longrightarrow> vote_round x \<noteq> Fast \<Longrightarrow>
      (\<exists>lck. m_locked m' = Some lck \<and> vote_round x \<le> cert_round lck)
      \<and> (\<exists>cert. C cert \<and> hv_value (cert_value cert) = ValidatedBlock eb \<and> cert_round cert = vote_round x)"
  shows "confirmed_inv C m' (insert x L)"
  unfolding confirmed_inv_def
proof (intro ballI allI impI)
  fix y eb assume y: "y \<in> insert x L" "val_of y = ConfirmedBlock eb \<and> vote_round y \<noteq> Fast"
  show "(\<exists>lck. m_locked m' = Some lck \<and> vote_round y \<le> cert_round lck)
      \<and> (\<exists>cert. C cert \<and> hv_value (cert_value cert) = ValidatedBlock eb \<and> cert_round cert = vote_round y)"
  proof (cases "y = x")
    case False
    then obtain lck where lck: "m_locked m = Some lck" "vote_round y \<le> cert_round lck"
      and cert: "\<exists>cert. C cert \<and> hv_value (cert_value cert) = ValidatedBlock eb \<and> cert_round cert = vote_round y"
      using inv y unfolding confirmed_inv_def by blast
    with lock [OF lck(1)] show ?thesis by (auto intro: order.trans)
  qed (use x y in auto)
qed

lemma validator_inv_proposal:
  fixes cr p out k
  defines "eb \<equiv> outcome_with out (pc_block (content p))" and "r \<equiv> pc_round (content p)"
  defines "x \<equiv> Vote_new cr ((if is_fast r then new_confirmed cr else new_validated cr) eb) r k"
  assumes inv: "validator_inv cr own C m L"
    and acc: "check_proposed_block m p = Inr Outcome_Accept"
    and lite: "\<And>lc. validated_block_certificate p = Some lc \<Longrightarrow>
      \<exists>cert. C cert \<and> LiteCertificate_with_value lc (new_validated cr eb) = Some cert"
  shows "validator_inv cr own C (create_vote cr m p out (Some k) t) (insert x L)"
proof -
  let ?m = "create_vote cr m p out (Some k) t"
  have x: "vote_round x = pc_round (content p)" "well_hashed cr (vote_value x)"
    "is_validated (val_of x) \<longleftrightarrow> vote_round x \<noteq> Fast" "vote_round x = Fast \<or> val_of x = ValidatedBlock eb"
    by (auto simp: x_def r_def)
  have parts: "validated_inv m L" "fast_inv own m L" "round_inv own m" "confirmed_inv C m L" "lock_inv C L"
      "votes_of m \<subseteq> L" "\<forall>y \<in> L. well_hashed cr (vote_value y)"
    using inv by (simp_all add: validator_inv_def)
  note old = check_proposed_block_Accept(2) [OF acc]
  have "validated_inv ?m (insert x L)"
    by (rule validated_inv_proposal [OF parts(1) create_vote_fields(2) old x(1,3)])
  moreover have "fast_inv own ?m (insert x L)"
    using x(1) parts(3) check_proposed_block_Accept(1) [OF acc]
    by (intro fast_inv_proposal [OF parts(2) create_vote_fields(2) old x(1)]) (auto simp: round_inv_def)
  moreover have "confirmed_inv C ?m (insert x L)"
    using x(4) by (intro confirmed_inv_insert [OF parts(4)] create_vote_lock_rises) auto
  moreover have "lock_inv C (insert x L)"
    by (rule lock_inv_proposal [OF parts(5,4) acc lite x(1,4)])
  moreover have "votes_of ?m \<subseteq> insert x L"
    using parts(6) by (auto simp: votes_of_def create_vote_fields x_def eb_def r_def)
  moreover have "round_inv own ?m"
    by (rule create_vote_round_inv [OF parts(3) acc])
  ultimately show ?thesis
    using parts(7) x(2) by (simp add: validator_inv_def)
qed

text \<open>Voting to confirm a validated block.\<close>

lemma validator_inv_validated:
  assumes inv: "validator_inv cr own C m L"
    and cert: "C cert" "hv_value (cert_value cert) = ValidatedBlock eb" "cert_round cert \<noteq> Fast"
      "m_current_round m \<le> cert_round cert"
    and acc: "check_validated_block m cert = Inr Outcome_Accept"
    and x: "x = Vote_new cr (new_confirmed cr eb) (cert_round cert) k"
    and m': "m' = (update_current_round (m\<lparr>m_locked := Some cert\<rparr>) t)\<lparr>m_pending := Some x\<rparr>"
  shows "validator_inv cr own C m' (insert x L)"
proof -
  have parts: "validated_inv m L" "fast_inv own m L" "round_inv own m" "confirmed_inv C m L" "lock_inv C L"
      "votes_of m \<subseteq> L" "\<forall>y \<in> L. well_hashed cr (vote_value y)"
    using inv by (simp_all add: validator_inv_def)
  have x': "vote_round x = cert_round cert" "val_of x = ConfirmedBlock eb"
    by (simp_all add: x)
  have fields: "m_proposed m' = m_proposed m" "m_locked m' = Some cert" "m_ownership m' = m_ownership m"
    "m_timeout_vote m' = m_timeout_vote m" "m_fallback_vote m' = m_fallback_vote m" "m_pending m' = Some x"
    by (simp_all add: m')
  have "m_current_round m \<le> m_current_round m'" "cert_round cert \<le> m_current_round m'"
    using update_current_round_ge [where m="m\<lparr>m_locked := Some cert\<rparr>" and t=t]
    by (simp_all add: m' round_candidates_def split: option.splits)
  then have "round_inv own m'"
    using parts(3) by (auto simp: round_inv_def fields intro: order.trans)
  moreover have "validated_inv m' (insert x L)" "fast_inv own m' (insert x L)"
    using parts(1,2) x' cert(3) by (auto simp: validated_inv_def fast_inv_def fields)
  moreover have "confirmed_inv C m' (insert x L)"
    using check_validated_block_Accept [OF acc] cert x'
    by (intro confirmed_inv_insert [OF parts(4)]) (auto simp: fields less_imp_le)
  moreover have "vote_round y \<le> vote_round x" if "y \<in> L" "is_validated (val_of y)" for y
  proof -
    have "\<exists>q. m_proposed m = Some q \<and> vote_round y \<le> pc_round (content q)"
      using parts(1) that unfolding validated_inv_def by blast
    then show ?thesis
      using parts(3) cert(4) x'(1) by (auto simp: round_inv_def intro: order.trans)
  qed
  then have "lock_inv C (insert x L)"
    using parts(5) x' unfolding lock_inv_def by (metis insertE leD is_validated_simps(2))
  moreover have "votes_of m' \<subseteq> insert x L"
    using parts(6) by (auto simp: votes_of_def fields)
  ultimately show ?thesis
    using parts(7) by (simp add: validator_inv_def x)
qed

section \<open>The invariant of the system\<close>

definition system_inv ::
  "Crypto \<Rightarrow> Committee \<Rightarrow> ValidatorName set \<Rightarrow> ChainOwnership \<Rightarrow> System \<Rightarrow> bool" where
  "system_inv cr c honest own S \<longleftrightarrow>
     (\<forall>v \<in> honest. validator_inv cr own (valid_cert cr c honest S) (managers S v) (vote_log S v))"

text \<open>The assumptions on the environment: a well-formed committee, faulty validators of tolerable
  weight, and a hash function without collisions on certificate values.\<close>

definition good_setting :: "Crypto \<Rightarrow> Committee \<Rightarrow> ValidatorName set \<Rightarrow> bool" where
  "good_setting cr c honest \<longleftrightarrow> committee_wf c
     \<and> (\<Sum>v \<in> committee_members c - honest. unat (weight c v)) \<le> committee_fault_bound c
     \<and> inj (hash_value cr)"

lemma good_setting_tolerable: "good_setting cr c honest \<Longrightarrow> committee.tolerable c (- honest)"
  by (simp add: good_setting_def committee.tolerable_def committee_weight_def Int_commute Diff_eq)

lemma valid_cert_quorum:
  "valid_cert cr c honest S cert \<Longrightarrow> committee_wf c \<Longrightarrow>
     committee.is_quorum c (fst ` set (cert_signatures cert))"
  using check_signatures_ok by (auto simp: valid_cert_def Certificate_check_def result_simps)

lemma honest_voted:
  assumes "good_setting cr c honest" "system_inv cr c honest own S" "valid_cert cr c honest S cert"
    and "v \<in> honest" "v \<in> fst ` set (cert_signatures cert)"
  shows "\<exists>x \<in> vote_log S v. val_of x = hv_value (cert_value cert) \<and> vote_round x = cert_round cert"
proof -
  obtain x where x: "x \<in> vote_log S v" "hv_hash (vote_value x) = hv_hash (cert_value cert)"
      "vote_round x = cert_round cert"
    using assms(3-5) by (auto simp: valid_cert_def unforged_def)
  moreover have "well_hashed cr (vote_value x)"
    using assms(2,4) x(1) by (simp add: system_inv_def validator_inv_def)
  ultimately have "val_of x = hv_value (cert_value cert)"
    using assms(1,3) by (auto simp: valid_cert_def well_hashed_def good_setting_def dest: injD)
  with x show ?thesis by blast
qed

lemma common_voter:
  assumes "good_setting cr c honest" "system_inv cr c honest own S"
    and "valid_cert cr c honest S C1" "valid_cert cr c honest S C2"
  obtains v x y where "v \<in> honest" "x \<in> vote_log S v" "y \<in> vote_log S v"
    "val_of x = hv_value (cert_value C1)" "vote_round x = cert_round C1"
    "val_of y = hv_value (cert_value C2)" "vote_round y = cert_round C2"
proof -
  have wf: "committee_wf c"
    using assms(1) by (simp add: good_setting_def)
  from committee.honest_in_both [OF wf valid_cert_quorum [OF assms(3) wf] valid_cert_quorum [OF assms(4) wf]
      good_setting_tolerable [OF assms(1)]]
  obtain v where v: "v \<in> fst ` set (cert_signatures C1)" "v \<in> fst ` set (cert_signatures C2)" "v \<in> honest"
    by blast
  obtain x where "x \<in> vote_log S v" "val_of x = hv_value (cert_value C1)" "vote_round x = cert_round C1"
    using honest_voted [OF assms(1-3) v(3,1)] by blast
  moreover obtain y where "y \<in> vote_log S v" "val_of y = hv_value (cert_value C2)" "vote_round y = cert_round C2"
    using honest_voted [OF assms(1,2,4) v(3,2)] by blast
  ultimately show ?thesis
    using v(3) that by blast
qed

lemma validated_not_fast:
  assumes "good_setting cr c honest" "system_inv cr c honest own S" "valid_cert cr c honest S cert"
    and "is_validated (hv_value (cert_value cert))"
  shows "cert_round cert \<noteq> Fast"
proof -
  obtain v x where v: "v \<in> honest" "x \<in> vote_log S v" and x: "is_validated (val_of x)" "vote_round x = cert_round cert"
    using common_voter [OF assms(1-3,3)] assms(4) by metis
  have "validated_inv (managers S v) (vote_log S v)"
    using assms(2) v(1) by (simp add: system_inv_def validator_inv_def)
  with v(2) x show ?thesis
    unfolding validated_inv_def by metis
qed

lemma valid_cert_publish: "valid_cert cr c honest S cert \<Longrightarrow> valid_cert cr c honest (publish v m S) cert"
  by (force simp: valid_cert_def unforged_def publish_def)

lemma system_inv_publish:
  assumes "system_inv cr c honest own S" "v \<in> honest"
    and "validator_inv cr own (valid_cert cr c honest S) m (vote_log S v \<union> votes_of m)"
  shows "system_inv cr c honest own (publish v m S)"
  unfolding system_inv_def
proof
  fix u assume u: "u \<in> honest"
  have "validator_inv cr own (valid_cert cr c honest S) (managers (publish v m S) u) (vote_log (publish v m S) u)"
    using assms u by (simp add: publish_def system_inv_def)
  then show "validator_inv cr own (valid_cert cr c honest (publish v m S))
      (managers (publish v m S) u) (vote_log (publish v m S) u)"
    by (rule validator_inv_mono) (rule valid_cert_publish)
qed

lemma valid_lite_with_value:
  assumes "valid_lite cr c honest S lc" "LiteCertificate_with_value lc (new_validated cr eb) = Some cert"
  shows "valid_cert cr c honest S cert"
  using assms
  by (auto simp: valid_lite_def valid_cert_def LiteCertificate_with_value_def LiteCertificate_check_def
      Certificate_check_def result_simps check_signatures_def lite_value_def Let_def split: if_splits)

lemma timeout_votes:
  "x \<notin> votes_of m \<Longrightarrow> x \<in> votes_of (snd (vote_timeout cr m cid h e k t)) \<Longrightarrow>
     is_timeout (val_of x) \<and> well_hashed cr (vote_value x)"
  "x \<notin> votes_of m \<Longrightarrow> x \<in> votes_of (snd (vote_fallback cr m cid h e k)) \<Longrightarrow>
     is_timeout (val_of x) \<and> well_hashed cr (vote_value x)"
  by (auto simp: vote_timeout_def vote_fallback_def votes_of_def Let_def is_timeout_def
      split: option.splits if_splits)

lemma timeout_certificate_votes: "votes_of (handle_timeout_certificate m cert t) = votes_of m"
  by (simp add: handle_timeout_certificate_def votes_of_def Let_def)

lemma timeout_fields:
  "m_ownership (snd (vote_timeout cr m cid h e k t)) = m_ownership m"
  "m_proposed (snd (vote_timeout cr m cid h e k t)) = m_proposed m"
  "m_locked (snd (vote_timeout cr m cid h e k t)) = m_locked m"
  "m_current_round m \<le> m_current_round (snd (vote_timeout cr m cid h e k t))"
  "m_ownership (snd (vote_fallback cr m cid h e k)) = m_ownership m"
  "m_proposed (snd (vote_fallback cr m cid h e k)) = m_proposed m"
  "m_locked (snd (vote_fallback cr m cid h e k)) = m_locked m"
  "m_current_round m \<le> m_current_round (snd (vote_fallback cr m cid h e k))"
  "m_ownership (handle_timeout_certificate m cert t) = m_ownership m"
  "m_proposed (handle_timeout_certificate m cert t) = m_proposed m"
  "m_locked (handle_timeout_certificate m cert t) = m_locked m"
  by (simp_all add: vote_timeout_def vote_fallback_def handle_timeout_certificate_def Let_def split: option.splits)

lemma timeout_certificate_round: "m_current_round m \<le> m_current_round (handle_timeout_certificate m cert t)"
  using update_current_round_ge(1) [of "m\<lparr>m_timeout := Some cert\<rparr>" t]
  by (simp add: handle_timeout_certificate_def Let_def)

lemma system_inv_timeout:
  assumes "system_inv cr c honest own S" "v \<in> honest"
    and m': "m_ownership m' = m_ownership (managers S v)" "m_proposed m' = m_proposed (managers S v)"
      "m_locked m' = m_locked (managers S v)" "m_current_round (managers S v) \<le> m_current_round m'"
    and N: "\<And>x. x \<notin> votes_of (managers S v) \<Longrightarrow> x \<in> votes_of m' \<Longrightarrow>
      is_timeout (val_of x) \<and> well_hashed cr (vote_value x)"
  shows "system_inv cr c honest own (publish v m' S)"
proof (rule system_inv_publish [OF assms(1,2)])
  let ?N = "votes_of m' - votes_of (managers S v)"
  have inv: "validator_inv cr own (valid_cert cr c honest S) (managers S v) (vote_log S v)"
    using assms(1,2) by (simp add: system_inv_def)
  then have L: "vote_log S v \<union> votes_of m' = vote_log S v \<union> ?N"
    by (auto simp: validator_inv_def)
  show "validator_inv cr own (valid_cert cr c honest S) m' (vote_log S v \<union> votes_of m')"
    unfolding L using N by (intro validator_inv_timeout [OF inv m']) (use L in auto)
qed

lemma system_step_inv:
  assumes "system_step cr c honest key S S'" "good_setting cr c honest" "system_inv cr c honest own S"
  shows "system_inv cr c honest own S'"
  using assms(1)
proof cases
  case (vote_proposal v p out t)
  let ?m = "managers S v" and ?C = "valid_cert cr c honest S"
  let ?eb = "outcome_with out (pc_block (content p))"
  let ?x = "Vote_new cr ((if is_fast (pc_round (content p)) then new_confirmed cr else new_validated cr) ?eb)
    (pc_round (content p)) (key v)"
  have inv: "validator_inv cr own ?C ?m (vote_log S v)"
    using assms(3) vote_proposal(2) by (simp add: system_inv_def)
  have "validator_inv cr own ?C (create_vote cr ?m p out (Some (key v)) t) (insert ?x (vote_log S v))"
    using vote_proposal(4) valid_lite_with_value
    by (intro validator_inv_proposal [OF inv vote_proposal(3)]) blast
  moreover from this have "insert ?x (vote_log S v)
      = vote_log S v \<union> votes_of (create_vote cr ?m p out (Some (key v)) t)"
    by (auto simp: validator_inv_def votes_of_def create_vote_fields(5))
  ultimately show ?thesis
    using vote_proposal assms(3) by (auto intro: system_inv_publish)
next
  case (vote_validated v cert t)
  let ?m = "managers S v" and ?C = "valid_cert cr c honest S"
  have inv: "validator_inv cr own ?C ?m (vote_log S v)"
    using assms(3) vote_validated(2) by (simp add: system_inv_def)
  show ?thesis
    using vote_validated(4)
  proof (cases rule: create_final_vote_cases [where m="?m" and cr=cr and k="key v" and t=t])
    case old
    have "votes_of ?m \<subseteq> vote_log S v"
      using inv by (simp add: validator_inv_def)
    then show ?thesis
      using system_inv_publish [OF assms(3) vote_validated(2), of ?m] inv
      by (simp add: vote_validated(1) old Un_absorb2)
  next
    case (new eb)
    let ?x = "Vote_new cr (new_confirmed cr eb) (cert_round cert) (key v)"
    let ?m' = "create_final_vote cr ?m cert (Some (key v)) t"
    have "validator_inv cr own ?C ?m' (insert ?x (vote_log S v))"
      by (rule validator_inv_validated [OF inv vote_validated(3) new(2)
            validated_not_fast [OF assms(2,3) vote_validated(3,4)] new(1) vote_validated(5) refl new(3)])
    moreover from this have "insert ?x (vote_log S v) = vote_log S v \<union> votes_of ?m'"
      by (auto simp: validator_inv_def votes_of_def new(3))
    ultimately show ?thesis
      using vote_validated(1,2) assms(3) by (auto intro: system_inv_publish)
  qed
next
  case (timeout_certificate v cert t)
  show ?thesis
    unfolding timeout_certificate(1)
    by (rule system_inv_timeout [OF assms(3) timeout_certificate(2)])
      (simp_all add: timeout_fields timeout_certificate_round timeout_certificate_votes)
next
  case (leader_timeout v cid h e t)
  show ?thesis
    unfolding leader_timeout(1)
    by (rule system_inv_timeout [OF assms(3) leader_timeout(2)]) (simp_all add: timeout_fields timeout_votes)
next
  case (fallback v cid h e)
  show ?thesis
    unfolding fallback(1)
    by (rule system_inv_timeout [OF assms(3) fallback(2)]) (simp_all add: timeout_fields timeout_votes)
qed

lemma reachable_inv:
  assumes "reachable cr c honest key own S" "good_setting cr c honest"
  shows "system_inv cr c honest own S"
  using assms(1)
proof induction
  case (start S)
  then show ?case
    by (simp add: system_inv_def fresh_manager_def validator_inv_defs)
next
  case (step S S')
  then show ?case
    using system_step_inv assms(2) by blast
qed

section \<open>Agreement\<close>

lemma same_round_validated:
  assumes "good_setting cr c honest" "system_inv cr c honest own S"
    and "valid_cert cr c honest S C1" "valid_cert cr c honest S C2" "cert_round C1 = cert_round C2"
    and "is_validated (hv_value (cert_value C1))" "is_validated (hv_value (cert_value C2))"
  shows "hv_value (cert_value C1) = hv_value (cert_value C2)"
proof -
  obtain v x y where v: "v \<in> honest" "x \<in> vote_log S v" "y \<in> vote_log S v"
    and xy: "val_of x = hv_value (cert_value C1)" "vote_round x = cert_round C1"
      "val_of y = hv_value (cert_value C2)" "vote_round y = cert_round C2"
    using common_voter [OF assms(1-4)] by metis
  have "validated_inv (managers S v) (vote_log S v)"
    using assms(2) v(1) by (simp add: system_inv_def validator_inv_def)
  then show ?thesis
    using v(2,3) xy assms(5-7) unfolding validated_inv_def by metis
qed

lemma confirmed_has_validated:
  assumes "good_setting cr c honest" "system_inv cr c honest own S" "valid_cert cr c honest S cert"
    and "hv_value (cert_value cert) = ConfirmedBlock eb" "cert_round cert \<noteq> Fast"
  shows "\<exists>C. valid_cert cr c honest S C \<and> hv_value (cert_value C) = ValidatedBlock eb \<and> cert_round C = cert_round cert"
proof -
  obtain v x where v: "v \<in> honest" "x \<in> vote_log S v" "val_of x = ConfirmedBlock eb" "vote_round x = cert_round cert"
    using common_voter [OF assms(1-3,3)] assms(4) by metis
  have "confirmed_inv (valid_cert cr c honest S) (managers S v) (vote_log S v)"
    using assms(2) v(1) by (simp add: system_inv_def validator_inv_def)
  then show ?thesis
    using v(2-4) assms(5) unfolding confirmed_inv_def by metis
qed

lemma validated_after_confirmed:
  assumes "good_setting cr c honest" "system_inv cr c honest own S" "valid_cert cr c honest S cert"
    and "hv_value (cert_value cert) = ConfirmedBlock eb" "cert_round cert \<noteq> Fast"
    and "valid_cert cr c honest S C" "hv_value (cert_value C) = ValidatedBlock eb'" "cert_round cert \<le> cert_round C"
  shows "eb' = eb"
  using assms(6-8)
proof (induction "cert_round C" arbitrary: C rule: less_induct)
  case less
  show ?case
  proof (cases "cert_round C = cert_round cert")
    case True
    obtain C0 where "valid_cert cr c honest S C0" "hv_value (cert_value C0) = ValidatedBlock eb"
        "cert_round C0 = cert_round C"
      using confirmed_has_validated [OF assms(1-5)] True by auto
    with same_round_validated [OF assms(1,2) less.prems(1), of C0] less.prems show ?thesis by simp
  next
    case False
    then have lt: "cert_round cert < cert_round C"
      using less.prems(3) by simp
    obtain v x y where v: "v \<in> honest" "x \<in> vote_log S v" "y \<in> vote_log S v"
      and x: "val_of x = ConfirmedBlock eb" "vote_round x = cert_round cert"
      and y: "val_of y = ValidatedBlock eb'" "vote_round y = cert_round C"
      using common_voter [OF assms(1-3) less.prems(1)] assms(4) less.prems(2) by metis
    have "lock_inv (valid_cert cr c honest S) (vote_log S v)"
      using assms(2) v(1) by (simp add: system_inv_def validator_inv_def)
    then obtain C' where C': "valid_cert cr c honest S C'" "hv_value (cert_value C') = ValidatedBlock eb'"
        "cert_round cert \<le> cert_round C'" "cert_round C' < cert_round C"
      using v(2,3) x y assms(5) lt unfolding lock_inv_def
      by (metis is_validated_simps(1,4))
    show ?thesis
      using less.hyps [OF C'(4,1,2,3)] .
  qed
qed

lemma agreement_regular:
  assumes "good_setting cr c honest" "system_inv cr c honest own S"
    and "valid_cert cr c honest S C1" "hv_value (cert_value C1) = ConfirmedBlock eb1" "cert_round C1 \<noteq> Fast"
    and "valid_cert cr c honest S C2" "hv_value (cert_value C2) = ConfirmedBlock eb2" "cert_round C2 \<noteq> Fast"
  shows "eb1 = eb2"
proof -
  have "eb' = eb" if "valid_cert cr c honest S C" "hv_value (cert_value C) = ConfirmedBlock eb" "cert_round C \<noteq> Fast"
    "valid_cert cr c honest S C'" "hv_value (cert_value C') = ConfirmedBlock eb'" "cert_round C' \<noteq> Fast"
    "cert_round C \<le> cert_round C'" for C eb C' eb'
    using confirmed_has_validated [OF assms(1,2) that(4-6)]
      validated_after_confirmed [OF assms(1,2) that(1-3)] that(7) by metis
  then show ?thesis
    using assms by (metis nle_le)
qed

lemma agreement_fast:
  assumes "good_setting cr c honest" "system_inv cr c honest own S"
    and "valid_cert cr c honest S C1" "hv_value (cert_value C1) = ConfirmedBlock eb1" "cert_round C1 = Fast"
    and "valid_cert cr c honest S C2" "hv_value (cert_value C2) = ConfirmedBlock eb2" "cert_round C2 = Fast"
  shows "eb1 = eb2 \<and> super_owners own \<noteq> []"
proof -
  obtain v x y where v: "v \<in> honest" "x \<in> vote_log S v" "y \<in> vote_log S v"
    and x: "val_of x = ConfirmedBlock eb1" "vote_round x = Fast"
    and y: "val_of y = ConfirmedBlock eb2" "vote_round y = Fast"
    using common_voter [OF assms(1,2,3,6)] assms(4,5,7,8) by metis
  have inv: "fast_inv own (managers S v) (vote_log S v)"
    using assms(2) v(1) by (simp add: system_inv_def validator_inv_def)
  then have "ConfirmedBlock eb1 = ConfirmedBlock eb2"
    using v(2,3) x y unfolding fast_inv_def by (metis is_validated_simps(4))
  moreover have "first_round own = Fast"
    using inv v(2) x unfolding fast_inv_def by (metis is_validated_simps(4))
  ultimately show ?thesis
    by (auto simp: first_round_def split: if_splits)
qed



end
