(* ===== verification/Countable_Values.thy ===== *)
theory Countable_Values
  imports Certificates "HOL-Library.Countable"
begin

text \<open>
  Certificate values can be counted, so collision-free hash functions into the type of hashes
  exist. The instances below follow the structure of \<open>CertificateValue\<close>; \<open>ideal_hash\<close> is the
  resulting injective hash function, used to show that the assumptions of the agreement theorems
  can be met.
\<close>

instance MessageId_ext :: (countable) countable
proof (rule countable_classI [of "\<lambda>r. to_nat (mid_chain_id r, mid_height r, mid_index r, MessageId.more r)"])
qed (auto intro: MessageId.equality)

instance BytecodeId_ext :: (countable) countable
proof (rule countable_classI [of "\<lambda>r. to_nat (contract_blob_hash r, service_blob_hash r, BytecodeId.more r)"])
qed (auto intro: BytecodeId.equality)

instance ApplicationId_ext :: (countable) countable
proof (rule countable_classI [of "\<lambda>r. to_nat (bytecode_id r, creation r, ApplicationId.more r)"])
qed (auto intro: ApplicationId.equality)

instance GenericApplicationId :: countable
  by countable_datatype

instance Destination :: countable
  by countable_datatype

instance BlobType :: countable
  by countable_datatype

instance BlobId_ext :: (countable) countable
proof (rule countable_classI [of "\<lambda>r. to_nat (blob_hash r, blob_type r, BlobId.more r)"])
qed (auto intro: BlobId.equality)

instance Account_ext :: (countable) countable
proof (rule countable_classI [of "\<lambda>r. to_nat (acc_chain_id r, acc_owner r, Account.more r)"])
qed (auto intro: Account.equality)

instance ChannelSubscription_ext :: (countable) countable
proof (rule countable_classI [of "\<lambda>r. to_nat (sub_chain_id r, sub_name r, ChannelSubscription.more r)"])
qed (auto intro: ChannelSubscription.equality)

instance ApplicationPermissions_ext :: (countable) countable
proof (rule countable_classI [of "\<lambda>r. to_nat (execute_operations r, mandatory_applications r, close_chain_apps r, ApplicationPermissions.more r)"])
qed (auto intro: ApplicationPermissions.equality)

instance OracleResponse :: countable
  by countable_datatype

instance TimeoutConfig_ext :: (countable) countable
proof (rule countable_classI [of "\<lambda>r. to_nat (fast_round_duration r, base_timeout r, timeout_increment r, fallback_duration r, TimeoutConfig.more r)"])
qed (auto intro: TimeoutConfig.equality)

instance ChainOwnership_ext :: (countable) countable
proof (rule countable_classI [of "\<lambda>r. to_nat (super_owners r, owners r, multi_leader_rounds r, timeout_config r, ChainOwnership.more r)"])
qed (auto intro: ChainOwnership.equality)

instance ResourceControlPolicy_ext :: (countable) countable
proof (rule countable_classI [of "\<lambda>r. to_nat (block_cost r, fuel_unit r, read_operation r, write_operation r, byte_read r, byte_written r, byte_stored r, operation_cost r, operation_byte r, message_cost r, message_byte r, maximum_fuel_per_block r, maximum_executed_block_size r, maximum_bytes_read_per_block r, maximum_bytes_written_per_block r, ResourceControlPolicy.more r)"])
qed (auto intro: ResourceControlPolicy.equality)

instance ValidatorState_ext :: (countable) countable
proof (rule countable_classI [of "\<lambda>r. to_nat (network_address_of r, votes r, ValidatorState.more r)"])
qed (auto intro: ValidatorState.equality)

instance Committee_ext :: (countable) countable
proof (rule countable_classI [of "\<lambda>r. to_nat (validators r, total_votes r, quorum_threshold r, validity_threshold r, policy r, Committee.Committee.more r)"])
qed (auto intro: Committee.Committee.equality)

instance OpenChainConfig_ext :: (countable) countable
proof (rule countable_classI [of "\<lambda>r. to_nat (oc_ownership r, oc_admin_id r, oc_epoch r, oc_committees r, oc_balance r, oc_application_permissions r, OpenChainConfig.more r)"])
qed (auto intro: OpenChainConfig.equality)

instance Recipient :: countable
  by countable_datatype

instance SystemChannel :: countable
  by countable_datatype

instance UserApplicationDescription_ext :: (countable) countable
proof (rule countable_classI [of "\<lambda>r. to_nat (ad_bytecode_id r, ad_creation r, ad_parameters r, ad_required_application_ids r, UserApplicationDescription.more r)"])
qed (auto intro: UserApplicationDescription.equality)

instance AdminOperation :: countable
  by countable_datatype

instance SystemOperation :: countable
  by countable_datatype

instance SystemMessage :: countable
  by countable_datatype

instance Operation :: countable
  by countable_datatype

instance Message :: countable
  by countable_datatype

instance MessageKind :: countable
  by countable_datatype

instance ChannelFullName_ext :: (countable) countable
proof (rule countable_classI [of "\<lambda>r. to_nat (cfn_application_id r, cfn_name r, ChannelFullName.more r)"])
qed (auto intro: ChannelFullName.equality)

instance Medium :: countable
  by countable_datatype

instance Origin_ext :: (countable) countable
proof (rule countable_classI [of "\<lambda>r. to_nat (sender r, origin_medium r, Origin.more r)"])
qed (auto intro: Origin.equality)

instance OutgoingMessage_ext :: (countable) countable
proof (rule countable_classI [of "\<lambda>r. to_nat (om_destination r, om_authenticated_signer r, om_grant r, om_refund_grant_to r, om_kind r, om_message r, OutgoingMessage.more r)"])
qed (auto intro: OutgoingMessage.equality)

instance PostedMessage_ext :: (countable) countable
proof (rule countable_classI [of "\<lambda>r. to_nat (pm_authenticated_signer r, pm_grant r, pm_refund_grant_to r, pm_kind r, pm_index r, pm_message r, PostedMessage.more r)"])
qed (auto intro: PostedMessage.equality)

instance MessageBundle_ext :: (countable) countable
proof (rule countable_classI [of "\<lambda>r. to_nat (mb_height r, mb_timestamp r, mb_certificate_hash r, mb_transaction_index r, mb_messages r, MessageBundle.more r)"])
qed (auto intro: MessageBundle.equality)

instance MessageAction :: countable
  by countable_datatype

instance IncomingBundle_ext :: (countable) countable
proof (rule countable_classI [of "\<lambda>r. to_nat (ib_origin r, ib_bundle r, ib_action r, IncomingBundle.more r)"])
qed (auto intro: IncomingBundle.equality)

instance Block_ext :: (countable) countable
proof (rule countable_classI [of "\<lambda>r. to_nat (chain_id r, epoch r, incoming_bundles r, operations r, height r, timestamp r, authenticated_signer r, previous_block_hash r, Block.more r)"])
qed (auto intro: Block.equality)

instance StreamId_ext :: (countable) countable
proof (rule countable_classI [of "\<lambda>r. to_nat (st_application_id r, st_stream_name r, StreamId.more r)"])
qed (auto intro: StreamId.equality)

instance EventRecord_ext :: (countable) countable
proof (rule countable_classI [of "\<lambda>r. to_nat (ev_stream_id r, ev_key r, ev_value r, EventRecord.more r)"])
qed (auto intro: EventRecord.equality)

instance BlockExecutionOutcome_ext :: (countable) countable
proof (rule countable_classI [of "\<lambda>r. to_nat (messages r, state_hash r, oracle_responses r, events r, BlockExecutionOutcome.more r)"])
qed (auto intro: BlockExecutionOutcome.equality)

instance ExecutedBlock_ext :: (countable) countable
proof (rule countable_classI [of "\<lambda>r. to_nat (block r, outcome r, ExecutedBlock.more r)"])
qed (auto intro: ExecutedBlock.equality)

instance CertificateValue :: countable
  by countable_datatype

definition ideal_hash :: "CertificateValue \<Rightarrow> CryptoHash" where
  "ideal_hash = to_nat"

lemma inj_ideal_hash: "inj ideal_hash"
  by (simp add: ideal_hash_def)

end
