(* ===== verification/Consensus_Runs.thy ===== *)
theory Consensus_Runs
  imports Consensus Countable_Values
begin

text \<open>
  Executions of the voting protocol with a committee of one honest validator. They show that the
  assumptions of the agreement theorems can be met and that agreement between the fast round and
  the later rounds does not hold: a block confirmed in the fast round is unlocked when the same
  block is proposed again in a later round.
\<close>

definition run_crypto :: Crypto where
  "run_crypto = \<lparr>hash_value = ideal_hash, owner_from = (\<lambda>k. k), sign_content = (\<lambda>_ k. k),
     check_content = (\<lambda>_ p s. p = s), key_public = (\<lambda>k. k), sign = (\<lambda>(h, _) k. h + k),
     sig_check = (\<lambda>(h, _) p s. s = h + p), verify_batch = (\<lambda>(h, _) l. list_all (\<lambda>(p, s). s = h + p) l)\<rparr>"

definition one_validator :: Committee where
  "one_validator = Committee_new [(5, validator_state 1)] policy_default"

definition run_ownership :: "bool \<Rightarrow> ChainOwnership" where
  "run_ownership super = \<lparr>super_owners = (if super then [(10, 10)] else []), owners = [(11, (11, 1))],
     multi_leader_rounds = 2, timeout_config = TimeoutConfig_default\<rparr>"

definition run_block :: "Timestamp \<Rightarrow> Block" where
  "run_block t = \<lparr>chain_id = 3, epoch = 0, incoming_bundles = [], operations = [System_op Op_CloseChain],
     height = 0, timestamp = t, authenticated_signer = None, previous_block_hash = None\<rparr>"

definition run_outcome :: BlockExecutionOutcome where
  "run_outcome = \<lparr>messages = [[]], state_hash = 0, oracle_responses = [[]], events = [[]]\<rparr>"

definition run_executed :: "Timestamp \<Rightarrow> ExecutedBlock" where
  "run_executed t = outcome_with run_outcome (run_block t)"

definition run_proposal :: "Round \<Rightarrow> Timestamp \<Rightarrow> Owner \<Rightarrow> BlockProposal" where
  "run_proposal r t owner = \<lparr>content = \<lparr>pc_block = run_block t, pc_round = r, pc_forced_oracle_responses = None\<rparr>,
     prop_owner = owner, prop_signature = 0, prop_blobs = [], validated_block_certificate = None\<rparr>"

definition run_cert :: "CertificateValue \<Rightarrow> Round \<Rightarrow> Certificate" where
  "run_cert v r = \<lparr>cert_value = with_hash run_crypto v, cert_round = r,
     cert_signatures = [(5, ideal_hash v + 5)]\<rparr>"

definition run_manager :: "bool \<Rightarrow> ChainManager" where
  "run_manager super = \<lparr>m_ownership = run_ownership super, m_seed = 0, m_distribution = Some [1],
     m_fallback_distribution = None, m_proposed = None, m_locked = None, m_timeout = None,
     m_pending = None, m_timeout_vote = None, m_fallback_vote = None, m_round_timeout = None,
     m_current_round = first_round (run_ownership super), m_fallback_owners = [], m_pending_blobs = Map.empty\<rparr>"

definition run_start :: "bool \<Rightarrow> System" where
  "run_start super = \<lparr>managers = (\<lambda>_. run_manager super), vote_log = (\<lambda>_. {})\<rparr>"

definition run_vote :: "Round \<Rightarrow> Timestamp \<Rightarrow> Owner \<Rightarrow> System \<Rightarrow> System" where
  "run_vote r t owner S =
     publish 5 (create_vote run_crypto (managers S 5) (run_proposal r t owner) run_outcome (Some 5) 0) S"

definition run_confirm :: "Round \<Rightarrow> Timestamp \<Rightarrow> System \<Rightarrow> System" where
  "run_confirm r t S =
     publish 5 (create_final_vote run_crypto (managers S 5) (run_cert (ValidatedBlock (run_executed t)) r) (Some 5) 0) S"

abbreviation run_reachable :: "bool \<Rightarrow> System \<Rightarrow> bool" where
  "run_reachable super \<equiv> reachable run_crypto one_validator {5} (\<lambda>_. 5) (run_ownership super)"

section \<open>Facts shared by the executions\<close>

lemma one_validator_wf: "committee_wf one_validator"
  by (simp add: committee_wf_def one_validator_def Committee_new_def Let_def exact_total_def
      validator_state_def bt_ok_def)

lemma one_validator_members: "committee_members one_validator = {5}"
  by (simp add: committee_members_def one_validator_def Committee_new_def Let_def)

lemma run_setting: "good_setting run_crypto one_validator {5}"
  by (simp add: good_setting_def one_validator_wf one_validator_members run_crypto_def inj_ideal_hash)

lemma run_cert_check:
  "Certificate_check run_crypto (run_cert v r) one_validator = Inr (cert_value (run_cert v r))"
  by (simp add: Certificate_check_def check_signatures_def run_cert_def one_validator_def Committee_new_def
      Let_def weight_def validator_state_def run_crypto_def lite_value_def with_hash_def word_le_nat_alt
      unat_div_distrib)

lemma run_cert_valid:
  assumes "x \<in> vote_log S 5" "val_of x = v" "vote_round x = r" "well_hashed run_crypto (vote_value x)"
  shows "valid_cert run_crypto one_validator {5} S (run_cert v r)"
  unfolding valid_cert_def
proof (intro conjI run_cert_check)
  show "well_hashed run_crypto (cert_value (run_cert v r))"
    by (simp add: run_cert_def)
  show "unforged {5} S (hv_hash (cert_value (run_cert v r))) (cert_round (run_cert v r)) (cert_signatures (run_cert v r))"
    using assms by (auto simp: unforged_def run_cert_def well_hashed_def)
qed

lemma run_vote_step:
  assumes "run_reachable super S"
    and "check_proposed_block (managers S 5) (run_proposal r t owner) = Inr Outcome_Accept"
  shows "run_reachable super (run_vote r t owner S)"
proof -
  have "system_step run_crypto one_validator {5} (\<lambda>_. 5) S (run_vote r t owner S)"
    unfolding run_vote_def using assms(2)
    by (intro system_step.vote_proposal) (simp_all add: run_proposal_def)
  with assms(1) show ?thesis by (rule reachable.step)
qed

lemma run_confirm_step:
  assumes "run_reachable super S"
    and "valid_cert run_crypto one_validator {5} S (run_cert (ValidatedBlock (run_executed t)) r)"
    and "check_validated_block (managers S 5) (run_cert (ValidatedBlock (run_executed t)) r) = Inr Outcome_Accept"
  shows "run_reachable super (run_confirm r t S)"
proof -
  have "system_step run_crypto one_validator {5} (\<lambda>_. 5) S (run_confirm r t S)"
    unfolding run_confirm_def using assms(2,3)
    by (intro system_step.vote_validated) (simp_all add: run_cert_def)
  with assms(1) show ?thesis by (rule reachable.step)
qed

lemma run_start_reachable: "run_reachable super (run_start super)"
  by (rule reachable.start) (simp add: run_start_def fresh_manager_def run_manager_def votes_of_def)

lemma run_proposal_simps [simp]:
  "pc_round (content (run_proposal r t o')) = r" "pc_block (content (run_proposal r t o')) = run_block t"
  "prop_owner (run_proposal r t o') = o'" "validated_block_certificate (run_proposal r t o') = None"
  by (simp_all add: run_proposal_def)

lemma run_vote_fields [simp]:
  "m_ownership (managers (run_vote r t o' S) 5) = m_ownership (managers S 5)"
  "m_proposed (managers (run_vote r t o' S) 5) = Some (run_proposal r t o')"
  "m_locked (managers (run_vote r t o' S) 5) = m_locked (managers S 5)"
  "m_timeout (managers (run_vote r t o' S) 5) = m_timeout (managers S 5)"
  "m_pending (managers (run_vote r t o' S) 5)
    = Some (Vote_new run_crypto ((if is_fast r then new_confirmed else new_validated) run_crypto (run_executed t)) r 5)"
  "m_current_round (managers (run_vote r t o' S) 5)
    = m_current_round (update_current_round ((managers S 5)\<lparr>m_proposed := Some (run_proposal r t o')\<rparr>) 0)"
  by (simp_all add: run_vote_def publish_def create_vote_def Let_def run_executed_def)

lemma run_vote_log [simp]:
  "insert (Vote_new run_crypto ((if is_fast r then new_confirmed else new_validated) run_crypto (run_executed t)) r 5)
     (vote_log S 5) \<subseteq> vote_log (run_vote r t o' S) 5"
  by (auto simp: run_vote_def publish_def votes_of_def create_vote_fields run_executed_def)

lemma run_confirm_log:
  assumes "m_current_round (managers S 5) \<le> r"
  shows "insert (Vote_new run_crypto (new_confirmed run_crypto (run_executed t)) r 5) (vote_log S 5)
     \<subseteq> vote_log (run_confirm r t S) 5"
  using assms
  by (auto simp: run_confirm_def publish_def votes_of_def create_final_vote_def Let_def run_cert_def
      validated_to_confirmed_def new_confirmed_def not_less [symmetric])

lemma run_start_fields [simp]:
  "managers (run_start super) 5 = run_manager super" "vote_log (run_start super) 5 = {}"
  by (simp_all add: run_start_def)

lemma run_manager_fields [simp]:
  "m_ownership (run_manager super) = run_ownership super" "m_proposed (run_manager super) = None"
  "m_locked (run_manager super) = None" "m_timeout (run_manager super) = None"
  "m_current_round (run_manager super) = (if super then Fast else MultiLeader 0)"
  by (simp_all add: run_manager_def run_ownership_def first_round_def)

lemma run_first_round [simp]: "first_round (run_ownership super) = (if super then Fast else MultiLeader 0)"
  by (simp add: run_ownership_def first_round_def)

lemma run_block_height [simp]: "height (run_block t) < num_max"
  by (simp add: run_block_def num_max_def word_gt_0)

lemma run_block_eq [simp]: "run_block t = run_block t' \<longleftrightarrow> t = t'"
  by (simp add: run_block_def)

lemma run_executed_eq [simp]: "run_executed t = run_executed t' \<longleftrightarrow> t = t'"
  by (simp add: run_executed_def outcome_with_def)

section \<open>Two confirmed blocks\<close>

definition conflict_1 :: System where
  "conflict_1 = run_vote Fast 1 10 (run_start True)"

definition conflict_2 :: System where
  "conflict_2 = run_vote (MultiLeader 0) 1 10 conflict_1"

definition conflict_3 :: System where
  "conflict_3 = run_vote (MultiLeader 1) 2 11 conflict_2"

definition conflict_4 :: System where
  "conflict_4 = run_confirm (MultiLeader 1) 2 conflict_3"

lemma run_is_super: "is_super m o' \<longleftrightarrow> o' = 10" if "m_ownership m = run_ownership True"
  using that by (simp add: is_super_def run_ownership_def)

lemma conflict_rounds:
  "m_current_round (managers conflict_1 5) = Fast"
  "m_current_round (managers conflict_2 5) = MultiLeader 0"
  "m_current_round (managers conflict_3 5) = MultiLeader 1"
  by (simp_all add: conflict_1_def conflict_2_def conflict_3_def update_current_round_round round_candidates_def
      max_def)

lemma conflict_fields:
  "m_ownership (managers conflict_1 5) = run_ownership True" "m_ownership (managers conflict_2 5) = run_ownership True"
  "m_proposed (managers conflict_1 5) = Some (run_proposal Fast 1 10)"
  "m_proposed (managers conflict_2 5) = Some (run_proposal (MultiLeader 0) 1 10)"
  "m_locked (managers conflict_1 5) = None" "m_locked (managers conflict_2 5) = None"
  "m_locked (managers conflict_3 5) = None"
  "m_pending (managers conflict_3 5)
    = Some (Vote_new run_crypto (new_validated run_crypto (run_executed 2)) (MultiLeader 1) 5)"
  by (simp_all add: conflict_1_def conflict_2_def conflict_3_def)

lemmas conflict_simps = check_proposed_block_def expected_round_def run_is_super conflict_rounds conflict_fields
  Let_def

lemma conflict_reachable: "run_reachable True conflict_3"
proof -
  have "run_reachable True conflict_1"
    unfolding conflict_1_def
    by (rule run_vote_step [OF run_start_reachable]) (simp add: conflict_simps)
  then have "run_reachable True conflict_2"
    unfolding conflict_2_def
    by (rule run_vote_step) (simp add: conflict_simps, simp add: run_proposal_def)
  then show ?thesis
    unfolding conflict_3_def
    by (rule run_vote_step) (simp add: conflict_simps, simp add: run_proposal_def)
qed

lemma conflict_votes:
  "Vote_new run_crypto (new_validated run_crypto (run_executed 2)) (MultiLeader 1) 5 \<in> vote_log conflict_3 5"
  "Vote_new run_crypto (new_confirmed run_crypto (run_executed 1)) Fast 5 \<in> vote_log conflict_3 5"
  using run_vote_log [of Fast 1 "run_start True" 10] run_vote_log [of "MultiLeader 0" 1 conflict_1 10]
    run_vote_log [of "MultiLeader 1" 2 conflict_2 11]
  by (auto simp flip: conflict_1_def conflict_2_def conflict_3_def)

lemma conflict_4_reachable: "run_reachable True conflict_4"
  unfolding conflict_4_def
proof (rule run_confirm_step [OF conflict_reachable])
  show "valid_cert run_crypto one_validator {5} conflict_3 (run_cert (ValidatedBlock (run_executed 2)) (MultiLeader 1))"
    by (rule run_cert_valid [OF conflict_votes(1)]) simp_all
  show "check_validated_block (managers conflict_3 5) (run_cert (ValidatedBlock (run_executed 2)) (MultiLeader 1))
      = Inr Outcome_Accept"
    by (simp add: check_validated_block_def conflict_fields run_cert_def Let_def)
qed

text \<open>C36. Agreement fails between the fast round and later rounds, with no faulty validator at all.
  A super owner's block is confirmed in the fast round; when the super owner proposes the same block
  again in the first multi-leader round, the manager forgets that the fast block is locked, and then
  accepts, validates and confirms a different block proposed by another owner. Two valid
  certificates confirm different blocks at the same height.\<close>

theorem fast_block_lock_is_lost:
  "\<exists>cr c key own S C1 C2 eb1 eb2.
     good_setting cr c (committee_members c) \<and> reachable cr c (committee_members c) key own S
     \<and> valid_cert cr c (committee_members c) S C1 \<and> hv_value (cert_value C1) = ConfirmedBlock eb1
     \<and> valid_cert cr c (committee_members c) S C2 \<and> hv_value (cert_value C2) = ConfirmedBlock eb2
     \<and> height (block eb1) = height (block eb2) \<and> block eb1 \<noteq> block eb2"
proof -
  have log: "insert (Vote_new run_crypto (new_confirmed run_crypto (run_executed 2)) (MultiLeader 1) 5)
      (vote_log conflict_3 5) \<subseteq> vote_log conflict_4 5"
    unfolding conflict_4_def by (rule run_confirm_log) (simp add: conflict_rounds)
  have C1: "valid_cert run_crypto one_validator {5} conflict_4 (run_cert (ConfirmedBlock (run_executed 1)) Fast)"
    using log conflict_votes(2)
    by (intro run_cert_valid [of "Vote_new run_crypto (new_confirmed run_crypto (run_executed 1)) Fast 5"]) auto
  have C2: "valid_cert run_crypto one_validator {5} conflict_4
      (run_cert (ConfirmedBlock (run_executed 2)) (MultiLeader 1))"
    using log
    by (intro run_cert_valid [of "Vote_new run_crypto (new_confirmed run_crypto (run_executed 2)) (MultiLeader 1) 5"]) auto
  have "height (block (run_executed 1)) = height (block (run_executed 2))"
    "block (run_executed 1) \<noteq> block (run_executed 2)"
    by (simp_all add: run_executed_def outcome_with_def run_block_def)
  with run_setting conflict_4_reachable C1 C2 show ?thesis
    by (intro exI [of _ run_crypto] exI [of _ one_validator] exI [of _ "\<lambda>_. 5"] exI [of _ "run_ownership True"]
        exI [of _ conflict_4] exI [of _ "run_cert (ConfirmedBlock (run_executed 1)) Fast"]
        exI [of _ "run_cert (ConfirmedBlock (run_executed 2)) (MultiLeader 1)"]
        exI [of _ "run_executed 1"] exI [of _ "run_executed 2"])
      (simp add: one_validator_members, simp add: run_cert_def)
qed

section \<open>The same block confirmed in two rounds\<close>

text \<open>Without super owner: a block is confirmed in the first multi-leader round, proposed again with
  its validated-block certificate in the second one, and confirmed there as well.\<close>

definition retry_proposal :: BlockProposal where
  "retry_proposal = (run_proposal (MultiLeader 1) 1 11)\<lparr>
     content := \<lparr>pc_block = run_block 1, pc_round = MultiLeader 1, pc_forced_oracle_responses = Some [[]]\<rparr>,
     validated_block_certificate := Some (lite_certificate (run_cert (ValidatedBlock (run_executed 1)) (MultiLeader 0)))\<rparr>"

definition agree_1 :: System where
  "agree_1 = run_vote (MultiLeader 0) 1 11 (run_start False)"

definition agree_2 :: System where
  "agree_2 = run_confirm (MultiLeader 0) 1 agree_1"

definition agree_3 :: System where
  "agree_3 = publish 5 (create_vote run_crypto (managers agree_2 5) retry_proposal run_outcome (Some 5) 0) agree_2"

definition agree_4 :: System where
  "agree_4 = run_confirm (MultiLeader 1) 1 agree_3"

lemma retry_simps [simp]:
  "pc_round (content retry_proposal) = MultiLeader 1" "pc_block (content retry_proposal) = run_block 1"
  "validated_block_certificate retry_proposal
    = Some (lite_certificate (run_cert (ValidatedBlock (run_executed 1)) (MultiLeader 0)))"
  by (simp_all add: retry_proposal_def)

lemma agree_1_fields:
  "m_ownership (managers agree_1 5) = run_ownership False" "m_locked (managers agree_1 5) = None"
  "m_proposed (managers agree_1 5) = Some (run_proposal (MultiLeader 0) 1 11)" "m_timeout (managers agree_1 5) = None"
  "m_pending (managers agree_1 5)
    = Some (Vote_new run_crypto (new_validated run_crypto (run_executed 1)) (MultiLeader 0) 5)"
  "m_current_round (managers agree_1 5) = MultiLeader 0"
  by (simp_all add: agree_1_def update_current_round_round round_candidates_def)

lemma agree_2_manager:
  "managers agree_2 5 = (update_current_round ((managers agree_1 5)
      \<lparr>m_locked := Some (run_cert (ValidatedBlock (run_executed 1)) (MultiLeader 0))\<rparr>) 0)
      \<lparr>m_pending := Some (Vote_new run_crypto (new_confirmed run_crypto (run_executed 1)) (MultiLeader 0) 5)\<rparr>"
  by (simp add: agree_2_def run_confirm_def publish_def create_final_vote_def agree_1_fields Let_def run_cert_def
      validated_to_confirmed_def new_confirmed_def)

lemma agree_2_fields:
  "m_ownership (managers agree_2 5) = run_ownership False" "m_timeout (managers agree_2 5) = None"
  "m_locked (managers agree_2 5) = Some (run_cert (ValidatedBlock (run_executed 1)) (MultiLeader 0))"
  "m_proposed (managers agree_2 5) = Some (run_proposal (MultiLeader 0) 1 11)"
  "m_current_round (managers agree_2 5) = MultiLeader 0"
  by (simp_all add: agree_2_manager agree_1_fields update_current_round_round round_candidates_def run_cert_def)

lemma agree_logs:
  "Vote_new run_crypto (new_validated run_crypto (run_executed 1)) (MultiLeader 0) 5 \<in> vote_log agree_1 5"
  "vote_log agree_1 5 \<subseteq> vote_log agree_2 5"
  "Vote_new run_crypto (new_confirmed run_crypto (run_executed 1)) (MultiLeader 0) 5 \<in> vote_log agree_2 5"
  "vote_log agree_2 5 \<subseteq> vote_log agree_3 5"
  "Vote_new run_crypto (new_validated run_crypto (run_executed 1)) (MultiLeader 1) 5 \<in> vote_log agree_3 5"
  using run_vote_log [of "MultiLeader 0" 1 "run_start False" 11]
    run_confirm_log [of agree_1 "MultiLeader 0" 1]
  by (simp_all add: agree_1_fields agree_3_def publish_def votes_of_def create_vote_fields run_executed_def
      flip: agree_1_def agree_2_def) blast

lemma agree_cert_valid:
  "valid_cert run_crypto one_validator {5} agree_1 (run_cert (ValidatedBlock (run_executed 1)) (MultiLeader 0))"
  "valid_cert run_crypto one_validator {5} agree_2 (run_cert (ValidatedBlock (run_executed 1)) (MultiLeader 0))"
  "valid_cert run_crypto one_validator {5} agree_3 (run_cert (ValidatedBlock (run_executed 1)) (MultiLeader 1))"
  using agree_logs by (auto intro: run_cert_valid)

lemma lite_certificate_valid:
  "valid_cert cr c honest S cert \<Longrightarrow> valid_lite cr c honest S (lite_certificate cert)"
  by (auto simp: valid_cert_def valid_lite_def lite_certificate_def lite_value_def Certificate_check_def
      LiteCertificate_check_def result_simps)

lemma agree_2_reachable: "run_reachable False agree_2"
proof -
  have "run_reachable False agree_1"
    unfolding agree_1_def
    by (rule run_vote_step [OF run_start_reachable]) (simp add: check_proposed_block_def expected_round_def Let_def)
  then show ?thesis
    unfolding agree_2_def
    by (rule run_confirm_step [OF _ agree_cert_valid(1)])
      (simp add: check_validated_block_def agree_1_fields run_cert_def Let_def)
qed

lemma agree_3_reachable: "run_reachable False agree_3"
proof -
  let ?eb = "outcome_with run_outcome (pc_block (content retry_proposal))"
  have nxt: "next_round (run_ownership False) (MultiLeader 0) = Some (MultiLeader 1)"
    by (simp add: next_round_def run_ownership_def checked_add_def)
  have "system_step run_crypto one_validator {5} (\<lambda>_. 5) agree_2 agree_3"
    unfolding agree_3_def
  proof (rule system_step.vote_proposal)
    show "check_proposed_block (managers agree_2 5) retry_proposal = Inr Outcome_Accept"
      by (simp add: check_proposed_block_def expected_round_def agree_2_fields Let_def lite_certificate_def
          run_cert_def nxt max_def) (simp add: retry_proposal_def run_proposal_def)
    show "valid_lite run_crypto one_validator {5} agree_2 lc
        \<and> LiteCertificate_with_value lc (new_validated run_crypto ?eb) \<noteq> None"
      if "validated_block_certificate retry_proposal = Some lc" for lc
      using that lite_certificate_valid [OF agree_cert_valid(2)]
      by (auto simp: LiteCertificate_with_value_def lite_certificate_def lite_value_def run_cert_def
          run_executed_def new_validated_def)
  qed simp
  with agree_2_reachable show ?thesis by (rule reachable.step)
qed

lemma agree_3_fields:
  "m_locked (managers agree_3 5) = Some (run_cert (ValidatedBlock (run_executed 1)) (MultiLeader 0))"
  "m_pending (managers agree_3 5)
    = Some (Vote_new run_crypto (new_validated run_crypto (run_executed 1)) (MultiLeader 1) 5)"
  "m_current_round (managers agree_3 5) = MultiLeader 1"
  by (simp_all add: agree_3_def publish_def create_vote_fields create_vote_locked agree_2_fields run_executed_def
      lite_certificate_def run_cert_def update_current_round_round round_candidates_def max_def)

lemma agree_4_run:
  "run_reachable False agree_4"
  "valid_cert run_crypto one_validator {5} agree_4 (run_cert (ConfirmedBlock (run_executed 1)) (MultiLeader 0))"
  "valid_cert run_crypto one_validator {5} agree_4 (run_cert (ConfirmedBlock (run_executed 1)) (MultiLeader 1))"
proof -
  show "run_reachable False agree_4"
    unfolding agree_4_def
    by (rule run_confirm_step [OF agree_3_reachable agree_cert_valid(3)])
      (simp add: check_validated_block_def agree_3_fields run_cert_def Let_def)
  have "insert (Vote_new run_crypto (new_confirmed run_crypto (run_executed 1)) (MultiLeader 1) 5)
      (vote_log agree_3 5) \<subseteq> vote_log agree_4 5"
    unfolding agree_4_def by (rule run_confirm_log) (simp add: agree_3_fields)
  then have log: "Vote_new run_crypto (new_confirmed run_crypto (run_executed 1)) r 5 \<in> vote_log agree_4 5"
    if "r = MultiLeader 0 \<or> r = MultiLeader 1" for r
    using that agree_logs(3,4) by auto
  show "valid_cert run_crypto one_validator {5} agree_4 (run_cert (ConfirmedBlock (run_executed 1)) (MultiLeader 0))"
    by (rule run_cert_valid [OF log]) simp_all
  show "valid_cert run_crypto one_validator {5} agree_4 (run_cert (ConfirmedBlock (run_executed 1)) (MultiLeader 1))"
    by (rule run_cert_valid [OF log]) simp_all
qed



end
