(* ===== verification/Inbox.thy ===== *)
theory Inbox
  imports Chain_Types
begin

text \<open>
  The inbox of a chain for one origin (\<^verbatim>\<open>linera-chain/src/inbox.rs\<close>). The two queues are lists,
  front first. Storage failures are not modelled; a failing operation returns its error together
  with the state it leaves behind.

  The main result characterises the inbox completely: whatever the interleaving of \<open>add_bundle\<close>
  and \<open>remove_bundle\<close>, the operations succeed exactly when the added and the removed bundles are
  consistent with each other, and the state is then a function of those two sequences.
\<close>

section \<open>Cursors\<close>

datatype Cursor = Cursor (cur_height: BlockHeight) (cur_index: u32)

instantiation Cursor :: linorder
begin

definition less_eq_Cursor :: "Cursor \<Rightarrow> Cursor \<Rightarrow> bool" where
  "less_eq_Cursor a b \<longleftrightarrow>
     cur_height a < cur_height b \<or> cur_height a = cur_height b \<and> cur_index a \<le> cur_index b"

definition less_Cursor :: "Cursor \<Rightarrow> Cursor \<Rightarrow> bool" where
  "less_Cursor a b \<longleftrightarrow>
     cur_height a < cur_height b \<or> cur_height a = cur_height b \<and> cur_index a < cur_index b"

instance
proof
  fix x y z :: Cursor
  show "x < y \<longleftrightarrow> x \<le> y \<and> \<not> y \<le> x" "x \<le> x" "x \<le> y \<or> y \<le> x"
    by (auto simp: less_eq_Cursor_def less_Cursor_def)
  show "x \<le> y \<Longrightarrow> y \<le> z \<Longrightarrow> x \<le> z"
    by (auto simp: less_eq_Cursor_def)
  show "x \<le> y \<Longrightarrow> y \<le> x \<Longrightarrow> x = y"
    by (cases x; cases y) (auto simp: less_eq_Cursor_def)
qed

end

definition Cursor_default :: Cursor where
  "Cursor_default = Cursor 0 0"

definition Cursor_from :: "MessageBundle \<Rightarrow> Cursor" where
  "Cursor_from bundle = Cursor (mb_height bundle) (mb_transaction_index bundle)"

definition Cursor_try_add_one :: "Cursor \<Rightarrow> ArithmeticError + Cursor" where
  "Cursor_try_add_one self =
     bind_r (ok_or (checked_add (cur_index self) 1) Overflow) (\<lambda>index. Inr (Cursor (cur_height self) index))"

section \<open>State and operations\<close>

record InboxStateView =
  next_cursor_to_add :: Cursor
  next_cursor_to_remove :: Cursor
  added_bundles :: "MessageBundle list"
  removed_bundles :: "MessageBundle list"

datatype InboxError =
    Inbox_ArithmeticError ArithmeticError
  | UnexpectedBundle MessageBundle MessageBundle
  | IncorrectOrder MessageBundle Cursor
  | UnskippableBundle MessageBundle

definition InboxStateView_new :: InboxStateView where
  "InboxStateView_new = \<lparr>next_cursor_to_add = Cursor_default, next_cursor_to_remove = Cursor_default,
     added_bundles = [], removed_bundles = []\<rparr>"

fun ChainError_from_inbox :: "ChainId \<Rightarrow> Origin \<Rightarrow> InboxError \<Rightarrow> ChainError" where
  "ChainError_from_inbox cid origin (Inbox_ArithmeticError e) = Chain_ArithmeticError e"
| "ChainError_from_inbox cid origin (UnexpectedBundle bundle previous_bundle) =
     UnexpectedMessage cid origin bundle previous_bundle"
| "ChainError_from_inbox cid origin (IncorrectOrder bundle next_cursor) =
     IncorrectMessageOrder cid origin bundle (cur_height next_cursor) (cur_index next_cursor)"
| "ChainError_from_inbox cid origin (UnskippableBundle bundle) = CannotSkipMessage cid origin bundle"

definition next_block_height_to_receive :: "InboxStateView \<Rightarrow> ArithmeticError + BlockHeight" where
  "next_block_height_to_receive self =
     (let cursor = next_cursor_to_add self in
      if cur_index cursor = 0 then Inr (cur_height cursor) else try_add_one (cur_height cursor))"

text \<open>The loop that discards added bundles with lower cursors: the remaining queue, and the first
  bundle that cannot be skipped, if any.\<close>

fun discard_lower :: "Cursor \<Rightarrow> MessageBundle list \<Rightarrow> MessageBundle option \<times> MessageBundle list" where
  "discard_lower cursor [] = (None, [])"
| "discard_lower cursor (previous_bundle # rest) =
     (if cursor \<le> Cursor_from previous_bundle then (None, previous_bundle # rest)
      else if \<not> is_skippable previous_bundle then (Some previous_bundle, previous_bundle # rest)
      else discard_lower cursor rest)"

definition finish_remove ::
  "Cursor \<Rightarrow> bool \<Rightarrow> InboxStateView \<Rightarrow> (InboxError + bool) \<times> InboxStateView" where
  "finish_remove cursor already_known self =
     (case Cursor_try_add_one cursor of
        Inl e \<Rightarrow> (Inl (Inbox_ArithmeticError e), self)
      | Inr next_cursor \<Rightarrow> (Inr already_known, self\<lparr>next_cursor_to_remove := next_cursor\<rparr>))"

definition remove_bundle ::
  "InboxStateView \<Rightarrow> MessageBundle \<Rightarrow> (InboxError + bool) \<times> InboxStateView" where
  "remove_bundle self bundle =
     (let cursor = Cursor_from bundle in
      if cursor < next_cursor_to_remove self
      then (Inl (IncorrectOrder bundle (next_cursor_to_remove self)), self)
      else case discard_lower cursor (added_bundles self) of
        (Some previous_bundle, rest) \<Rightarrow>
          (Inl (UnskippableBundle previous_bundle), self\<lparr>added_bundles := rest\<rparr>)
      | (None, previous_bundle # rest) \<Rightarrow>
          if bundle \<noteq> previous_bundle
          then (Inl (UnexpectedBundle bundle previous_bundle),
                self\<lparr>added_bundles := previous_bundle # rest\<rparr>)
          else finish_remove cursor True (self\<lparr>added_bundles := rest\<rparr>)
      | (None, []) \<Rightarrow>
          finish_remove cursor False
            (self\<lparr>added_bundles := [], removed_bundles := removed_bundles self @ [bundle]\<rparr>))"

definition finish_add ::
  "Cursor \<Rightarrow> bool \<Rightarrow> InboxStateView \<Rightarrow> (InboxError + bool) \<times> InboxStateView" where
  "finish_add cursor newly_added self =
     (case Cursor_try_add_one cursor of
        Inl e \<Rightarrow> (Inl (Inbox_ArithmeticError e), self)
      | Inr next_cursor \<Rightarrow> (Inr newly_added, self\<lparr>next_cursor_to_add := next_cursor\<rparr>))"

definition add_bundle ::
  "InboxStateView \<Rightarrow> MessageBundle \<Rightarrow> (InboxError + bool) \<times> InboxStateView" where
  "add_bundle self bundle =
     (let cursor = Cursor_from bundle in
      if cursor < next_cursor_to_add self
      then (Inl (IncorrectOrder bundle (next_cursor_to_add self)), self)
      else case removed_bundles self of
        previous_bundle # rest \<Rightarrow>
          if Cursor_from previous_bundle = cursor
          then (if bundle \<noteq> previous_bundle then (Inl (UnexpectedBundle bundle previous_bundle), self)
                else finish_add cursor False (self\<lparr>removed_bundles := rest\<rparr>))
          else (if \<not> (cursor < Cursor_from previous_bundle \<and> is_skippable bundle)
                then (Inl (UnexpectedBundle bundle previous_bundle), self)
                else finish_add cursor False self)
      | [] \<Rightarrow> finish_add cursor True (self\<lparr>added_bundles := added_bundles self @ [bundle]\<rparr>))"

section \<open>Abstract specification\<close>

text \<open>
  An inbox is determined by the bundles added so far and the bundles removed so far, both in
  order. \<open>inbox_of\<close> computes the state from them; \<open>consistent\<close> says when they fit together: a
  bundle removed below the frontier of the added ones is one of them, and an added bundle below
  the frontier of the removed ones was removed or may be skipped.
\<close>

definition cur_succ :: "Cursor \<Rightarrow> Cursor" where
  "cur_succ c = Cursor (cur_height c) (cur_index c + 1)"

definition frontier :: "MessageBundle list \<Rightarrow> Cursor" where
  "frontier bs = (if bs = [] then Cursor_default else cur_succ (Cursor_from (last bs)))"

definition ordered :: "MessageBundle list \<Rightarrow> bool" where
  "ordered bs \<longleftrightarrow> sorted_wrt (\<lambda>a b. Cursor_from a < Cursor_from b) bs
     \<and> list_all (\<lambda>b. mb_transaction_index b \<noteq> num_max) bs"

definition consistent :: "MessageBundle list \<Rightarrow> MessageBundle list \<Rightarrow> bool" where
  "consistent added removed \<longleftrightarrow> ordered added \<and> ordered removed
     \<and> list_all (\<lambda>b. Cursor_from b < frontier removed \<longrightarrow> b \<in> set removed \<or> is_skippable b) added
     \<and> list_all (\<lambda>b. Cursor_from b < frontier added \<longrightarrow> b \<in> set added) removed"

definition inbox_of :: "MessageBundle list \<Rightarrow> MessageBundle list \<Rightarrow> InboxStateView" where
  "inbox_of added removed =
     \<lparr>next_cursor_to_add = frontier added, next_cursor_to_remove = frontier removed,
      added_bundles = filter (\<lambda>b. frontier removed \<le> Cursor_from b) added,
      removed_bundles = filter (\<lambda>b. frontier added \<le> Cursor_from b) removed\<rparr>"

lemma Cursor_default_le [simp]: "Cursor_default \<le> c"
  by (cases c) (auto simp: Cursor_default_def less_eq_Cursor_def word_neq_0_conv order_neq_le_trans)

lemma num_max_eq: "(num_max :: 'a::len word) = - 1"
  by (simp add: num_max_def)

lemma Cursor_try_add_one_from:
  "Cursor_try_add_one (Cursor_from b) =
     (if mb_transaction_index b = num_max then Inl Overflow else Inr (cur_succ (Cursor_from b)))"
  by (simp add: Cursor_try_add_one_def Cursor_from_def cur_succ_def checked_add_one)

lemma cur_succ_le_iff:
  "mb_transaction_index b \<noteq> num_max \<Longrightarrow> cur_succ (Cursor_from b) \<le> c \<longleftrightarrow> Cursor_from b < c"
  by (auto simp: cur_succ_def Cursor_from_def less_eq_Cursor_def less_Cursor_def succ_le_word)

lemma ordered_Nil [simp]: "ordered []"
  by (simp add: ordered_def)

lemma ordered_snoc:
  "ordered (bs @ [b]) \<longleftrightarrow>
     ordered bs \<and> (\<forall>a \<in> set bs. Cursor_from a < Cursor_from b) \<and> mb_transaction_index b \<noteq> num_max"
  by (auto simp: ordered_def sorted_wrt_append)

text \<open>The frontier of an ordered sequence is the least cursor above all its bundles.\<close>

lemma frontier_le_iff:
  assumes "ordered bs"
  shows "frontier bs \<le> c \<longleftrightarrow> (\<forall>b \<in> set bs. Cursor_from b < c)"
proof (cases bs rule: rev_cases)
  case (snoc as b)
  then show ?thesis
    using assms by (auto simp: frontier_def ordered_snoc cur_succ_le_iff)
qed (simp add: frontier_def)

lemma less_frontier: "ordered bs \<Longrightarrow> b \<in> set bs \<Longrightarrow> Cursor_from b < frontier bs"
  using frontier_le_iff [of bs "frontier bs"] by simp

lemma frontier_snoc_le_iff:
  "mb_transaction_index b \<noteq> num_max \<Longrightarrow> frontier (bs @ [b]) \<le> c \<longleftrightarrow> Cursor_from b < c"
  by (simp add: frontier_def cur_succ_le_iff)

lemma less_frontier_snoc_iff:
  "mb_transaction_index b \<noteq> num_max \<Longrightarrow> c < frontier (bs @ [b]) \<longleftrightarrow> c \<le> Cursor_from b"
  by (metis frontier_snoc_le_iff not_le)

lemma sorted_filter_Cons:
  fixes f :: "'a \<Rightarrow> 'b::linorder"
  assumes "sorted_wrt (\<lambda>a b. f a < f b) bs" and "filter P bs = p # rest"
  shows "p \<in> set bs" and "P p" and "\<And>r. r \<in> set bs \<Longrightarrow> P r \<Longrightarrow> r = p \<or> f p < f r"
    and "(\<And>r. r \<in> set bs \<Longrightarrow> f p < f r \<Longrightarrow> P r) \<Longrightarrow> filter (\<lambda>r. f p < f r) bs = rest"
proof -
  have s: "sorted_wrt (\<lambda>a b. f a < f b) (p # rest)"
    using assms by (metis sorted_wrt_filter)
  have mem: "r \<in> set (p # rest) \<longleftrightarrow> r \<in> set bs \<and> P r" for r
    using assms(2) by (metis mem_Collect_eq set_filter)
  show "p \<in> set bs" "P p" using mem [of p] by auto
  show "r \<in> set bs \<Longrightarrow> P r \<Longrightarrow> r = p \<or> f p < f r" for r
    using mem [of r] s by auto
  assume imp: "\<And>r. r \<in> set bs \<Longrightarrow> f p < f r \<Longrightarrow> P r"
  have "filter (\<lambda>r. f p < f r) bs = filter (\<lambda>r. f p < f r) (filter P bs)"
    using imp by (auto intro!: filter_cong)
  also have "\<dots> = rest"
    using s by (auto simp: assms(2) intro!: filter_True)
  finally show "filter (\<lambda>r. f p < f r) bs = rest" .
qed

lemma discard_lower_cases:
  assumes "sorted_wrt (\<lambda>a b. Cursor_from a < Cursor_from b) bs"
  shows "(\<exists>p rest. discard_lower c bs = (Some p, rest) \<and> p \<in> set bs \<and> Cursor_from p < c \<and> \<not> is_skippable p)
    \<or> discard_lower c bs = (None, filter (\<lambda>b. c \<le> Cursor_from b) bs)
      \<and> (\<forall>b \<in> set bs. Cursor_from b < c \<longrightarrow> is_skippable b)"
  using assms
proof (induction c bs rule: discard_lower.induct)
  case (2 c p rest)
  show ?case
  proof (cases "c \<le> Cursor_from p")
    case True
    moreover from this have "filter (\<lambda>b. c \<le> Cursor_from b) rest = rest"
      using 2(2) by (auto simp: filter_id_conv)
    ultimately show ?thesis using 2(2) by fastforce
  next
    case False
    then show ?thesis using 2 by (cases "is_skippable p") auto
  qed
qed simp

lemma consistentD:
  assumes "consistent A R"
  shows "ordered A" and "ordered R"
    and "\<And>b. b \<in> set A \<Longrightarrow> Cursor_from b < frontier R \<Longrightarrow> b \<in> set R \<or> is_skippable b"
    and "\<And>b. b \<in> set R \<Longrightarrow> Cursor_from b < frontier A \<Longrightarrow> b \<in> set A"
  using assms unfolding consistent_def list_all_iff by blast+

lemma consistentI:
  assumes "ordered A" and "ordered R"
    and "\<And>b. b \<in> set A \<Longrightarrow> Cursor_from b < frontier R \<Longrightarrow> b \<in> set R \<or> is_skippable b"
    and "\<And>b. b \<in> set R \<Longrightarrow> Cursor_from b < frontier A \<Longrightarrow> b \<in> set A"
  shows "consistent A R"
  using assms unfolding consistent_def list_all_iff by blast

lemma ordered_snoc_iff:
  "ordered bs \<Longrightarrow> ordered (bs @ [b]) \<longleftrightarrow> frontier bs \<le> Cursor_from b \<and> mb_transaction_index b \<noteq> num_max"
  by (simp add: ordered_snoc frontier_le_iff)

lemma finish_add_eq:
  "finish_add (Cursor_from b) new s =
     (if mb_transaction_index b = num_max then (Inl (Inbox_ArithmeticError Overflow), s)
      else (Inr new, s\<lparr>next_cursor_to_add := cur_succ (Cursor_from b)\<rparr>))"
  by (simp add: finish_add_def Cursor_try_add_one_from)

lemma finish_remove_eq:
  "finish_remove (Cursor_from b) known s =
     (if mb_transaction_index b = num_max then (Inl (Inbox_ArithmeticError Overflow), s)
      else (Inr known, s\<lparr>next_cursor_to_remove := cur_succ (Cursor_from b)\<rparr>))"
  by (simp add: finish_remove_def Cursor_try_add_one_from)

lemma frontier_snoc: "frontier (bs @ [b]) = cur_succ (Cursor_from b)"
  by (simp add: frontier_def)

text \<open>Success of \<open>add_bundle\<close> on the state of a consistent pair is consistency of the longer pair.\<close>

lemma add_ahead:
  assumes c: "consistent A R" and fa: "frontier A \<le> Cursor_from b" and mx: "mb_transaction_index b \<noteq> num_max"
    and e: "filter (\<lambda>r. frontier A \<le> Cursor_from r) R = []"
  shows "consistent (A @ [b]) R"
    and "add_bundle (inbox_of A R) b = (Inr True, inbox_of (A @ [b]) R)"
proof -
  note cd = consistentD [OF c]
  have below: "Cursor_from r < frontier A" if "r \<in> set R" for r
    using e that by (simp add: filter_empty_conv not_le)
  then have fr: "frontier R \<le> Cursor_from b"
    unfolding frontier_le_iff [OF cd(2)] using fa less_le_trans by blast
  show "consistent (A @ [b]) R"
  proof (rule consistentI)
    show "ordered (A @ [b])" using cd(1) fa mx by (simp add: ordered_snoc_iff)
    show "x \<in> set R \<or> is_skippable x" if "x \<in> set (A @ [b])" "Cursor_from x < frontier R" for x
      using that cd(3) [of x] fr by (metis leD rotate1.simps(2) set_ConsD set_rotate1)
    show "x \<in> set (A @ [b])" if "x \<in> set R" "Cursor_from x < frontier (A @ [b])" for x
      using cd(4) [OF that(1) below [OF that(1)]] by simp
  qed (rule cd(2))
  have "filter (\<lambda>r. frontier (A @ [b]) \<le> Cursor_from r) R = []"
    unfolding filter_empty_conv frontier_snoc_le_iff [OF mx] using below fa by (meson less_le_trans not_less_iff_gr_or_eq)
  then show "add_bundle (inbox_of A R) b = (Inr True, inbox_of (A @ [b]) R)"
    using fa fr mx e by (simp add: add_bundle_def Let_def not_less inbox_of_def finish_add_eq frontier_snoc)
qed

lemma consistent_snoc_added_iff:
  assumes c: "consistent A R" and fa: "frontier A \<le> Cursor_from b" and mx: "mb_transaction_index b \<noteq> num_max"
    and e: "filter (\<lambda>r. frontier A \<le> Cursor_from r) R = p # rest"
  shows "consistent (A @ [b]) R \<longleftrightarrow> b = p \<or> Cursor_from b < Cursor_from p \<and> is_skippable b"
proof -
  note cd = consistentD [OF c]
  note pd = sorted_filter_Cons [OF cd(2) [unfolded ordered_def, THEN conjunct1] e]
  have p_notin: "p \<notin> set A" using less_frontier [OF cd(1), of p] pd(2) by (meson leD)
  have pr: "Cursor_from p < frontier R" by (rule less_frontier [OF cd(2) pd(1)])
  have b_notin: "b \<notin> set R" if "Cursor_from b < Cursor_from p"
    using pd(3) [of b] fa that by (metis order.asym order.irrefl)
  show ?thesis
  proof
    assume cc: "consistent (A @ [b]) R"
    show "b = p \<or> Cursor_from b < Cursor_from p \<and> is_skippable b"
    proof (cases "Cursor_from p \<le> Cursor_from b")
      case True
      then have "p \<in> set (A @ [b])"
        using consistentD(4) [OF cc pd(1)] by (simp add: less_frontier_snoc_iff mx)
      then show ?thesis using p_notin by simp
    next
      case False
      then have lt: "Cursor_from b < Cursor_from p" by simp
      have "b \<in> set R \<or> is_skippable b"
        by (rule consistentD(3) [OF cc]) (use lt pr in auto)
      then show ?thesis using b_notin [OF lt] lt by blast
    qed
  next
    assume ok: "b = p \<or> Cursor_from b < Cursor_from p \<and> is_skippable b"
    show "consistent (A @ [b]) R"
    proof (rule consistentI)
      show "ordered (A @ [b])" using cd(1) fa mx by (simp add: ordered_snoc_iff)
      show "x \<in> set R \<or> is_skippable x" if "x \<in> set (A @ [b])" "Cursor_from x < frontier R" for x
      proof (cases "x = b")
        case False
        then show ?thesis using that cd(3) [of x] by simp
      qed (use ok pd(1) in blast)
      show "x \<in> set (A @ [b])" if "x \<in> set R" "Cursor_from x < frontier (A @ [b])" for x
      proof (cases "frontier A \<le> Cursor_from x")
        case True
        have "Cursor_from x \<le> Cursor_from b" using that(2) by (simp add: less_frontier_snoc_iff mx)
        then have "x = p" "b = p" using pd(3) [OF that(1) True] ok by (auto simp: not_less dest: less_le_trans)
        then show ?thesis by simp
      next
        case False
        then show ?thesis using cd(4) [OF that(1)] by simp
      qed
    qed (rule cd(2))
  qed
qed

lemma add_anticipated:
  assumes c: "consistent A R" and c': "consistent (A @ [b]) R"
    and e: "filter (\<lambda>r. frontier A \<le> Cursor_from r) R = p # rest"
  shows "add_bundle (inbox_of A R) b = (Inr False, inbox_of (A @ [b]) R)" and "Cursor_from b < frontier R"
proof -
  note cd = consistentD [OF c]
  note pd = sorted_filter_Cons [OF cd(2) [unfolded ordered_def, THEN conjunct1] e]
  have fa: "frontier A \<le> Cursor_from b" and mx: "mb_transaction_index b \<noteq> num_max"
    using consistentD(1) [OF c'] by (simp_all add: ordered_snoc_iff [OF cd(1)])
  have ok: "b = p \<or> Cursor_from b < Cursor_from p \<and> is_skippable b"
    using c' consistent_snoc_added_iff [OF c fa mx e] by blast
  have pr: "Cursor_from p < frontier R" by (rule less_frontier [OF cd(2) pd(1)])
  show br: "Cursor_from b < frontier R" using ok pr by (metis order.strict_trans)
  have added: "filter (\<lambda>x. frontier R \<le> Cursor_from x) (A @ [b]) = filter (\<lambda>x. frontier R \<le> Cursor_from x) A"
    using br by (simp add: not_le)
  show "add_bundle (inbox_of A R) b = (Inr False, inbox_of (A @ [b]) R)"
  proof (cases "b = p")
    case True
    have "filter (\<lambda>r. frontier (A @ [b]) \<le> Cursor_from r) R = rest"
      unfolding True frontier_snoc_le_iff [OF mx [unfolded True]] by (rule pd(4)) (use pd(2) in auto)
    then show ?thesis
      using True fa mx e added
      by (simp add: add_bundle_def Let_def not_less inbox_of_def finish_add_eq frontier_snoc)
  next
    case False
    have lt: "Cursor_from b < Cursor_from p" "is_skippable b" using ok False by auto
    have "Cursor_from b < Cursor_from r \<longleftrightarrow> frontier A \<le> Cursor_from r" if "r \<in> set R" for r
      using pd(3) [OF that] fa lt(1) by (metis order.strict_trans order.strict_trans1 order_less_imp_le)
    then have "filter (\<lambda>r. frontier (A @ [b]) \<le> Cursor_from r) R = p # rest"
      unfolding frontier_snoc_le_iff [OF mx] e [symmetric] by (intro filter_cong) auto
    then show ?thesis
      using False lt fa mx e added less_imp_neq [OF lt(1)]
      by (simp add: add_bundle_def Let_def not_less inbox_of_def finish_add_eq frontier_snoc)
  qed
qed

lemma add_bundle_step:
  assumes c: "consistent A R"
  shows "if consistent (A @ [b]) R
    then add_bundle (inbox_of A R) b = (Inr (frontier R \<le> Cursor_from b), inbox_of (A @ [b]) R)
    else \<exists>e s. add_bundle (inbox_of A R) b = (Inl e, s)"
proof (cases "filter (\<lambda>r. frontier A \<le> Cursor_from r) R")
  case Nil
  note cd = consistentD [OF c]
  show ?thesis
  proof (cases "frontier A \<le> Cursor_from b \<and> mb_transaction_index b \<noteq> num_max")
    case True
    note ah = add_ahead [OF c _ _ Nil, of b]
    have "frontier R \<le> Cursor_from b"
      unfolding frontier_le_iff [OF cd(2)] using Nil True
      by (metis (no_types, lifting) filter_empty_conv not_le order.strict_trans2)
    then show ?thesis using ah True by simp
  next
    case False
    then have "\<not> ordered (A @ [b])" by (simp add: ordered_snoc_iff [OF cd(1)])
    then have "\<not> consistent (A @ [b]) R" using consistentD(1) by blast
    then show ?thesis
      using False Nil by (auto simp: add_bundle_def Let_def inbox_of_def finish_add_eq not_le)
  qed
next
  case (Cons p rest)
  note cd = consistentD [OF c]
  show ?thesis
  proof (cases "consistent (A @ [b]) R")
    case True
    then show ?thesis using add_anticipated [OF c True Cons] by (simp add: leD)
  next
    case False
    have "\<exists>e s. add_bundle (inbox_of A R) b = (Inl e, s)"
    proof (cases "frontier A \<le> Cursor_from b \<and> mb_transaction_index b \<noteq> num_max")
      case True
      then have "\<not> (b = p \<or> Cursor_from b < Cursor_from p \<and> is_skippable b)"
        using False consistent_snoc_added_iff [OF c _ _ Cons, of b] by blast
      then show ?thesis
        using True Cons by (auto simp: add_bundle_def Let_def inbox_of_def not_less)
    qed (use Cons in \<open>auto simp: add_bundle_def Let_def inbox_of_def finish_add_eq not_le\<close>)
    then show ?thesis using False by simp
  qed
qed

text \<open>The same for \<open>remove_bundle\<close>.\<close>

lemma remove_blocked:
  assumes c: "consistent A R" and fr: "frontier R \<le> Cursor_from b"
    and p: "p \<in> set A" "frontier R \<le> Cursor_from p" "Cursor_from p < Cursor_from b" "\<not> is_skippable p"
  shows "\<not> consistent A (R @ [b])"
proof
  assume c': "consistent A (R @ [b])"
  have mx: "mb_transaction_index b \<noteq> num_max"
    using consistentD(2) [OF c'] by (simp add: ordered_snoc)
  have "p \<in> set (R @ [b])"
    using consistentD(3) [OF c' p(1)] p(3,4) by (simp add: less_frontier_snoc_iff [OF mx])
  then have "p \<in> set R" using p(3) by auto
  then show False using less_frontier [OF consistentD(2) [OF c]] p(2) by (meson leD)
qed

lemma consistent_snoc_removed:
  assumes c: "consistent A R" and fr: "frontier R \<le> Cursor_from b" and mx: "mb_transaction_index b \<noteq> num_max"
    and sk: "\<And>a. a \<in> set A \<Longrightarrow> frontier R \<le> Cursor_from a \<Longrightarrow> Cursor_from a < Cursor_from b \<Longrightarrow> is_skippable a"
    and b: "Cursor_from b < frontier A \<Longrightarrow> b \<in> set A"
    and eq: "\<And>a. a \<in> set A \<Longrightarrow> Cursor_from a = Cursor_from b \<Longrightarrow> a = b"
  shows "consistent A (R @ [b])"
proof (rule consistentI)
  note cd = consistentD [OF c]
  show "ordered A" by (rule cd(1))
  show "ordered (R @ [b])" using cd(2) fr mx by (simp add: ordered_snoc_iff)
  show "x \<in> set A" if "x \<in> set (R @ [b])" "Cursor_from x < frontier A" for x
  proof (cases "x = b")
    case False
    then show ?thesis using that cd(4) [of x] by simp
  qed (use that(2) b in blast)
  show "x \<in> set (R @ [b]) \<or> is_skippable x" if x: "x \<in> set A" "Cursor_from x < frontier (R @ [b])" for x
  proof (cases "Cursor_from x < frontier R")
    case True
    then show ?thesis using cd(3) [OF x(1)] by auto
  next
    case False
    have "Cursor_from x \<le> Cursor_from b" using x(2) by (simp add: less_frontier_snoc_iff [OF mx])
    then consider "Cursor_from x < Cursor_from b" | "x = b"
      using eq [OF x(1)] by (meson order.not_eq_order_implies_strict)
    then show ?thesis using sk [OF x(1)] False by cases (auto simp: not_less)
  qed
qed

lemma filter_above_frontier:
  assumes "frontier R \<le> c"
  shows "filter (\<lambda>b. c \<le> Cursor_from b) (filter (\<lambda>b. frontier R \<le> Cursor_from b) A)
       = filter (\<lambda>b. c \<le> Cursor_from b) A"
  using assms by (auto intro!: filter_cong dest: order.trans)

lemma remove_known:
  assumes c: "consistent A R" and fr: "frontier R \<le> Cursor_from b"
    and sk: "\<And>a. a \<in> set A \<Longrightarrow> frontier R \<le> Cursor_from a \<Longrightarrow> Cursor_from a < Cursor_from b \<Longrightarrow> is_skippable a"
    and e: "filter (\<lambda>a. Cursor_from b \<le> Cursor_from a) A = q # rest"
  shows "consistent A (R @ [b]) \<longleftrightarrow> b = q \<and> mb_transaction_index b \<noteq> num_max"
    and "b = q \<Longrightarrow> filter (\<lambda>a. Cursor_from b < Cursor_from a) A = rest"
proof -
  note cd = consistentD [OF c]
  note qd = sorted_filter_Cons [OF cd(1) [unfolded ordered_def, THEN conjunct1] e]
  have qa: "Cursor_from q < frontier A" by (rule less_frontier [OF cd(1) qd(1)])
  show "b = q \<Longrightarrow> filter (\<lambda>a. Cursor_from b < Cursor_from a) A = rest"
    using qd(4) by (simp add: less_imp_le)
  show "consistent A (R @ [b]) \<longleftrightarrow> b = q \<and> mb_transaction_index b \<noteq> num_max"
  proof
    assume c': "consistent A (R @ [b])"
    have "Cursor_from b < frontier A" using qd(2) qa by (rule order.strict_trans1)
    then have "b \<in> set A" using consistentD(4) [OF c', of b] by simp
    then have "b = q" using qd(3) [of b] qd(2) by (metis leD order.refl)
    then show "b = q \<and> mb_transaction_index b \<noteq> num_max"
      using consistentD(2) [OF c'] by (simp add: ordered_snoc)
  next
    assume bq: "b = q \<and> mb_transaction_index b \<noteq> num_max"
    show "consistent A (R @ [b])"
    proof (rule consistent_snoc_removed [OF c fr _ sk])
      show "a = b" if "a \<in> set A" "Cursor_from a = Cursor_from b" for a
        using qd(3) [OF that(1)] that(2) bq by auto
    qed (use bq qd(1) in auto)
  qed
qed

lemma sorted_added: "ordered A \<Longrightarrow> sorted_wrt (\<lambda>a b. Cursor_from a < Cursor_from b) (filter P A)"
  by (simp add: ordered_def sorted_wrt_filter)

lemma remove_bundle_unblocked:
  assumes c: "consistent A R" and fr: "frontier R \<le> Cursor_from b"
    and sk: "\<And>a. a \<in> set A \<Longrightarrow> frontier R \<le> Cursor_from a \<Longrightarrow> Cursor_from a < Cursor_from b \<Longrightarrow> is_skippable a"
    and d: "discard_lower (Cursor_from b) (filter (\<lambda>x. frontier R \<le> Cursor_from x) A) =
            (None, filter (\<lambda>a. Cursor_from b \<le> Cursor_from a) A)"
  shows "if consistent A (R @ [b])
    then remove_bundle (inbox_of A R) b = (Inr (Cursor_from b < frontier A), inbox_of A (R @ [b]))
    else \<exists>e s. remove_bundle (inbox_of A R) b = (Inl e, s)"
proof (cases "filter (\<lambda>a. Cursor_from b \<le> Cursor_from a) A")
  case Nil
  note cd = consistentD [OF c]
  have below: "Cursor_from a < Cursor_from b" if "a \<in> set A" for a
    using Nil that by (simp add: filter_empty_conv not_le)
  then have fa: "frontier A \<le> Cursor_from b" by (simp add: frontier_le_iff [OF cd(1)])
  show ?thesis
  proof (cases "mb_transaction_index b = num_max")
    case True
    then have "\<not> consistent A (R @ [b])" using consistentD(2) ordered_snoc by blast
    then show ?thesis
      using True fr d Nil by (simp add: remove_bundle_def Let_def not_less inbox_of_def finish_remove_eq)
  next
    case False
    have c': "consistent A (R @ [b])"
    proof (rule consistent_snoc_removed [OF c fr False sk])
      show "Cursor_from b < frontier A \<Longrightarrow> b \<in> set A" using fa by (simp add: leD)
      show "a = b" if "a \<in> set A" "Cursor_from a = Cursor_from b" for a
        using below [OF that(1)] that(2) by simp
    qed
    have "filter (\<lambda>a. frontier (R @ [b]) \<le> Cursor_from a) A = []"
      unfolding filter_empty_conv frontier_snoc_le_iff [OF False] using below order.asym by blast
    then show ?thesis
      using c' False fr fa d Nil
      by (simp add: remove_bundle_def Let_def not_less leD inbox_of_def finish_remove_eq frontier_snoc)
  qed
next
  case (Cons q rest)
  note rk = remove_known [OF c fr sk Cons]
  have qa: "b = q \<Longrightarrow> Cursor_from b < frontier A"
    using less_frontier [OF consistentD(1) [OF c], of q] filter_eq_ConsD [OF Cons] by auto
  show ?thesis
  proof (cases "b = q \<and> mb_transaction_index b \<noteq> num_max")
    case True
    have "filter (\<lambda>a. frontier (R @ [b]) \<le> Cursor_from a) A = rest"
      unfolding frontier_snoc_le_iff [OF True [THEN conjunct2]] using rk(2) True by blast
    moreover have "filter (\<lambda>r. frontier A \<le> Cursor_from r) (R @ [b]) = filter (\<lambda>r. frontier A \<le> Cursor_from r) R"
      using qa True by (simp add: not_le)
    ultimately show ?thesis
      using True rk(1) qa fr d Cons
      by (auto simp: remove_bundle_def Let_def inbox_of_def finish_remove_eq frontier_snoc dest: leD)
  next
    case False
    then show ?thesis
      using rk(1) fr d Cons by (auto simp: remove_bundle_def Let_def not_less inbox_of_def finish_remove_eq)
  qed
qed

lemma remove_bundle_step:
  assumes c: "consistent A R"
  shows "if consistent A (R @ [b])
    then remove_bundle (inbox_of A R) b = (Inr (Cursor_from b < frontier A), inbox_of A (R @ [b]))
    else \<exists>e s. remove_bundle (inbox_of A R) b = (Inl e, s)"
proof (cases "frontier R \<le> Cursor_from b")
  case fr: True
  note cd = consistentD [OF c]
  from discard_lower_cases [OF sorted_added [OF cd(1)], of "Cursor_from b" "\<lambda>x. frontier R \<le> Cursor_from x"]
  consider
    (blocked) p rest where "discard_lower (Cursor_from b) (filter (\<lambda>x. frontier R \<le> Cursor_from x) A) = (Some p, rest)"
      "p \<in> set A" "frontier R \<le> Cursor_from p" "Cursor_from p < Cursor_from b" "\<not> is_skippable p"
  | (free) "discard_lower (Cursor_from b) (filter (\<lambda>x. frontier R \<le> Cursor_from x) A) =
        (None, filter (\<lambda>a. Cursor_from b \<le> Cursor_from a) A)"
      "\<And>a. a \<in> set A \<Longrightarrow> frontier R \<le> Cursor_from a \<Longrightarrow> Cursor_from a < Cursor_from b \<Longrightarrow> is_skippable a"
    unfolding filter_above_frontier [OF fr] by (auto 0 3)
  then show ?thesis
  proof cases
    case blocked
    then have "\<not> consistent A (R @ [b])" using remove_blocked [OF c fr] by blast
    then show ?thesis using blocked(1) fr by (simp add: remove_bundle_def Let_def not_less inbox_of_def)
  next
    case free
    then show ?thesis using remove_bundle_unblocked [OF c fr] by blast
  qed
next
  case False
  then have "\<not> consistent A (R @ [b])"
    using consistentD(2) ordered_snoc_iff [OF consistentD(2) [OF c]] by blast
  then show ?thesis using False by (simp add: remove_bundle_def inbox_of_def not_le)
qed

section \<open>Sequences of operations\<close>

datatype InboxOp = AddBundle MessageBundle | RemoveBundle MessageBundle

fun inbox_step :: "InboxStateView \<Rightarrow> InboxOp \<Rightarrow> InboxStateView option" where
  "inbox_step s (AddBundle b) = (case add_bundle s b of (Inr _, s') \<Rightarrow> Some s' | (Inl _, _) \<Rightarrow> None)"
| "inbox_step s (RemoveBundle b) = (case remove_bundle s b of (Inr _, s') \<Rightarrow> Some s' | (Inl _, _) \<Rightarrow> None)"

definition inbox_run :: "InboxOp list \<Rightarrow> InboxStateView option" where
  "inbox_run ops = foldl (\<lambda>s op. Option.bind s (\<lambda>s. inbox_step s op)) (Some InboxStateView_new) ops"

definition bundles_added :: "InboxOp list \<Rightarrow> MessageBundle list" where
  "bundles_added ops = List.map_filter (\<lambda>op. case op of AddBundle b \<Rightarrow> Some b | _ \<Rightarrow> None) ops"

definition bundles_removed :: "InboxOp list \<Rightarrow> MessageBundle list" where
  "bundles_removed ops = List.map_filter (\<lambda>op. case op of RemoveBundle b \<Rightarrow> Some b | _ \<Rightarrow> None) ops"

lemma bundles_snoc [simp]:
  "bundles_added [] = []" "bundles_removed [] = []"
  "bundles_added (ops @ [AddBundle b]) = bundles_added ops @ [b]"
  "bundles_removed (ops @ [AddBundle b]) = bundles_removed ops"
  "bundles_added (ops @ [RemoveBundle b]) = bundles_added ops"
  "bundles_removed (ops @ [RemoveBundle b]) = bundles_removed ops @ [b]"
  by (simp_all add: bundles_added_def bundles_removed_def map_filter_def)

lemma inbox_run_snoc:
  "inbox_run [] = Some InboxStateView_new"
  "inbox_run (ops @ [op]) = Option.bind (inbox_run ops) (\<lambda>s. inbox_step s op)"
  by (simp_all add: inbox_run_def)

lemma consistent_Nil [simp]: "consistent [] []"
  by (simp add: consistent_def)

lemma inbox_of_Nil [simp]: "inbox_of [] [] = InboxStateView_new"
  by (simp add: inbox_of_def InboxStateView_new_def frontier_def)

lemma consistent_added_prefix:
  assumes c: "consistent (A @ [b]) R"
  shows "consistent A R"
proof (rule consistentI)
  note cd = consistentD [OF c]
  show A: "ordered A" using cd(1) by (simp add: ordered_snoc)
  have lt: "Cursor_from x \<noteq> Cursor_from b" "Cursor_from x < frontier (A @ [b])" if "Cursor_from x < frontier A" for x
    using that cd(1) by (auto simp: ordered_snoc_iff [OF A] less_frontier_snoc_iff)
  show "x \<in> set A" if "x \<in> set R" "Cursor_from x < frontier A" for x
    using cd(4) [OF that(1)] lt [OF that(2)] by auto
  show "x \<in> set R \<or> is_skippable x" if "x \<in> set A" "Cursor_from x < frontier R" for x
    using cd(3) [of x] that by simp
qed (rule consistentD(2) [OF c])

lemma consistent_removed_prefix:
  assumes c: "consistent A (R @ [b])"
  shows "consistent A R"
proof (rule consistentI)
  note cd = consistentD [OF c]
  show R: "ordered R" using cd(2) by (simp add: ordered_snoc)
  have lt: "Cursor_from x \<noteq> Cursor_from b" "Cursor_from x < frontier (R @ [b])" if "Cursor_from x < frontier R" for x
    using that cd(2) by (auto simp: ordered_snoc_iff [OF R] less_frontier_snoc_iff)
  show "x \<in> set R \<or> is_skippable x" if "x \<in> set A" "Cursor_from x < frontier R" for x
    using cd(3) [OF that(1)] lt [OF that(2)] by auto
  show "x \<in> set A" if "x \<in> set R" "Cursor_from x < frontier A" for x
    using cd(4) [of x] that by simp
qed (rule consistentD(1) [OF c])

lemma inbox_run_eq:
  "inbox_run ops =
     (if consistent (bundles_added ops) (bundles_removed ops)
      then Some (inbox_of (bundles_added ops) (bundles_removed ops)) else None)"
proof (induction ops rule: rev_induct)
  case Nil
  show ?case by (simp add: inbox_run_snoc)
next
  case (snoc op ops)
  let ?A = "bundles_added ops" and ?R = "bundles_removed ops"
  show ?case
  proof (cases "consistent ?A ?R")
    case c: True
    show ?thesis
    proof (cases op)
      case (AddBundle b)
      show ?thesis
        using add_bundle_step [OF c, of b]
        by (cases "consistent (?A @ [b]) ?R") (auto simp: inbox_run_snoc snoc c AddBundle)
    next
      case (RemoveBundle b)
      show ?thesis
        using remove_bundle_step [OF c, of b]
        by (cases "consistent ?A (?R @ [b])") (auto simp: inbox_run_snoc snoc c RemoveBundle)
    qed
  next
    case False
    then have "\<not> consistent (?A @ [b]) ?R" "\<not> consistent ?A (?R @ [b])" for b
      using consistent_added_prefix consistent_removed_prefix by blast+
    then show ?thesis using False by (cases op) (simp_all add: inbox_run_snoc snoc)
  qed
qed

text \<open>C5. The inbox refines a pair of sequences. Starting from the empty inbox, a sequence of
  \<open>add_bundle\<close> and \<open>remove_bundle\<close> calls succeeds exactly when the bundles added and the bundles
  removed are consistent, and the state reached is the function \<open>inbox_of\<close> of the two
  sequences. In particular neither success nor the state depends on how the calls interleave.\<close>

theorem inbox_refines_sequences:
  "inbox_run ops =
     (if consistent (bundles_added ops) (bundles_removed ops)
      then Some (inbox_of (bundles_added ops) (bundles_removed ops)) else None)"
  by (rule inbox_run_eq)

text \<open>C25. No bundle is executed twice, invented or silently lost. After any successful sequence of
  calls, the removed bundles have strictly increasing cursors, each of them was added or is
  recorded in \<open>removed_bundles\<close> as expected, each added bundle was removed, is waiting in
  \<open>added_bundles\<close> or may be skipped, and at least one of the two queues is empty.\<close>

theorem inbox_no_loss_no_duplication:
  assumes "inbox_run ops = Some s"
  shows "sorted_wrt (<) (map Cursor_from (bundles_removed ops))
    \<and> set (bundles_removed ops) \<subseteq> set (bundles_added ops) \<union> set (removed_bundles s)
    \<and> set (bundles_added ops) \<subseteq> set (bundles_removed ops) \<union> set (added_bundles s) \<union> {b. is_skippable b}
    \<and> set (added_bundles s) \<inter> set (bundles_removed ops) = {}
    \<and> (added_bundles s = [] \<or> removed_bundles s = [])"
proof -
  let ?A = "bundles_added ops" and ?R = "bundles_removed ops"
  have c: "consistent ?A ?R" and s: "s = inbox_of ?A ?R"
    using assms by (auto simp: inbox_run_eq split: if_splits)
  note cd = consistentD [OF c]
  have "sorted_wrt (<) (map Cursor_from ?R)" using cd(2) by (simp add: ordered_def sorted_wrt_map)
  moreover have "set ?R \<subseteq> set ?A \<union> set (removed_bundles s)"
    using cd(4) by (fastforce simp: s inbox_of_def not_le)
  moreover have "set ?A \<subseteq> set ?R \<union> set (added_bundles s) \<union> {b. is_skippable b}"
    using cd(3) by (fastforce simp: s inbox_of_def not_le)
  moreover have "set (added_bundles s) \<inter> set ?R = {}"
    using less_frontier [OF cd(2)] by (auto simp: s inbox_of_def dest: leD)
  moreover have "added_bundles s = [] \<or> removed_bundles s = []"
  proof (rule ccontr)
    assume "\<not> (added_bundles s = [] \<or> removed_bundles s = [])"
    then obtain a r where "a \<in> set ?A" "frontier ?R \<le> Cursor_from a" "r \<in> set ?R" "frontier ?A \<le> Cursor_from r"
      by (auto simp: s inbox_of_def filter_empty_conv)
    then have "Cursor_from a < Cursor_from r" "Cursor_from r < Cursor_from a"
      using less_frontier [OF cd(1), of a] less_frontier [OF cd(2), of r] by (auto dest: order.strict_trans2)
    then show False by (rule order.asym)
  qed
  ultimately show ?thesis by blast
qed

definition sample_bundle :: "BlockHeight \<Rightarrow> u32 \<Rightarrow> MessageBundle" where
  "sample_bundle h i = \<lparr>mb_height = h, mb_timestamp = 0, mb_certificate_hash = 7,
     mb_transaction_index = i, mb_messages = []\<rparr>"

definition sample_inbox_ops :: "InboxOp list" where
  "sample_inbox_ops = [RemoveBundle (sample_bundle 2 1), AddBundle (sample_bundle 1 0),
     AddBundle (sample_bundle 2 1), AddBundle (sample_bundle 4 0)]"

definition sample_inbox :: InboxStateView where
  "sample_inbox = \<lparr>next_cursor_to_add = Cursor 4 1, next_cursor_to_remove = Cursor 2 2,
     added_bundles = [sample_bundle 4 0], removed_bundles = []\<rparr>"

lemma sample_inbox_run: "inbox_run sample_inbox_ops = Some sample_inbox"
  by (simp add: inbox_run_def sample_inbox_ops_def sample_inbox_def sample_bundle_def add_bundle_def
      remove_bundle_def InboxStateView_new_def Cursor_from_def Cursor_default_def less_Cursor_def
      finish_remove_def finish_add_def Cursor_try_add_one_def checked_add_def is_skippable_def)

theorem inbox_no_loss_no_duplication_witness:
  "inbox_run sample_inbox_ops = Some sample_inbox
   \<and> set (bundles_added sample_inbox_ops) \<subseteq>
       set (bundles_removed sample_inbox_ops) \<union> set (added_bundles sample_inbox) \<union> {b. is_skippable b}
   \<and> set (bundles_removed sample_inbox_ops) \<subseteq>
       set (bundles_added sample_inbox_ops) \<union> set (removed_bundles sample_inbox)"
  using inbox_no_loss_no_duplication [OF sample_inbox_run] sample_inbox_run by blast

end
