(* ===== verification/Outbox.thy ===== *)
theory Outbox
  imports Chain_Types
begin

text \<open>
  The outbox of a chain for one target (\<^verbatim>\<open>linera-chain/src/outbox.rs\<close>): a queue of block heights
  whose certified blocks are sent to the target until it acknowledges them. The queue is a list,
  front first.
\<close>

section \<open>State and operations\<close>

record OutboxStateView =
  next_height_to_schedule :: BlockHeight
  outbox_queue :: "BlockHeight list"

definition OutboxStateView_new :: OutboxStateView where
  "OutboxStateView_new = \<lparr>next_height_to_schedule = 0, outbox_queue = []\<rparr>"

definition schedule_message ::
  "OutboxStateView \<Rightarrow> BlockHeight \<Rightarrow> (ArithmeticError + bool) \<times> OutboxStateView" where
  "schedule_message self h =
     (if h < next_height_to_schedule self then (Inr False, self)
      else case try_add_one h of
        Inl e \<Rightarrow> (Inl e, self)
      | Inr next_height \<Rightarrow>
          (Inr True, self\<lparr>next_height_to_schedule := next_height, outbox_queue := outbox_queue self @ [h]\<rparr>))"

fun mark_loop :: "BlockHeight \<Rightarrow> BlockHeight list \<Rightarrow> BlockHeight list \<Rightarrow> BlockHeight list \<times> BlockHeight list" where
  "mark_loop h [] updates = (updates, [])"
| "mark_loop h (front # queue) updates =
     (if h < front then (updates, front # queue) else mark_loop h queue (updates @ [front]))"

definition mark_messages_as_received ::
  "OutboxStateView \<Rightarrow> BlockHeight \<Rightarrow> BlockHeight list \<times> OutboxStateView" where
  "mark_messages_as_received self h =
     (let (updates, queue) = mark_loop h (outbox_queue self) []
      in (updates, self\<lparr>outbox_queue := queue\<rparr>))"

section \<open>Invariant and behaviour\<close>

definition outbox_inv :: "OutboxStateView \<Rightarrow> bool" where
  "outbox_inv s \<longleftrightarrow> sorted_wrt (<) (outbox_queue s)
     \<and> list_all (\<lambda>h. h < next_height_to_schedule s) (outbox_queue s)"

lemma mark_loop_eq:
  "sorted_wrt (<) q \<Longrightarrow> mark_loop h q u = (u @ filter (\<lambda>x. x \<le> h) q, filter (\<lambda>x. h < x) q)"
proof (induction h q u rule: mark_loop.induct)
  case (2 h x q u)
  have "h < y" if "h < x" "y \<in> set q" for y
    using 2(2) that by (auto dest: order.strict_trans)
  then show ?case using 2 by (auto simp: not_less filter_empty_conv filter_id_conv not_le)
qed simp

lemma schedule_message_cases:
  "schedule_message s h =
     (if h < next_height_to_schedule s then (Inr False, s)
      else if h = num_max then (Inl Overflow, s)
      else (Inr True, s\<lparr>next_height_to_schedule := h + 1, outbox_queue := outbox_queue s @ [h]\<rparr>))"
  by (simp add: schedule_message_def try_add_one_def checked_add_one ok_or_def)

lemma outbox_inv_new [simp]: "outbox_inv OutboxStateView_new"
  by (simp add: outbox_inv_def OutboxStateView_new_def)

lemma outbox_inv_schedule:
  assumes "outbox_inv s" and "schedule_message s h = (r, s')"
  shows "outbox_inv s'"
proof -
  have lt: "h < h + 1" if "h \<noteq> num_max" using that by (simp add: not_max_less_succ)
  have "x < h" if "next_height_to_schedule s \<le> h" "x \<in> set (outbox_queue s)" for x
    using assms(1) that by (auto simp: outbox_inv_def list_all_iff dest: less_le_trans)
  then show ?thesis
    using assms lt by (auto simp: schedule_message_cases outbox_inv_def sorted_wrt_append list_all_iff not_less
        split: if_splits) (metis order.strict_trans)
qed

lemma mark_messages_as_received_eq:
  "outbox_inv s \<Longrightarrow> mark_messages_as_received s h =
     (filter (\<lambda>x. x \<le> h) (outbox_queue s), s\<lparr>outbox_queue := filter (\<lambda>x. h < x) (outbox_queue s)\<rparr>)"
  by (simp add: mark_messages_as_received_def outbox_inv_def mark_loop_eq)

lemma outbox_inv_mark: "outbox_inv s \<Longrightarrow> outbox_inv (snd (mark_messages_as_received s h))"
  by (auto simp: mark_messages_as_received_eq) (auto simp: outbox_inv_def sorted_wrt_filter list_all_iff)

section \<open>Sequences of operations\<close>

datatype OutboxOp = Schedule BlockHeight | Received BlockHeight

fun outbox_step :: "OutboxStateView \<Rightarrow> OutboxOp \<Rightarrow> OutboxStateView option" where
  "outbox_step s (Schedule h) = (case schedule_message s h of (Inr _, s') \<Rightarrow> Some s' | (Inl _, _) \<Rightarrow> None)"
| "outbox_step s (Received h) = Some (snd (mark_messages_as_received s h))"

definition outbox_run :: "OutboxOp list \<Rightarrow> OutboxStateView option" where
  "outbox_run ops = foldl (\<lambda>s op. Option.bind s (\<lambda>s. outbox_step s op)) (Some OutboxStateView_new) ops"

text \<open>No earlier message was scheduled at this height or above; no later acknowledgement covers it.\<close>

definition above_scheduled :: "OutboxOp list \<Rightarrow> BlockHeight \<Rightarrow> bool" where
  "above_scheduled ops h \<longleftrightarrow> list_all (\<lambda>op. case op of Schedule h' \<Rightarrow> h' < h | Received _ \<Rightarrow> True) ops"

definition unacknowledged :: "OutboxOp list \<Rightarrow> BlockHeight \<Rightarrow> bool" where
  "unacknowledged ops h \<longleftrightarrow> list_all (\<lambda>op. case op of Received h' \<Rightarrow> h' < h | Schedule _ \<Rightarrow> True) ops"

definition pending :: "OutboxOp list \<Rightarrow> BlockHeight set" where
  "pending ops = {h. \<exists>pre post. ops = pre @ Schedule h # post \<and> above_scheduled pre h \<and> unacknowledged post h}"

lemma snoc_eq_append_Cons:
  "xs @ [x] = pre @ y # post \<longleftrightarrow>
     post = [] \<and> x = y \<and> pre = xs \<or> (\<exists>p. post = p @ [x] \<and> xs = pre @ y # p)"
  by (cases post rule: rev_cases) auto

lemma pending_Nil [simp]: "pending [] = {}"
  by (simp add: pending_def)

lemma pending_snoc:
  "x \<in> pending (ops @ [op]) \<longleftrightarrow>
     op = Schedule x \<and> above_scheduled ops x \<or> x \<in> pending ops \<and> unacknowledged [op] x"
proof
  assume "x \<in> pending (ops @ [op])"
  then obtain pre post where "ops @ [op] = pre @ Schedule x # post" "above_scheduled pre x" "unacknowledged post x"
    unfolding pending_def by blast
  then show "op = Schedule x \<and> above_scheduled ops x \<or> x \<in> pending ops \<and> unacknowledged [op] x"
    unfolding snoc_eq_append_Cons by (auto simp: pending_def unacknowledged_def)
next
  assume r: "op = Schedule x \<and> above_scheduled ops x \<or> x \<in> pending ops \<and> unacknowledged [op] x"
  show "x \<in> pending (ops @ [op])"
  proof (cases "op = Schedule x \<and> above_scheduled ops x")
    case True
    then show ?thesis unfolding pending_def
      by (intro CollectI exI [of _ ops] exI [of _ "[]"]) (simp add: unacknowledged_def)
  next
    case False
    then obtain pre post where "ops = pre @ Schedule x # post" "above_scheduled pre x" "unacknowledged post x"
        "unacknowledged [op] x"
      using r unfolding pending_def by blast
    then show ?thesis unfolding pending_def
      by (intro CollectI exI [of _ pre] exI [of _ "post @ [op]"]) (simp add: unacknowledged_def)
  qed
qed

lemma outbox_run_inv:
  "outbox_run ops = Some s \<Longrightarrow>
     outbox_inv s \<and> set (outbox_queue s) = pending ops
     \<and> (\<forall>h. next_height_to_schedule s \<le> h \<longleftrightarrow> above_scheduled ops h)"
proof (induction ops arbitrary: s rule: rev_induct)
  case Nil
  then show ?case
    by (auto simp: outbox_run_def OutboxStateView_new_def outbox_inv_def above_scheduled_def)
next
  case (snoc op ops)
  then obtain s0 where s0: "outbox_run ops = Some s0" and st: "outbox_step s0 op = Some s"
    by (auto simp: outbox_run_def bind_eq_Some_conv)
  note ih = snoc.IH [OF s0]
  show ?case
  proof (cases op)
    case (Received h)
    have s: "s = s0\<lparr>outbox_queue := filter (\<lambda>x. h < x) (outbox_queue s0)\<rparr>"
      using st Received ih by (auto simp: mark_messages_as_received_eq)
    have "outbox_inv s" using st Received ih outbox_inv_mark by auto
    moreover have "set (outbox_queue s) = pending (ops @ [op])"
      using ih by (auto simp: s pending_snoc Received unacknowledged_def)
    ultimately show ?thesis using ih by (simp add: s above_scheduled_def Received)
  next
    case (Schedule h)
    then obtain b where sch: "schedule_message s0 h = (Inr b, s)"
      using st by (auto split: prod.splits sum.splits)
    have "outbox_inv s" using outbox_inv_schedule [OF _ sch] ih by blast
    moreover have "set (outbox_queue s) = pending (ops @ [op])"
      using sch ih by (auto simp: schedule_message_cases pending_snoc Schedule unacknowledged_def
          not_less [symmetric] split: if_splits)
    moreover have "next_height_to_schedule s \<le> x \<longleftrightarrow> above_scheduled (ops @ [op]) x" for x
    proof -
      have "above_scheduled (ops @ [op]) x \<longleftrightarrow> next_height_to_schedule s0 \<le> x \<and> h < x"
        using ih by (simp add: above_scheduled_def Schedule)
      then show ?thesis
        using sch by (auto simp: schedule_message_cases succ_le_word split: if_splits)
    qed
    ultimately show ?thesis by blast
  qed
qed

text \<open>C26. The outbox keeps sending exactly the blocks that need it. After any sequence of
  \<open>schedule_message\<close> and \<open>mark_messages_as_received\<close> calls without overflow, the queue is strictly
  increasing and holds exactly the heights that were scheduled above all earlier ones and not
  acknowledged since; the next acknowledgement of height \<open>h\<close> reports exactly the queued heights up
  to \<open>h\<close> and keeps the others.\<close>

theorem outbox_keeps_unacknowledged:
  assumes "outbox_run ops = Some s"
  shows "sorted_wrt (<) (outbox_queue s) \<and> set (outbox_queue s) = pending ops
    \<and> mark_messages_as_received s h =
        (filter (\<lambda>x. x \<le> h) (outbox_queue s), s\<lparr>outbox_queue := filter (\<lambda>x. h < x) (outbox_queue s)\<rparr>)"
  using outbox_run_inv [OF assms] mark_messages_as_received_eq [of s h] by (simp add: outbox_inv_def)

definition sample_outbox_ops :: "OutboxOp list" where
  "sample_outbox_ops = [Schedule 2, Schedule 5, Schedule 5, Received 3, Schedule 9]"

lemma sample_outbox_run:
  "outbox_run sample_outbox_ops = Some \<lparr>next_height_to_schedule = 10, outbox_queue = [5, 9]\<rparr>"
  by (simp add: outbox_run_def sample_outbox_ops_def OutboxStateView_new_def schedule_message_def
      try_add_one_def checked_add_def mark_messages_as_received_def)

theorem outbox_keeps_unacknowledged_witness:
  "set (outbox_queue \<lparr>next_height_to_schedule = 10, outbox_queue = [5, 9]\<rparr>) = pending sample_outbox_ops
   \<and> fst (mark_messages_as_received \<lparr>next_height_to_schedule = 10, outbox_queue = [5, 9]\<rparr> 6) = [5]"
  using outbox_keeps_unacknowledged [OF sample_outbox_run, of 6] by simp

end
