(* ===== verification/State_Result.thy ===== *)
theory State_Result
  imports Prelude
begin

text \<open>
  Methods that take \<^verbatim>\<open>&mut self\<close> and return a \<^verbatim>\<open>Result\<close>: a function from the state to the result
  and the state left behind, which is also defined when the method fails half-way.
\<close>

type_synonym ('s, 'e, 'a) sr = "'s \<Rightarrow> ('e + 'a) \<times> 's"

definition sr_ok :: "'a \<Rightarrow> ('s, 'e, 'a) sr" where
  "sr_ok x s = (Inr x, s)"

definition sr_err :: "'e \<Rightarrow> ('s, 'e, 'a) sr" where
  "sr_err e s = (Inl e, s)"

definition sr_bind :: "('s, 'e, 'a) sr \<Rightarrow> ('a \<Rightarrow> ('s, 'e, 'b) sr) \<Rightarrow> ('s, 'e, 'b) sr" where
  "sr_bind m f s = (case m s of (Inl e, s') \<Rightarrow> (Inl e, s') | (Inr x, s') \<Rightarrow> f x s')"

definition sr_get :: "('s \<Rightarrow> 'a) \<Rightarrow> ('s, 'e, 'a) sr" where
  "sr_get g s = (Inr (g s), s)"

definition sr_modify :: "('s \<Rightarrow> 's) \<Rightarrow> ('s, 'e, unit) sr" where
  "sr_modify f s = (Inr (), f s)"

definition sr_lift :: "'e + 'a \<Rightarrow> ('s, 'e, 'a) sr" where
  "sr_lift r s = (r, s)"

definition sr_ensure :: "bool \<Rightarrow> 'e \<Rightarrow> ('s, 'e, unit) sr" where
  "sr_ensure b e s = (ensure b e, s)"

fun sr_each :: "('a \<Rightarrow> ('s, 'e, unit) sr) \<Rightarrow> 'a list \<Rightarrow> ('s, 'e, unit) sr" where
  "sr_each f [] = sr_ok ()"
| "sr_each f (x # xs) = sr_bind (f x) (\<lambda>_. sr_each f xs)"

named_theorems sr_simps \<open>successful runs of state-passing code\<close>

lemma sr_bind_Inr [sr_simps]:
  "sr_bind m f s = (Inr y, s') \<longleftrightarrow> (\<exists>x s1. m s = (Inr x, s1) \<and> f x s1 = (Inr y, s'))"
  by (auto simp: sr_bind_def split: prod.splits sum.splits)

lemma sr_bind_Inl [sr_simps]:
  "sr_bind m f s = (Inl e, s') \<longleftrightarrow>
     m s = (Inl e, s') \<or> (\<exists>x s1. m s = (Inr x, s1) \<and> f x s1 = (Inl e, s'))"
  by (auto simp: sr_bind_def split: prod.splits sum.splits)

lemma sr_ok_eq [sr_simps]: "sr_ok x s = (r, s') \<longleftrightarrow> r = Inr x \<and> s' = s"
  by (auto simp: sr_ok_def)

lemma sr_err_eq [sr_simps]: "sr_err e s = (r, s') \<longleftrightarrow> r = Inl e \<and> s' = s"
  by (auto simp: sr_err_def)

lemma sr_get_eq [sr_simps]: "sr_get g s = (r, s') \<longleftrightarrow> r = Inr (g s) \<and> s' = s"
  by (auto simp: sr_get_def)

lemma sr_modify_eq [sr_simps]: "sr_modify f s = (r, s') \<longleftrightarrow> r = Inr () \<and> s' = f s"
  by (auto simp: sr_modify_def)

lemma sr_lift_eq [sr_simps]: "sr_lift q s = (r, s') \<longleftrightarrow> r = q \<and> s' = s"
  by (auto simp: sr_lift_def)

lemma sr_ensure_Inr [sr_simps]: "sr_ensure b e s = (Inr u, s') \<longleftrightarrow> b \<and> s' = s"
  by (auto simp: sr_ensure_def)

lemma sr_ensure_Inl [sr_simps]: "sr_ensure b e s = (Inl e', s') \<longleftrightarrow> \<not> b \<and> e' = e \<and> s' = s"
  by (auto simp: sr_ensure_def)

lemma sr_lift_Inr: "sr_lift r s = (Inr x, s') \<longleftrightarrow> r = Inr x \<and> s' = s"
  by (auto simp: sr_lift_def)

lemmas run_simps = sr_bind_Inr sr_get_eq sr_modify_eq sr_ensure_Inr sr_ok_eq sr_lift_Inr sr_err_eq

lemma sr_each_append:
  "sr_each f (xs @ ys) = sr_bind (sr_each f xs) (\<lambda>_. sr_each f ys)"
  by (induction xs) (auto simp: sr_bind_def sr_ok_def fun_eq_iff split: prod.splits sum.splits)

text \<open>A property that every successful step keeps holds after a successful loop.\<close>

lemma sr_each_invariant:
  assumes "sr_each f xs s = (Inr u, s')" and "P s"
    and "\<And>x s s' v. x \<in> set xs \<Longrightarrow> P s \<Longrightarrow> f x s = (Inr v, s') \<Longrightarrow> P s'"
  shows "P s'"
  using assms
proof (induction xs arbitrary: s)
  case (Cons x xs)
  obtain v s1 where "f x s = (Inr v, s1)" and r: "sr_each f xs s1 = (Inr u, s')"
    using Cons.prems(1) by (auto simp: sr_simps)
  then have "P s1" using Cons.prems(2,3) by (meson list.set_intros(1))
  then show ?case using Cons.IH [OF r] Cons.prems(3) by (meson list.set_intros(2))
qed (simp add: sr_simps)

section \<open>Invariants\<close>

text \<open>\<open>keeps P m\<close>: a successful run of \<open>m\<close> leaves \<open>P\<close> true.\<close>

definition keeps :: "('s \<Rightarrow> bool) \<Rightarrow> ('s, 'e, 'a) sr \<Rightarrow> bool" where
  "keeps P m \<longleftrightarrow> (\<forall>s x s'. P s \<longrightarrow> m s = (Inr x, s') \<longrightarrow> P s')"

named_theorems keeps_rules \<open>invariants of state-passing code\<close>

lemma keepsI: "(\<And>s x s'. P s \<Longrightarrow> m s = (Inr x, s') \<Longrightarrow> P s') \<Longrightarrow> keeps P m"
  by (simp add: keeps_def)

lemma keepsD: "keeps P m \<Longrightarrow> m s = (Inr x, s') \<Longrightarrow> P s \<Longrightarrow> P s'"
  by (simp add: keeps_def)

lemma keeps_bind [keeps_rules]:
  assumes "keeps P m" and "\<And>x. keeps P (f x)"
  shows "keeps P (sr_bind m f)"
  using assms unfolding keeps_def sr_bind_Inr by blast

lemma keeps_simple [keeps_rules]:
  "keeps P (sr_ok x)" "keeps P (sr_err e)" "keeps P (sr_get g)" "keeps P (sr_lift r)" "keeps P (sr_ensure b e)"
  by (simp_all add: keeps_def sr_simps)

lemma keeps_modify [keeps_rules]: "(\<And>s. P s \<Longrightarrow> P (f s)) \<Longrightarrow> keeps P (sr_modify f)"
  by (simp add: keeps_def sr_simps)

lemma keeps_each [keeps_rules]: "(\<And>x. x \<in> set xs \<Longrightarrow> keeps P (f x)) \<Longrightarrow> keeps P (sr_each f xs)"
  by (rule keepsI, erule sr_each_invariant) (auto dest: keepsD)

lemma keeps_if [keeps_rules]: "(b \<Longrightarrow> keeps P m) \<Longrightarrow> (\<not> b \<Longrightarrow> keeps P m') \<Longrightarrow> keeps P (if b then m else m')"
  by simp

lemma keeps_option [keeps_rules]:
  "keeps P m \<Longrightarrow> (\<And>x. keeps P (f x)) \<Longrightarrow> keeps P (case y of None \<Rightarrow> m | Some x \<Rightarrow> f x)"
  by (cases y) simp_all

lemma keeps_prod [keeps_rules]: "(\<And>x y. keeps P (f x y)) \<Longrightarrow> keeps P (case p of (x, y) \<Rightarrow> f x y)"
  by (cases p) simp

lemma keeps_let [keeps_rules]: "keeps P (f x) \<Longrightarrow> keeps P (let y = x in f y)"
  by simp

end
