(* ===== verification/Resources.thy ===== *)
theory Resources
  imports State_Result Execution_Types
begin

text \<open>
  Resource accounting (\<^verbatim>\<open>linera-execution/src/resources.rs\<close>). A \<^verbatim>\<open>ResourceController\<close> is generic in
  the account that pays; the trait \<^verbatim>\<open>BalanceHolder\<close> is a record of operations, passed as an
  argument, with the two implementations of the code: a single amount, and a list of funding
  sources. The locale \<open>balance_holder\<close> states what an account promises; the accounting theorems
  are proved once from it and apply to both implementations.
\<close>

section \<open>Data\<close>

record ResourceTracker =
  rt_blocks :: u32
  rt_executed_block_size :: u64
  rt_fuel :: u64
  rt_read_operations :: u32
  rt_write_operations :: u32
  rt_bytes_read :: u64
  rt_bytes_written :: u64
  rt_bytes_stored :: "32 word"
  rt_operations :: u32
  rt_operation_bytes :: u64
  rt_messages :: u32
  rt_message_bytes :: u64
  rt_grants :: Amount

record 'acc ResourceController =
  rc_policy :: ResourceControlPolicy
  rc_tracker :: ResourceTracker
  rc_account :: 'acc

record 'acc BalanceHolder =
  bh_balance :: "'acc \<Rightarrow> ArithmeticError + Amount"
  bh_try_add_assign :: "Amount \<Rightarrow> ('acc, ArithmeticError, unit) sr"
  bh_try_sub_assign :: "Amount \<Rightarrow> ('acc, ArithmeticError, unit) sr"

type_synonym ('acc, 'a) track = "('acc ResourceController, ExecutionError, 'a) sr"

section \<open>Accounting\<close>

definition rc_balance :: "'acc BalanceHolder \<Rightarrow> 'acc ResourceController \<Rightarrow> ArithmeticError + Amount" where
  "rc_balance bh self = bh_balance bh (rc_account self)"

definition balance_or_max :: "'acc BalanceHolder \<Rightarrow> 'acc ResourceController \<Rightarrow> Amount" where
  "balance_or_max bh self = (case rc_balance bh self of Inr b \<Rightarrow> b | Inl _ \<Rightarrow> num_max)"

definition update_balance :: "'acc BalanceHolder \<Rightarrow> Amount \<Rightarrow> ('acc, unit) track" where
  "update_balance bh fees self =
     (case bh_try_sub_assign bh fees (rc_account self) of
        (Inr _, account) \<Rightarrow> (Inr (), self\<lparr>rc_account := account\<rparr>)
      | (Inl _, account) \<Rightarrow>
          let self = self\<lparr>rc_account := account\<rparr>
          in (Inl (SystemError (InsufficientFundingForFees (balance_or_max bh self))), self))"

definition merge_balance :: "'acc BalanceHolder \<Rightarrow> Amount \<Rightarrow> Amount \<Rightarrow> ('acc, unit) track" where
  "merge_balance bh initial other self =
     (if other \<le> initial then update_balance bh (initial - other) self
      else case bh_try_add_assign bh (other - initial) (rc_account self) of
        (Inr _, account) \<Rightarrow> (Inr (), self\<lparr>rc_account := account\<rparr>)
      | (Inl e, account) \<Rightarrow> (Inl (Exec_ArithmeticError e), self\<lparr>rc_account := account\<rparr>))"

definition remaining_fuel :: "'acc BalanceHolder \<Rightarrow> 'acc ResourceController \<Rightarrow> u64" where
  "remaining_fuel bh self =
     min (policy_remaining_fuel (rc_policy self) (balance_or_max bh self))
       (saturating_sub (maximum_fuel_per_block (rc_policy self)) (rt_fuel (rc_tracker self)))"

text \<open>A counter of the tracker is increased by a checked addition.\<close>

definition bump ::
  "(ResourceTracker \<Rightarrow> 'n::len word) \<Rightarrow> ('n word \<Rightarrow> ResourceTracker \<Rightarrow> ResourceTracker) \<Rightarrow> 'n word
    \<Rightarrow> ('acc, unit) track" where
  "bump field upd n self =
     (case checked_add (field (rc_tracker self)) n of
        None \<Rightarrow> (Inl (Exec_ArithmeticError Overflow), self)
      | Some v \<Rightarrow> (Inr (), self\<lparr>rc_tracker := upd v (rc_tracker self)\<rparr>))"

definition charge ::
  "'acc BalanceHolder \<Rightarrow> (ResourceControlPolicy \<Rightarrow> ArithmeticError + Amount) \<Rightarrow> ('acc, unit) track" where
  "charge bh price self =
     (case price (rc_policy self) of Inl e \<Rightarrow> (Inl (Exec_ArithmeticError e), self)
      | Inr fees \<Rightarrow> update_balance bh fees self)"

definition track_grant :: "'acc BalanceHolder \<Rightarrow> Amount \<Rightarrow> ('acc, unit) track" where
  "track_grant bh grant =
     sr_bind (bump rt_grants (\<lambda>v t. t\<lparr>rt_grants := v\<rparr>) grant) (\<lambda>_. update_balance bh grant)"

definition track_block :: "'acc BalanceHolder \<Rightarrow> ('acc, unit) track" where
  "track_block bh =
     sr_bind (bump rt_blocks (\<lambda>v t. t\<lparr>rt_blocks := v\<rparr>) 1) (\<lambda>_.
     charge bh (\<lambda>p. Inr (block_cost p)))"

definition track_operation :: "'acc BalanceHolder \<Rightarrow> Operation \<Rightarrow> ('acc, unit) track" where
  "track_operation bh operation =
     sr_bind (bump rt_operations (\<lambda>v t. t\<lparr>rt_operations := v\<rparr>) 1) (\<lambda>_.
     sr_bind (charge bh (\<lambda>p. Inr (operation_cost p))) (\<lambda>_.
     case operation of
       System_op _ \<Rightarrow> sr_ok ()
     | User_op _ bs \<Rightarrow>
         let size' = of_nat (length bs) in
         sr_bind (bump rt_operation_bytes (\<lambda>v t. t\<lparr>rt_operation_bytes := v\<rparr>) size') (\<lambda>_.
         charge bh (\<lambda>p. operation_bytes_price p size'))))"

definition track_message :: "'acc BalanceHolder \<Rightarrow> Message \<Rightarrow> ('acc, unit) track" where
  "track_message bh message =
     sr_bind (bump rt_messages (\<lambda>v t. t\<lparr>rt_messages := v\<rparr>) 1) (\<lambda>_.
     sr_bind (charge bh (\<lambda>p. Inr (message_cost p))) (\<lambda>_.
     case message of
       System_msg _ \<Rightarrow> sr_ok ()
     | User_msg _ bs \<Rightarrow>
         let size' = of_nat (length bs) in
         sr_bind (bump rt_message_bytes (\<lambda>v t. t\<lparr>rt_message_bytes := v\<rparr>) size') (\<lambda>_.
         charge bh (\<lambda>p. message_bytes_price p size'))))"

definition track_fuel :: "'acc BalanceHolder \<Rightarrow> u64 \<Rightarrow> ('acc, unit) track" where
  "track_fuel bh fuel =
     sr_bind (bump rt_fuel (\<lambda>v t. t\<lparr>rt_fuel := v\<rparr>) fuel) (\<lambda>_.
     sr_bind (sr_get (\<lambda>self. rt_fuel (rc_tracker self) \<le> maximum_fuel_per_block (rc_policy self))) (\<lambda>within.
     sr_bind (sr_ensure within MaximumFuelExceeded) (\<lambda>_.
     charge bh (\<lambda>p. fuel_price p fuel))))"

definition track_read_operations :: "'acc BalanceHolder \<Rightarrow> u32 \<Rightarrow> ('acc, unit) track" where
  "track_read_operations bh count =
     sr_bind (bump rt_read_operations (\<lambda>v t. t\<lparr>rt_read_operations := v\<rparr>) count) (\<lambda>_.
     charge bh (\<lambda>p. read_operations_price p count))"

definition track_write_operations :: "'acc BalanceHolder \<Rightarrow> u32 \<Rightarrow> ('acc, unit) track" where
  "track_write_operations bh count =
     sr_bind (bump rt_write_operations (\<lambda>v t. t\<lparr>rt_write_operations := v\<rparr>) count) (\<lambda>_.
     charge bh (\<lambda>p. write_operations_price p count))"

definition track_bytes_read :: "'acc BalanceHolder \<Rightarrow> u64 \<Rightarrow> ('acc, unit) track" where
  "track_bytes_read bh count =
     sr_bind (bump rt_bytes_read (\<lambda>v t. t\<lparr>rt_bytes_read := v\<rparr>) count) (\<lambda>_.
     sr_bind (sr_get (\<lambda>self. maximum_bytes_read_per_block (rc_policy self) \<le> rt_bytes_read (rc_tracker self)))
       (\<lambda>excessive.
     if excessive then sr_err ExcessiveRead else charge bh (\<lambda>p. bytes_read_price p count)))"

definition track_bytes_written :: "'acc BalanceHolder \<Rightarrow> u64 \<Rightarrow> ('acc, unit) track" where
  "track_bytes_written bh count =
     sr_bind (bump rt_bytes_written (\<lambda>v t. t\<lparr>rt_bytes_written := v\<rparr>) count) (\<lambda>_.
     sr_bind (sr_get (\<lambda>self. maximum_bytes_written_per_block (rc_policy self) \<le> rt_bytes_written (rc_tracker self)))
       (\<lambda>excessive.
     if excessive then sr_err ExcessiveWrite else charge bh (\<lambda>p. bytes_written_price p count)))"

definition track_stored_bytes :: "32 word \<Rightarrow> ('acc, unit) track" where
  "track_stored_bytes delta self =
     (let sum = sint (rt_bytes_stored (rc_tracker self)) + sint delta in
      if - (2 ^ 31) \<le> sum \<and> sum < 2 ^ 31
      then (Inr (), self\<lparr>rc_tracker := (rc_tracker self)\<lparr>rt_bytes_stored := word_of_int sum\<rparr>\<rparr>)
      else (Inl (Exec_ArithmeticError Overflow), self))"

text \<open>\<^verbatim>\<open>usize::BITS - n.leading_zeros()\<close> is the number of binary digits of \<open>n\<close>.\<close>

fun bit_length :: "nat \<Rightarrow> nat" where
  "bit_length n = (if n = 0 then 0 else Suc (bit_length (n div 2)))"

declare bit_length.simps [simp del]

definition track_executed_block_size :: "nat \<Rightarrow> ('acc, unit) track" where
  "track_executed_block_size size' self =
     (case (if size' < 2 ^ 64 then checked_add (rt_executed_block_size (rc_tracker self)) (of_nat size')
            else None) of
        None \<Rightarrow> (Inl ExecutedBlockTooLarge, self)
      | Some v \<Rightarrow>
          let self = self\<lparr>rc_tracker := (rc_tracker self)\<lparr>rt_executed_block_size := v\<rparr>\<rparr>
          in (ensure (v \<le> maximum_executed_block_size (rc_policy self)) ExecutedBlockTooLarge, self))"

text \<open>\<^verbatim>\<open>bcs::serialized_size\<close> is a parameter.\<close>

definition track_executed_block_size_of :: "('d \<Rightarrow> nat option) \<Rightarrow> 'd \<Rightarrow> ('acc, unit) track" where
  "track_executed_block_size_of serialized_size data =
     (case serialized_size data of None \<Rightarrow> sr_err Exec_Bcs | Some n \<Rightarrow> track_executed_block_size n)"

definition track_executed_block_size_sequence_extension :: "nat \<Rightarrow> nat \<Rightarrow> ('acc, unit) track" where
  "track_executed_block_size_sequence_extension old_len delta =
     (if delta = 0 then sr_ok ()
      else let new_len = old_len + delta;
               old_size = max (bit_length old_len div 7) 1;
               new_size = max (bit_length new_len div 7) 1
           in if old_size < new_size then track_executed_block_size (new_size - old_size) else sr_ok ())"

section \<open>The two kinds of accounts\<close>

definition amount_holder :: "Amount BalanceHolder" where
  "amount_holder = \<lparr>bh_balance = (\<lambda>self. Inr self),
     bh_try_add_assign = (\<lambda>other self. try_add_assign self other),
     bh_try_sub_assign = (\<lambda>other self. try_sub_assign self other)\<rparr>"

text \<open>\<^verbatim>\<open>Sources\<close> holds references to amounts; the model passes their values and returns the new
  ones. An empty list of sources makes \<^verbatim>\<open>last_mut().expect\<close> panic; \<open>with_state_and_grant\<close> always
  pushes one.\<close>

fun sources_balance :: "Amount \<Rightarrow> Amount list \<Rightarrow> ArithmeticError + Amount" where
  "sources_balance amount [] = Inr amount"
| "sources_balance amount (source # sources) =
     bind_r (try_add amount source) (\<lambda>amount. sources_balance amount sources)"

definition sources_try_add_assign :: "Amount \<Rightarrow> (Amount list, ArithmeticError, unit) sr" where
  "sources_try_add_assign other sources =
     (let (r, source) = try_add_assign (last sources) other in (r, butlast sources @ [source]))"

fun sources_try_sub_assign :: "Amount \<Rightarrow> (Amount list, ArithmeticError, unit) sr" where
  "sources_try_sub_assign other [] = (if 0 < other then (Inl Underflow, []) else (Inr (), []))"
| "sources_try_sub_assign other (source # sources) =
     (case try_sub_assign source other of
        (Inr _, source) \<Rightarrow> (Inr (), source # sources)
      | (Inl _, source) \<Rightarrow>
          let (r, sources) = sources_try_sub_assign (other - source) sources in (r, 0 # sources))"

definition sources_holder :: "Amount list BalanceHolder" where
  "sources_holder = \<lparr>bh_balance = sources_balance 0,
     bh_try_add_assign = sources_try_add_assign, bh_try_sub_assign = sources_try_sub_assign\<rparr>"

section \<open>What an account promises\<close>

text \<open>
  \<open>total\<close> is the number of tokens in the account, unbounded. A debit succeeds exactly when the
  account covers it and takes exactly that amount; a credit that succeeds adds exactly that
  amount; a balance that is reported is the total.
\<close>

locale balance_holder =
  fixes bh :: "'acc BalanceHolder" and total :: "'acc \<Rightarrow> nat" and valid :: "'acc \<Rightarrow> bool"
  assumes sub_ok: "valid a \<Longrightarrow> unat x \<le> total a \<Longrightarrow>
      \<exists>a'. bh_try_sub_assign bh x a = (Inr (), a') \<and> valid a' \<and> total a' + unat x = total a"
    and sub_fails: "valid a \<Longrightarrow> total a < unat x \<Longrightarrow> \<exists>a'. bh_try_sub_assign bh x a = (Inl Underflow, a')"
    and add_ok: "valid a \<Longrightarrow> bh_try_add_assign bh x a = (Inr u, a') \<Longrightarrow> valid a' \<and> total a' = total a + unat x"
    and balance_exact: "valid a \<Longrightarrow> bh_balance bh a = Inr b \<Longrightarrow> unat b = total a"
begin

text \<open>The relation between the controllers before and after a successful charge of \<open>n\<close>.\<close>

definition charged :: "nat \<Rightarrow> 'acc ResourceController \<Rightarrow> 'acc ResourceController \<Rightarrow> bool" where
  "charged n s s' \<longleftrightarrow> rc_policy s' = rc_policy s \<and> valid (rc_account s')
     \<and> total (rc_account s') + n = total (rc_account s)"

lemma update_balance_Inr:
  assumes "valid (rc_account s)"
  shows "update_balance bh x s = (Inr u, s') \<longleftrightarrow>
     unat x \<le> total (rc_account s) \<and>
     (\<exists>a'. bh_try_sub_assign bh x (rc_account s) = (Inr (), a') \<and> s' = s\<lparr>rc_account := a'\<rparr>)"
proof (cases "unat x \<le> total (rc_account s)")
  case True
  then show ?thesis using sub_ok [OF assms True] by (auto simp: update_balance_def)
next
  case False
  then show ?thesis using sub_fails [OF assms, of x] by (auto simp: update_balance_def Let_def)
qed

lemma update_balance_charged:
  assumes "valid (rc_account s)" and "update_balance bh x s = (Inr u, s')"
  shows "charged (unat x) s s' \<and> rc_tracker s' = rc_tracker s"
  using sub_ok [OF assms(1), of x] assms by (auto simp: update_balance_Inr charged_def)

lemma charge_charged:
  assumes "valid (rc_account s)" and "charge bh price s = (Inr u, s')"
  shows "\<exists>fees. price (rc_policy s) = Inr fees \<and> charged (unat fees) s s' \<and> rc_tracker s' = rc_tracker s"
  using assms update_balance_charged by (auto simp: charge_def split: sum.splits)

lemma charge_succeeds_iff:
  assumes "valid (rc_account s)"
  shows "(\<exists>s'. charge bh price s = (Inr (), s')) \<longleftrightarrow>
     (\<exists>fees. price (rc_policy s) = Inr fees \<and> unat fees \<le> total (rc_account s))"
  using sub_ok [OF assms] by (fastforce simp: charge_def update_balance_Inr [OF assms] split: sum.splits)

end

section \<open>Exact accounting\<close>

text \<open>What the resources recorded in a tracker cost under a policy, as an unbounded number.\<close>

definition cost :: "ResourceControlPolicy \<Rightarrow> ResourceTracker \<Rightarrow> nat" where
  "cost p t =
     unat (block_cost p) * unat (rt_blocks t) + unat (operation_cost p) * unat (rt_operations t)
     + unat (operation_byte p) * unat (rt_operation_bytes t) + unat (message_cost p) * unat (rt_messages t)
     + unat (message_byte p) * unat (rt_message_bytes t) + unat (fuel_unit p) * unat (rt_fuel t)
     + unat (read_operation p) * unat (rt_read_operations t)
     + unat (write_operation p) * unat (rt_write_operations t)
     + unat (byte_read p) * unat (rt_bytes_read t) + unat (byte_written p) * unat (rt_bytes_written t)
     + unat (rt_grants t)"

datatype TrackEvent =
    Track_grant Amount | Track_block | Track_operation Operation | Track_message Message
  | Track_fuel u64 | Track_read_operations u32 | Track_write_operations u32
  | Track_bytes_read u64 | Track_bytes_written u64 | Track_stored_bytes "32 word"
  | Track_executed_block_size nat | Track_sequence_extension nat nat

fun track :: "'acc BalanceHolder \<Rightarrow> TrackEvent \<Rightarrow> ('acc, unit) track" where
  "track bh (Track_grant a) = track_grant bh a"
| "track bh Track_block = track_block bh"
| "track bh (Track_operation op) = track_operation bh op"
| "track bh (Track_message m) = track_message bh m"
| "track bh (Track_fuel n) = track_fuel bh n"
| "track bh (Track_read_operations n) = track_read_operations bh n"
| "track bh (Track_write_operations n) = track_write_operations bh n"
| "track bh (Track_bytes_read n) = track_bytes_read bh n"
| "track bh (Track_bytes_written n) = track_bytes_written bh n"
| "track bh (Track_stored_bytes n) = track_stored_bytes n"
| "track bh (Track_executed_block_size n) = track_executed_block_size n"
| "track bh (Track_sequence_extension n d) = track_executed_block_size_sequence_extension n d"

lemma bump_Inr [sr_simps]:
  "bump field upd n s = (Inr u, s') \<longleftrightarrow>
     (\<exists>v. checked_add (field (rc_tracker s)) n = Some v \<and> s' = s\<lparr>rc_tracker := upd v (rc_tracker s)\<rparr>)"
  by (auto simp: bump_def split: option.splits)

lemma try_mul_unat: "try_mul a b = Inr c \<Longrightarrow> unat c = unat a * unat b"
  by (auto simp: try_mul_def checked_mul_Some)

lemma executed_block_size_Inr:
  assumes "track_executed_block_size n s = (Inr u, s')"
  shows "\<exists>v. s' = s\<lparr>rc_tracker := (rc_tracker s)\<lparr>rt_executed_block_size := v\<rparr>\<rparr>"
  using assms by (auto simp: track_executed_block_size_def Let_def split: if_splits option.splits)

lemma cost_executed_block_size [simp]:
  "cost p (t\<lparr>rt_executed_block_size := v\<rparr>) = cost p t" "cost p (t\<lparr>rt_bytes_stored := w\<rparr>) = cost p t"
  by (simp_all add: cost_def)

lemma cost_bump:
  "unat v = unat (rt_blocks t) + n \<Longrightarrow> cost p (t\<lparr>rt_blocks := v\<rparr>) = cost p t + unat (block_cost p) * n"
  "unat v = unat (rt_operations t) + n \<Longrightarrow> cost p (t\<lparr>rt_operations := v\<rparr>) = cost p t + unat (operation_cost p) * n"
  "unat w = unat (rt_operation_bytes t) + n \<Longrightarrow>
     cost p (t\<lparr>rt_operation_bytes := w\<rparr>) = cost p t + unat (operation_byte p) * n"
  "unat v = unat (rt_messages t) + n \<Longrightarrow> cost p (t\<lparr>rt_messages := v\<rparr>) = cost p t + unat (message_cost p) * n"
  "unat w = unat (rt_message_bytes t) + n \<Longrightarrow>
     cost p (t\<lparr>rt_message_bytes := w\<rparr>) = cost p t + unat (message_byte p) * n"
  "unat w = unat (rt_fuel t) + n \<Longrightarrow> cost p (t\<lparr>rt_fuel := w\<rparr>) = cost p t + unat (fuel_unit p) * n"
  "unat v = unat (rt_read_operations t) + n \<Longrightarrow>
     cost p (t\<lparr>rt_read_operations := v\<rparr>) = cost p t + unat (read_operation p) * n"
  "unat v = unat (rt_write_operations t) + n \<Longrightarrow>
     cost p (t\<lparr>rt_write_operations := v\<rparr>) = cost p t + unat (write_operation p) * n"
  "unat w = unat (rt_bytes_read t) + n \<Longrightarrow> cost p (t\<lparr>rt_bytes_read := w\<rparr>) = cost p t + unat (byte_read p) * n"
  "unat w = unat (rt_bytes_written t) + n \<Longrightarrow>
     cost p (t\<lparr>rt_bytes_written := w\<rparr>) = cost p t + unat (byte_written p) * n"
  "unat a = unat (rt_grants t) + n \<Longrightarrow> cost p (t\<lparr>rt_grants := a\<rparr>) = cost p t + n"
  by (simp_all add: cost_def algebra_simps)

context balance_holder
begin

definition balanced :: "'acc ResourceController \<Rightarrow> 'acc ResourceController \<Rightarrow> bool" where
  "balanced s s' \<longleftrightarrow> rc_policy s' = rc_policy s \<and> valid (rc_account s')
     \<and> total (rc_account s') + cost (rc_policy s) (rc_tracker s')
       = total (rc_account s) + cost (rc_policy s) (rc_tracker s)"

lemma balanced_trans: "balanced s s1 \<Longrightarrow> balanced s1 s2 \<Longrightarrow> balanced s s2"
  by (simp add: balanced_def)

lemma balanced_same:
  "valid (rc_account s) \<Longrightarrow> cost (rc_policy s) t = cost (rc_policy s) (rc_tracker s) \<Longrightarrow>
     balanced s (s\<lparr>rc_tracker := t\<rparr>)"
  by (simp add: balanced_def)

lemma bump_charge_balanced:
  assumes v: "valid (rc_account s)"
    and b: "bump field upd n s = (Inr u, s1)" and c: "charge bh price s1 = (Inr u', s')"
    and cost: "\<And>v. unat v = unat (field (rc_tracker s)) + unat n \<Longrightarrow>
      cost (rc_policy s) (upd v (rc_tracker s)) = cost (rc_policy s) (rc_tracker s) + k"
    and price: "\<And>fees. price (rc_policy s) = Inr fees \<Longrightarrow> unat fees = k"
  shows "balanced s s'"
proof -
  obtain w where w: "checked_add (field (rc_tracker s)) n = Some w"
      and s1: "s1 = s\<lparr>rc_tracker := upd w (rc_tracker s)\<rparr>"
    using b by (auto simp: sr_simps)
  obtain fees where fees: "price (rc_policy s) = Inr fees" and ch: "charged (unat fees) s1 s'"
      and t: "rc_tracker s' = rc_tracker s1"
    using charge_charged [OF _ c] v by (auto simp: s1)
  then show ?thesis
    using cost [OF checked_add_Some [OF w]] price [OF fees] by (simp add: balanced_def charged_def s1)
qed

lemmas price_defs = operation_bytes_price_def message_bytes_price_def fuel_price_def
  read_operations_price_def write_operations_price_def bytes_read_price_def bytes_written_price_def

lemma track_simple_balanced:
  assumes "valid (rc_account s)"
  shows "track_block bh s = (Inr u, s') \<Longrightarrow> balanced s s'"
    and "track_read_operations bh m s = (Inr u, s') \<Longrightarrow> balanced s s'"
    and "track_write_operations bh m s = (Inr u, s') \<Longrightarrow> balanced s s'"
    and "track_fuel bh n s = (Inr u, s') \<Longrightarrow> balanced s s'"
    and "track_bytes_read bh n s = (Inr u, s') \<Longrightarrow> balanced s s'"
    and "track_bytes_written bh n s = (Inr u, s') \<Longrightarrow> balanced s s'"
  unfolding track_block_def track_read_operations_def track_write_operations_def track_fuel_def
    track_bytes_read_def track_bytes_written_def sr_bind_Inr
  by (auto simp: sr_get_eq sr_ensure_Inr sr_err_eq cost_bump price_defs dest: try_mul_unat split: if_splits
      elim!: bump_charge_balanced [OF assms])

lemma track_grant_balanced:
  assumes v: "valid (rc_account s)" and r: "track_grant bh a s = (Inr u, s')"
  shows "balanced s s'"
proof -
  obtain w where w: "unat w = unat (rt_grants (rc_tracker s)) + unat a"
      and c: "update_balance bh a (s\<lparr>rc_tracker := (rc_tracker s)\<lparr>rt_grants := w\<rparr>\<rparr>) = (Inr u, s')"
    using r by (auto simp: track_grant_def sr_simps dest: checked_add_Some)
  show ?thesis
    using update_balance_charged [OF _ c] v by (simp add: charged_def balanced_def cost_bump(11) [OF w])
qed

lemma track_sized_balanced:
  assumes v: "valid (rc_account s)"
    and b1: "bump field upd n s = (Inr u, s1)" and c1: "charge bh price s1 = (Inr u, s2)"
    and cost1: "\<And>v. unat v = unat (field (rc_tracker s)) + unat n \<Longrightarrow>
      cost (rc_policy s) (upd v (rc_tracker s)) = cost (rc_policy s) (rc_tracker s) + k"
    and price1: "\<And>fees. price (rc_policy s) = Inr fees \<Longrightarrow> unat fees = k"
    and b2: "bump field' upd' n' s2 = (Inr u, s3)" and c2: "charge bh price' s3 = (Inr u, s')"
    and cost2: "\<And>v. unat v = unat (field' (rc_tracker s2)) + unat n' \<Longrightarrow>
      cost (rc_policy s2) (upd' v (rc_tracker s2)) = cost (rc_policy s2) (rc_tracker s2) + k'"
    and price2: "\<And>fees. price' (rc_policy s2) = Inr fees \<Longrightarrow> unat fees = k'"
  shows "balanced s s'"
proof -
  have b: "balanced s s2" by (rule bump_charge_balanced [OF v b1 c1 cost1 price1])
  then have "valid (rc_account s2)" by (simp add: balanced_def)
  from balanced_trans [OF b bump_charge_balanced [OF this b2 c2 cost2 price2]] show ?thesis .
qed

lemma track_operation_balanced:
  assumes v: "valid (rc_account s)" and r: "track_operation bh op s = (Inr u, s')"
  shows "balanced s s'"
proof (cases op)
  case (System_op x)
  then show ?thesis using r
    by (auto simp: track_operation_def sr_simps(1) sr_ok_eq cost_bump elim!: bump_charge_balanced [OF v])
next
  case (User_op app bs)
  then show ?thesis using r
    by (auto simp: track_operation_def sr_simps(1) Let_def cost_bump price_defs dest: try_mul_unat
        elim!: track_sized_balanced [OF v])
qed

lemma track_message_balanced:
  assumes v: "valid (rc_account s)" and r: "track_message bh m s = (Inr u, s')"
  shows "balanced s s'"
proof (cases m)
  case (System_msg x)
  then show ?thesis using r
    by (auto simp: track_message_def sr_simps(1) sr_ok_eq cost_bump elim!: bump_charge_balanced [OF v])
next
  case (User_msg app bs)
  then show ?thesis using r
    by (auto simp: track_message_def sr_simps(1) Let_def cost_bump price_defs dest: try_mul_unat
        elim!: track_sized_balanced [OF v])
qed

lemma track_size_balanced:
  assumes v: "valid (rc_account s)"
  shows "track_executed_block_size n s = (Inr u, s') \<Longrightarrow> balanced s s'"
    and "track_executed_block_size_sequence_extension n d s = (Inr u, s') \<Longrightarrow> balanced s s'"
    and "track_stored_bytes w s = (Inr u, s') \<Longrightarrow> balanced s s'"
proof -
  show sz: "balanced s s'" if "track_executed_block_size n s = (Inr u, s')" for n
    using executed_block_size_Inr [OF that] v by (auto intro: balanced_same)
  show "balanced s s'" if "track_executed_block_size_sequence_extension n d s = (Inr u, s')"
    using that sz v by (auto simp: track_executed_block_size_sequence_extension_def Let_def sr_ok_eq balanced_def
        split: if_splits)
  show "balanced s s'" if "track_stored_bytes w s = (Inr u, s')"
    using that v by (auto simp: track_stored_bytes_def Let_def split: if_splits intro: balanced_same)
qed

lemma track_balanced:
  "valid (rc_account s) \<Longrightarrow> track bh ev s = (Inr u, s') \<Longrightarrow> balanced s s'"
  by (cases ev)
    (auto intro: track_simple_balanced track_grant_balanced track_operation_balanced track_message_balanced
      track_size_balanced)

lemma tracks_balanced:
  assumes "valid (rc_account s)" and "sr_each (track bh) evs s = (Inr u, s')"
  shows "balanced s s'"
proof (rule sr_each_invariant [OF assms(2)])
  show "balanced s s" using assms(1) by (simp add: balanced_def)
  fix x t t' v
  assume b: "balanced s t" and t: "track bh x t = (Inr v, t')"
  then show "balanced s t'" using track_balanced [OF _ t] balanced_trans by (simp add: balanced_def)
qed

text \<open>\<open>remaining_fuel\<close> is the largest amount of fuel that can still be tracked.\<close>

lemma fuel_trackable_iff:
  assumes v: "valid (rc_account s)" and b: "rc_balance bh s = Inr b"
    and within: "rt_fuel (rc_tracker s) \<le> maximum_fuel_per_block (rc_policy s)"
  shows "(\<exists>s'. track_fuel bh n s = (Inr (), s')) \<longleftrightarrow> n \<le> remaining_fuel bh s"
proof -
  let ?f = "rt_fuel (rc_tracker s)" and ?max = "maximum_fuel_per_block (rc_policy s)"
  have tot: "total (rc_account s) = unat b" using b balance_exact [OF v] by (simp add: rc_balance_def)
  have add: "unat ?f + unat n < 2 ^ 64 \<and> ?f + n \<le> ?max \<longleftrightarrow> n \<le> saturating_sub ?max ?f"
  proof -
    have "unat ?max < 2 ^ 64" using unat_lt_pow [of ?max] by simp
    moreover have "unat (?f + n) = unat ?f + unat n" if "unat ?f + unat n < 2 ^ 64"
      using that by (simp add: unat_word_ariths)
    moreover have "unat ?f \<le> unat ?max" using within by (simp add: word_le_nat_alt)
    ultimately show ?thesis
      unfolding word_le_nat_alt unat_saturating_sub by linarith
  qed
  have ch: "(\<exists>s'. charge bh (\<lambda>p. fuel_price p n) (s\<lparr>rc_tracker := t\<rparr>) = (Inr (), s'))
      \<longleftrightarrow> n \<le> policy_remaining_fuel (rc_policy s) b" for t
    using v by (simp add: charge_succeeds_iff tot fuel_affordable_iff)
  have "(\<exists>s'. track_fuel bh n s = (Inr (), s')) \<longleftrightarrow>
      (unat ?f + unat n < 2 ^ 64 \<and> ?f + n \<le> ?max) \<and>
      (\<exists>s'. charge bh (\<lambda>p. fuel_price p n) (s\<lparr>rc_tracker := (rc_tracker s)\<lparr>rt_fuel := ?f + n\<rparr>\<rparr>) = (Inr (), s'))"
    by (auto simp: track_fuel_def sr_simps checked_add_def)
  then show ?thesis
    unfolding ch add by (auto simp: remaining_fuel_def balance_or_max_def b)
qed

end

section \<open>Both accounts keep the promise\<close>

lemma try_sub_assign_cases:
  "try_sub_assign a b = (if b \<le> a then (Inr (), a - b) else (Inl Underflow, a))"
  by (simp add: try_sub_assign_def assign_num_def checked_sub_def)

lemma try_add_assign_Inr:
  "try_add_assign a b = (Inr u, c) \<Longrightarrow> unat c = unat a + unat b"
  by (auto simp: try_add_assign_def assign_num_def ok_or_def split: option.splits dest: checked_add_Some)

interpretation amount: balance_holder amount_holder unat "\<lambda>_. True"
proof unfold_locales
  fix a x a' :: Amount and u :: unit
  show "bh_try_add_assign amount_holder x a = (Inr u, a') \<Longrightarrow> True \<and> unat a' = unat a + unat x"
    by (simp add: amount_holder_def try_add_assign_Inr)
qed (auto simp: amount_holder_def try_sub_assign_cases word_le_nat_alt unat_sub)

lemma sources_sub_covers:
  "unat x \<le> sum_list (map unat ss) \<Longrightarrow>
     \<exists>ss'. sources_try_sub_assign x ss = (Inr (), ss') \<and> length ss' = length ss
       \<and> sum_list (map unat ss') + unat x = sum_list (map unat ss)"
proof (induction x ss rule: sources_try_sub_assign.induct)
  case (2 x s ss)
  show ?case
  proof (cases "x \<le> s")
    case True
    then show ?thesis by (simp add: try_sub_assign_cases unat_sub word_le_nat_alt)
  next
    case False
    then have lt: "unat s < unat x" and d: "unat (x - s) = unat x - unat s"
      by (simp_all add: word_le_nat_alt unat_sub)
    then have "unat (x - s) \<le> sum_list (map unat ss)" using 2(2) by simp
    with 2(1) [of "Inl Underflow" s Underflow] False obtain ss' where
      "sources_try_sub_assign (x - s) ss = (Inr (), ss')" "length ss' = length ss"
      "sum_list (map unat ss') + unat (x - s) = sum_list (map unat ss)"
      by (auto simp: try_sub_assign_cases)
    then show ?thesis using False lt d by (simp add: try_sub_assign_cases)
  qed
qed (simp add: word_less_nat_alt)

text \<open>A debit that the sources do not cover fails only after it has emptied all of them.\<close>

lemma sources_sub_empties:
  "sum_list (map unat ss) < unat x \<Longrightarrow>
     sources_try_sub_assign x ss = (Inl Underflow, replicate (length ss) 0)"
proof (induction x ss rule: sources_try_sub_assign.induct)
  case (1 x)
  then show ?case by (simp add: word_less_nat_alt)
next
  case (2 x s ss)
  then have "\<not> x \<le> s" "sum_list (map unat ss) < unat (x - s)"
    by (simp_all add: word_le_nat_alt unat_sub)
  then show ?case using 2(1) [of "Inl Underflow" s Underflow] by (simp add: try_sub_assign_cases)
qed

lemma sources_balance_exact:
  "sources_balance a ss = Inr b \<Longrightarrow> unat b = unat a + sum_list (map unat ss)"
proof (induction a ss rule: sources_balance.induct)
  case (2 a s ss)
  then obtain c where "try_add a s = Inr c" "sources_balance c ss = Inr b"
    by (auto simp: result_simps)
  then show ?case using 2(1) try_add_unat [of a s c] by simp
qed simp

lemma sources_add_exact:
  assumes "ss \<noteq> []" and "sources_try_add_assign x ss = (Inr u, ss')"
  shows "ss' \<noteq> [] \<and> sum_list (map unat ss') = sum_list (map unat ss) + unat x"
proof -
  obtain as a where "ss = as @ [a]" using assms(1) by (cases ss rule: rev_cases) auto
  then show ?thesis
    using assms(2) by (auto simp: sources_try_add_assign_def Let_def dest: try_add_assign_Inr split: prod.splits)
qed

interpretation sources: balance_holder sources_holder "\<lambda>ss. sum_list (map unat ss)" "\<lambda>ss. ss \<noteq> []"
proof unfold_locales
  fix a a' :: "Amount list" and x b :: Amount and u :: unit
  assume ne: "a \<noteq> []"
  show "\<exists>a'. bh_try_sub_assign sources_holder x a = (Inr (), a') \<and> a' \<noteq> []
      \<and> sum_list (map unat a') + unat x = sum_list (map unat a)" if "unat x \<le> sum_list (map unat a)"
    using sources_sub_covers [OF that] ne by (fastforce simp: sources_holder_def)
  show "\<exists>a'. bh_try_sub_assign sources_holder x a = (Inl Underflow, a')" if "sum_list (map unat a) < unat x"
    using sources_sub_empties [OF that] by (simp add: sources_holder_def)
  show "a' \<noteq> [] \<and> sum_list (map unat a') = sum_list (map unat a) + unat x"
    if "bh_try_add_assign sources_holder x a = (Inr u, a')"
    using sources_add_exact [OF ne] that by (simp add: sources_holder_def)
  show "unat b = sum_list (map unat a)" if "bh_balance sources_holder a = Inr b"
    using sources_balance_exact [of 0 a b] that by (simp add: sources_holder_def)
qed

section \<open>Properties\<close>

text \<open>C16. Fees are charged exactly. Starting from any non-empty list of funding sources, after any
  sequence of tracked events that all succeed, the tokens left in the sources plus the cost of the
  resources recorded in the tracker equal the tokens at the start plus the cost recorded then:
  nothing is charged twice, forgotten, or rounded, and the policy is unchanged.\<close>

theorem fees_charged_exactly:
  assumes "rc_account s \<noteq> []" and "sr_each (track sources_holder) evs s = (Inr (), s')"
  shows "sum_list (map unat (rc_account s')) + cost (rc_policy s) (rc_tracker s')
       = sum_list (map unat (rc_account s)) + cost (rc_policy s) (rc_tracker s)
    \<and> rc_policy s' = rc_policy s"
  using sources.tracks_balanced [OF assms] by (simp add: sources.balanced_def)

definition tracker_default :: ResourceTracker where
  "tracker_default = \<lparr>rt_blocks = 0, rt_executed_block_size = 0, rt_fuel = 0, rt_read_operations = 0,
     rt_write_operations = 0, rt_bytes_read = 0, rt_bytes_written = 0, rt_bytes_stored = 0,
     rt_operations = 0, rt_operation_bytes = 0, rt_messages = 0, rt_message_bytes = 0, rt_grants = 0\<rparr>"

definition sample_policy :: ResourceControlPolicy where
  "sample_policy = policy_default\<lparr>block_cost := 5, fuel_unit := 2, operation_cost := 3, operation_byte := 1\<rparr>"

definition sample_controller :: "Amount list ResourceController" where
  "sample_controller = \<lparr>rc_policy = sample_policy, rc_tracker = tracker_default, rc_account = [6, 10]\<rparr>"

definition sample_events :: "TrackEvent list" where
  "sample_events = [Track_block, Track_operation (System_op Op_CloseChain), Track_fuel 3]"

lemma sample_tracking:
  "sr_each (track sources_holder) sample_events sample_controller =
     (Inr (), sample_controller\<lparr>rc_account := [0, 2],
        rc_tracker := tracker_default\<lparr>rt_blocks := 1, rt_operations := 1, rt_fuel := 3\<rparr>\<rparr>)"
  by (simp add: sample_events_def sample_controller_def sample_policy_def policy_default_def
      tracker_default_def track_block_def track_operation_def track_fuel_def sr_bind_def sr_ok_def
      sr_get_def sr_ensure_def bump_def charge_def update_balance_def sources_holder_def
      try_sub_assign_cases checked_add_def fuel_price_def try_mul_cases word_le_nat_alt)

theorem fees_charged_exactly_witness:
  "sum_list (map unat ([0, 2] :: Amount list))
     + cost sample_policy (tracker_default\<lparr>rt_blocks := 1, rt_operations := 1, rt_fuel := 3\<rparr>)
   = sum_list (map unat (rc_account sample_controller)) + cost sample_policy tracker_default"
  using fees_charged_exactly [OF _ sample_tracking] by (simp add: sample_controller_def)

text \<open>C35. \<open>remaining_fuel\<close> is exact: with an account holding a single amount, as long as the fuel used
  so far is within the block limit, an amount of fuel can be tracked successfully if and only if
  it is at most \<open>remaining_fuel\<close>.\<close>

theorem remaining_fuel_exact:
  assumes "rt_fuel (rc_tracker s) \<le> maximum_fuel_per_block (rc_policy s)"
  shows "(\<exists>s'. track_fuel amount_holder n s = (Inr (), s')) \<longleftrightarrow> n \<le> remaining_fuel amount_holder s"
  using amount.fuel_trackable_iff [OF _ _ assms] by (simp add: rc_balance_def amount_holder_def)

theorem remaining_fuel_exact_witness:
  "(\<exists>s'. track_fuel amount_holder 6
      \<lparr>rc_policy = sample_policy, rc_tracker = tracker_default, rc_account = 13\<rparr> = (Inr (), s'))
   \<and> \<not> (\<exists>s'. track_fuel amount_holder 7
      \<lparr>rc_policy = sample_policy, rc_tracker = tracker_default, rc_account = 13\<rparr> = (Inr (), s'))"
proof -
  have "remaining_fuel amount_holder
      \<lparr>rc_policy = sample_policy, rc_tracker = tracker_default, rc_account = 13\<rparr> = 6"
    by (simp add: remaining_fuel_def balance_or_max_def rc_balance_def amount_holder_def sample_policy_def
        policy_default_def policy_remaining_fuel_def saturating_div_def tracker_default_def
        saturating_sub_def checked_sub_def num_max_def)
  then show ?thesis
    using remaining_fuel_exact
      [of "\<lparr>rc_policy = sample_policy, rc_tracker = tracker_default, rc_account = 13\<rparr>"]
    by (simp add: tracker_default_def)
qed

text \<open>The number of bytes of the ULEB128 encoding: seven bits per byte, at least one byte.\<close>

fun uleb128_bytes :: "nat \<Rightarrow> nat" where
  "uleb128_bytes n = (if n < 128 then 1 else Suc (uleb128_bytes (n div 128)))"

declare uleb128_bytes.simps [simp del]


text \<open>C39. A fee that the funding sources do not cover is reported with balance zero, whatever they
  held: the failed debit empties them before the error reads the balance.\<close>

theorem uncovered_fees_report_zero:
  assumes "sum_list (map unat (rc_account s)) < unat fees"
  shows "update_balance sources_holder fees s =
     (Inl (SystemError (InsufficientFundingForFees 0)),
      s\<lparr>rc_account := replicate (length (rc_account s)) 0\<rparr>)"
proof -
  have "sources_balance 0 (replicate n 0) = Inr 0" for n
    by (induction n) (simp_all add: try_add_def checked_add_def)
  then show ?thesis
    using sources_sub_empties [OF assms]
    by (simp add: update_balance_def sources_holder_def Let_def balance_or_max_def rc_balance_def)
qed

theorem uncovered_fees_report_zero_witness:
  "fst (update_balance sources_holder 17 sample_controller) =
     Inl (SystemError (InsufficientFundingForFees 0))"
  using uncovered_fees_report_zero [of sample_controller 17] by (simp add: sample_controller_def)

end
