(* ===== verification/Transaction_Tracker.thy ===== *)
theory Transaction_Tracker
  imports State_Result Execution_Types
begin

text \<open>
  The record of one transaction's execution (\<^verbatim>\<open>linera-execution/src/transaction_tracker.rs\<close>): the
  outcomes, the index of the next outgoing message, and the oracle responses, which are either
  recorded for the first time or replayed from an earlier execution.
\<close>

record TransactionTracker =
  replaying_oracle_responses :: "OracleResponse list option"
  tt_oracle_responses :: "OracleResponse list"
  outcomes :: "ExecutionOutcome list"
  tt_next_message_index :: u32

definition TransactionTracker_new :: "u32 \<Rightarrow> OracleResponse list option \<Rightarrow> TransactionTracker" where
  "TransactionTracker_new next_index responses =
     \<lparr>replaying_oracle_responses = responses, tt_oracle_responses = [], outcomes = [],
      tt_next_message_index = next_index\<rparr>"

definition next_message_index :: "TransactionTracker \<Rightarrow> u32" where
  "next_message_index self = tt_next_message_index self"

definition add_outcome :: "ExecutionOutcome \<Rightarrow> (TransactionTracker, ArithmeticError, unit) sr" where
  "add_outcome outcome self =
     (if 2 ^ 32 \<le> message_count outcome then (Inl Overflow, self)
      else case checked_add (tt_next_message_index self) (of_nat (message_count outcome)) of
        None \<Rightarrow> (Inl Overflow, self)
      | Some index \<Rightarrow> (Inr (), self\<lparr>tt_next_message_index := index, outcomes := outcomes self @ [outcome]\<rparr>))"

definition add_system_outcome ::
  "(SystemMessage, Amount) RawExecutionOutcome \<Rightarrow> (TransactionTracker, ArithmeticError, unit) sr" where
  "add_system_outcome outcome = add_outcome (System_outcome outcome)"

definition add_user_outcome ::
  "ApplicationId \<Rightarrow> (bytes, Amount) RawExecutionOutcome \<Rightarrow> (TransactionTracker, ArithmeticError, unit) sr" where
  "add_user_outcome application_id outcome = add_outcome (User_outcome application_id outcome)"

definition add_outcomes :: "ExecutionOutcome list \<Rightarrow> (TransactionTracker, ArithmeticError, unit) sr" where
  "add_outcomes os = sr_each add_outcome os"

definition add_oracle_response :: "OracleResponse \<Rightarrow> TransactionTracker \<Rightarrow> TransactionTracker" where
  "add_oracle_response oracle_response self =
     self\<lparr>tt_oracle_responses := tt_oracle_responses self @ [oracle_response]\<rparr>"

definition next_replayed_oracle_response ::
  "(TransactionTracker, SystemExecutionError, OracleResponse option) sr" where
  "next_replayed_oracle_response self =
     (case replaying_oracle_responses self of
        None \<Rightarrow> (Inr None, self)
      | Some [] \<Rightarrow> (Inl MissingOracleResponse, self)
      | Some (response # rest) \<Rightarrow> (Inr (Some response), self\<lparr>replaying_oracle_responses := Some rest\<rparr>))"

definition replay_oracle_response ::
  "OracleResponse \<Rightarrow> (TransactionTracker, SystemExecutionError, bool) sr" where
  "replay_oracle_response oracle_response =
     sr_bind next_replayed_oracle_response (\<lambda>recorded.
     sr_bind (case recorded of
                Some recorded_response \<Rightarrow>
                  sr_bind (sr_ensure (recorded_response = oracle_response) Sys_OracleResponseMismatch)
                    (\<lambda>_. sr_ok True)
              | None \<Rightarrow> sr_ok False) (\<lambda>replaying.
     sr_bind (sr_modify (add_oracle_response oracle_response)) (\<lambda>_. sr_ok replaying)))"

definition destructure ::
  "TransactionTracker \<Rightarrow> ExecutionError + ExecutionOutcome list \<times> OracleResponse list \<times> u32" where
  "destructure self =
     (if replaying_oracle_responses self \<noteq> None \<and> replaying_oracle_responses self \<noteq> Some []
      then Inl UnexpectedOracleResponse
      else Inr (outcomes self, tt_oracle_responses self, tt_next_message_index self))"

lemma replay_oracle_response_eq:
  "replay_oracle_response r t =
     (case replaying_oracle_responses t of
        None \<Rightarrow> (Inr False, add_oracle_response r t)
      | Some [] \<Rightarrow> (Inl MissingOracleResponse, t)
      | Some (x # xs) \<Rightarrow>
          let t = t\<lparr>replaying_oracle_responses := Some xs\<rparr> in
          if x = r then (Inr True, add_oracle_response r t) else (Inl Sys_OracleResponseMismatch, t))"
  by (simp add: replay_oracle_response_def next_replayed_oracle_response_def sr_bind_def sr_ensure_def
      sr_modify_def sr_ok_def ensure_def Let_def split: option.split list.split)

lemma replay_outcomes: "replay_oracle_response r t = (Inr b, t') \<Longrightarrow> outcomes t' = outcomes t"
  by (auto simp: replay_oracle_response_eq add_oracle_response_def Let_def
      split: option.splits list.splits if_splits)

section \<open>Message indices\<close>

definition outcome_messages :: "ExecutionOutcome list \<Rightarrow> nat" where
  "outcome_messages os = sum_list (map message_count os)"

lemma add_outcome_Inr:
  assumes "add_outcome out t = (Inr u, t')"
  shows "outcomes t' = outcomes t @ [out]
    \<and> unat (tt_next_message_index t') = unat (tt_next_message_index t) + message_count out
    \<and> replaying_oracle_responses t' = replaying_oracle_responses t
    \<and> tt_oracle_responses t' = tt_oracle_responses t"
  using assms
  by (auto simp: add_outcome_def unat_of_nat_small dest!: checked_add_Some split: if_splits option.splits)

lemma add_outcomes_Inr:
  assumes "add_outcomes os t = (Inr u, t')"
  shows "outcomes t' = outcomes t @ os
    \<and> unat (tt_next_message_index t') = unat (tt_next_message_index t) + outcome_messages os"
  using assms unfolding add_outcomes_def
proof (induction os arbitrary: t)
  case (Cons out os)
  then obtain t1 where "add_outcome out t = (Inr (), t1)" "sr_each add_outcome os t1 = (Inr u, t')"
    by (auto simp: sr_simps)
  then show ?case using add_outcome_Inr Cons.IH by (simp add: outcome_messages_def)
qed (simp add: sr_simps outcome_messages_def)

section \<open>Replaying oracle responses\<close>

text \<open>
  Two trackers run in step when one records and the other replays the same responses: the
  replaying tracker has already consumed what the recording one has recorded so far. \<open>rest\<close> is
  what is still to be replayed.
\<close>

definition in_step :: "OracleResponse list \<Rightarrow> TransactionTracker \<Rightarrow> TransactionTracker \<Rightarrow> bool" where
  "in_step rest rec rep \<longleftrightarrow> replaying_oracle_responses rec = None \<and> replaying_oracle_responses rep = Some rest
     \<and> tt_oracle_responses rep = tt_oracle_responses rec \<and> outcomes rep = outcomes rec
     \<and> tt_next_message_index rep = tt_next_message_index rec"

lemma in_step_new: "in_step rs (TransactionTracker_new i None) (TransactionTracker_new i (Some rs))"
  by (simp add: in_step_def TransactionTracker_new_def)

lemma replay_in_step:
  assumes "in_step (r # rest) rec rep" and "replay_oracle_response r rec = (Inr b, rec')"
  shows "\<exists>rep'. replay_oracle_response r rep = (Inr True, rep') \<and> in_step rest rec' rep'"
  using assms by (auto simp: replay_oracle_response_eq in_step_def add_oracle_response_def)

lemma record_appends:
  assumes "replaying_oracle_responses t = None"
  shows "replay_oracle_response r t = (Inr False, add_oracle_response r t)"
  using assms
  by (simp add: replay_oracle_response_eq)

lemma add_outcome_in_step:
  assumes "in_step rest rec rep" and "add_outcome out rec = (Inr u, rec')"
  shows "\<exists>rep'. add_outcome out rep = (Inr u, rep') \<and> in_step rest rec' rep'"
  using assms by (auto simp: add_outcome_def in_step_def split: if_splits option.splits)

end
