(* ===== verification/Applications.thy ===== *)
theory Applications
  imports Execution_Types
begin

text \<open>
  The registry of applications known to a chain (\<^verbatim>\<open>linera-execution/src/applications.rs\<close>). The map
  view is an association list. \<open>find_dependencies\<close> is the depth-first search of the code, with its
  explicit stack; it terminates on every registry, and on registries without cyclic dependencies
  it lists every application after everything it requires.
\<close>

type_synonym Registry = "(ApplicationId \<times> UserApplicationDescription) list"

definition describe_application ::
  "Registry \<Rightarrow> ApplicationId \<Rightarrow> SystemExecutionError + UserApplicationDescription" where
  "describe_application self app_id = ok_or (map_of self app_id) (UnknownApplicationId app_id)"

fun describe_all :: "Registry \<Rightarrow> ApplicationId list \<Rightarrow> SystemExecutionError + unit" where
  "describe_all self [] = Inr ()"
| "describe_all self (required_id # ids) =
     bind_r (describe_application self required_id) (\<lambda>_. describe_all self ids)"

definition known_insert :: "ApplicationId \<Rightarrow> UserApplicationDescription \<Rightarrow> Registry \<Rightarrow> Registry" where
  "known_insert app_id description self = (app_id, description) # bt_remove app_id self"

definition ApplicationId_from :: "UserApplicationDescription \<Rightarrow> ApplicationId" where
  "ApplicationId_from description =
     \<lparr>bytecode_id = ad_bytecode_id description, creation = ad_creation description\<rparr>"

definition register_application ::
  "Registry \<Rightarrow> UserApplicationDescription \<Rightarrow> SystemExecutionError + ApplicationId \<times> Registry" where
  "register_application self application =
     bind_r (describe_all self (ad_required_application_ids application)) (\<lambda>_.
     let app_id = ApplicationId_from application in
     Inr (app_id, known_insert app_id application self))"

definition register_new_application ::
  "Registry \<Rightarrow> ApplicationId \<Rightarrow> bytes \<Rightarrow> ApplicationId list \<Rightarrow> SystemExecutionError + Registry" where
  "register_new_application self application_id parameters required_application_ids =
     bind_r (describe_all self required_application_ids) (\<lambda>_.
     let description = \<lparr>ad_bytecode_id = bytecode_id application_id, ad_creation = creation application_id,
           ad_parameters = parameters, ad_required_application_ids = required_application_ids\<rparr> in
     Inr (known_insert application_id description self))"

text \<open>\<^verbatim>\<open>registered_apps.get(&id)\<close>, then the chain's own registry.\<close>

definition lookup_app ::
  "Registry \<Rightarrow> Registry \<Rightarrow> ApplicationId \<Rightarrow> SystemExecutionError + UserApplicationDescription" where
  "lookup_app self registered_apps app_id =
     (case map_of registered_apps app_id of Some app \<Rightarrow> Inr app | None \<Rightarrow> describe_application self app_id)"

text \<open>The loop of \<open>find_dependencies\<close>; the head of the list is the top of the stack.\<close>

function dependency_loop ::
  "Registry \<Rightarrow> Registry \<Rightarrow> ApplicationId list \<Rightarrow> ApplicationId list \<Rightarrow> ApplicationId set \<Rightarrow> ApplicationId set
    \<Rightarrow> SystemExecutionError + ApplicationId list" where
  "dependency_loop self registered_apps [] result sorted_ids seen = Inr result"
| "dependency_loop self registered_apps (app_id # stack) result sorted_ids seen =
     (if app_id \<in> sorted_ids then dependency_loop self registered_apps stack result sorted_ids seen
      else if app_id \<in> seen
      then dependency_loop self registered_apps stack (result @ [app_id]) (insert app_id sorted_ids) seen
      else case lookup_app self registered_apps app_id of
        Inl e \<Rightarrow> Inl e
      | Inr app \<Rightarrow>
          dependency_loop self registered_apps
            (filter (\<lambda>child. child \<notin> insert app_id seen) (ad_required_application_ids app) @ app_id # stack)
            result sorted_ids (insert app_id seen))"
  by pat_completeness auto

text \<open>Every iteration either marks a known application as seen or shortens the stack.\<close>

definition known_ids :: "Registry \<Rightarrow> Registry \<Rightarrow> ApplicationId set" where
  "known_ids self registered_apps = fst ` set self \<union> fst ` set registered_apps"

lemma finite_known_ids: "finite (known_ids self registered_apps)"
  by (simp add: known_ids_def)

lemma lookup_app_known: "lookup_app self registered_apps app_id = Inr app \<Longrightarrow> app_id \<in> known_ids self registered_apps"
  by (force simp: lookup_app_def describe_application_def known_ids_def dest: map_of_SomeD split: option.splits)

termination dependency_loop
proof (relation "measures
    [\<lambda>(self, regs, stack, result, sorted_ids, seen). card (known_ids self regs - seen),
     \<lambda>(self, regs, stack, result, sorted_ids, seen). length stack]", goal_cases)
  case (4 self regs app_id stack result sorted_ids seen app)
  have "app_id \<in> known_ids self regs - seen" using lookup_app_known 4 by blast
  then have "known_ids self regs - insert app_id seen \<subset> known_ids self regs - seen" by blast
  then have "card (known_ids self regs - insert app_id seen) < card (known_ids self regs - seen)"
    by (intro psubset_card_mono) (simp_all add: finite_known_ids)
  then show ?case by simp
qed simp_all

definition find_dependencies ::
  "Registry \<Rightarrow> ApplicationId list \<Rightarrow> Registry \<Rightarrow> SystemExecutionError + ApplicationId list" where
  "find_dependencies self stack registered_apps =
     dependency_loop self registered_apps (rev stack) [] {} {}"

fun collect_descriptions ::
  "Registry \<Rightarrow> Registry \<Rightarrow> ApplicationId list \<Rightarrow> SystemExecutionError + UserApplicationDescription list" where
  "collect_descriptions self extra [] = Inr []"
| "collect_descriptions self extra (app_id # ids) =
     bind_r (lookup_app self extra app_id) (\<lambda>description.
     bind_r (collect_descriptions self extra ids) (\<lambda>result. Inr (description # result)))"

definition describe_applications_with_dependencies ::
  "Registry \<Rightarrow> ApplicationId list \<Rightarrow> Registry \<Rightarrow> SystemExecutionError + UserApplicationDescription list" where
  "describe_applications_with_dependencies self ids extra_registered_apps =
     bind_r (find_dependencies self ids extra_registered_apps) (collect_descriptions self extra_registered_apps)"

section \<open>The search lists dependencies first\<close>

definition dependencies :: "Registry \<Rightarrow> Registry \<Rightarrow> ApplicationId \<Rightarrow> ApplicationId list" where
  "dependencies self regs app_id =
     (case lookup_app self regs app_id of Inr app \<Rightarrow> ad_required_application_ids app | Inl _ \<Rightarrow> [])"

fun deps_first :: "('a \<Rightarrow> 'a list) \<Rightarrow> 'a set \<Rightarrow> 'a list \<Rightarrow> bool" where
  "deps_first deps before [] = True"
| "deps_first deps before (x # xs) = (set (deps x) \<subseteq> before \<and> deps_first deps (insert x before) xs)"

lemma deps_first_snoc:
  "deps_first deps before (xs @ [x]) \<longleftrightarrow> deps_first deps before xs \<and> set (deps x) \<subseteq> before \<union> set xs"
  by (induction xs arbitrary: before) auto

text \<open>
  An application that was seen but not yet listed waits on the stack for its second visit; what is
  above it has a smaller rank and includes all its dependencies that are not listed yet.
\<close>

definition waiting :: "('a \<Rightarrow> 'a list) \<Rightarrow> ('a \<Rightarrow> nat) \<Rightarrow> 'a list \<Rightarrow> 'a set \<Rightarrow> 'a \<Rightarrow> bool" where
  "waiting deps rank stack listed g \<longleftrightarrow>
     (\<exists>above below. stack = above @ g # below \<and> g \<notin> set above
        \<and> (\<forall>d \<in> set (deps g). d \<in> listed \<or> d \<in> set above) \<and> (\<forall>x \<in> set above. rank x < rank g))"

definition search_inv ::
  "('a \<Rightarrow> 'a list) \<Rightarrow> ('a \<Rightarrow> nat) \<Rightarrow> 'a list \<Rightarrow> 'a list \<Rightarrow> 'a set \<Rightarrow> 'a set \<Rightarrow> bool" where
  "search_inv deps rank stack result listed seen \<longleftrightarrow>
     listed = set result \<and> distinct result \<and> deps_first deps {} result \<and> listed \<subseteq> seen
     \<and> (\<forall>g \<in> seen - listed. waiting deps rank stack listed g)"

lemma waiting_pop:
  assumes "waiting deps rank (x # stack) listed g" and "g \<noteq> x" and "x \<in> listed'" and "listed \<subseteq> listed'"
  shows "waiting deps rank stack listed' g"
proof -
  obtain above below where "x # stack = above @ g # below" "g \<notin> set above"
      "\<forall>d \<in> set (deps g). d \<in> listed \<or> d \<in> set above" "\<forall>y \<in> set above. rank y < rank g"
    using assms(1) unfolding waiting_def by blast
  moreover from this obtain above' where "above = x # above'"
    using assms(2) by (cases above) auto
  ultimately show ?thesis
    unfolding waiting_def using assms(3,4) by (intro exI [of _ above'] exI [of _ below]) auto
qed

lemma waiting_top:
  "waiting deps rank (x # stack) listed x \<Longrightarrow> set (deps x) \<subseteq> listed"
  unfolding waiting_def by (auto simp: Cons_eq_append_conv)

lemma waiting_rank:
  "waiting deps rank (x # stack) listed g \<Longrightarrow> g \<noteq> x \<Longrightarrow> rank x < rank g"
  unfolding waiting_def by (auto simp: Cons_eq_append_conv)

lemma waiting_push:
  assumes "waiting deps rank (x # stack) listed g" and "g \<noteq> x" and "g \<notin> set children"
    and "\<And>c. c \<in> set children \<Longrightarrow> rank c < rank x"
  shows "waiting deps rank (children @ x # stack) listed g"
proof -
  have x: "rank x < rank g" by (rule waiting_rank [OF assms(1,2)])
  obtain above below where "x # stack = above @ g # below" "g \<notin> set above"
      "\<forall>d \<in> set (deps g). d \<in> listed \<or> d \<in> set above" "\<forall>y \<in> set above. rank y < rank g"
    using assms(1) unfolding waiting_def by blast
  then show ?thesis
    unfolding waiting_def using assms(3,4) x
    by (intro exI [of _ "children @ above"] exI [of _ below]) (auto dest: order.strict_trans)
qed

lemma search_inv_visit:
  assumes inv: "search_inv deps rank (x # stack) result listed seen" and "x \<notin> seen"
    and rank: "\<And>d. d \<in> set (deps x) \<Longrightarrow> rank d < rank x"
  shows "search_inv deps rank (filter (\<lambda>c. c \<notin> insert x seen) (deps x) @ x # stack) result listed (insert x seen)"
proof -
  let ?children = "filter (\<lambda>c. c \<notin> insert x seen) (deps x)"
  have w: "waiting deps rank (x # stack) listed g" "g \<noteq> x" if "g \<in> seen - listed" for g
    using inv assms(2) that by (auto simp: search_inv_def)
  have "waiting deps rank (?children @ x # stack) listed x"
  proof -
    have "d \<in> listed \<or> d \<in> set ?children" if d: "d \<in> set (deps x)" for d
      using rank [OF d] waiting_rank [OF w(1) w(2), of d] d by fastforce
    then show ?thesis unfolding waiting_def using rank by (intro exI [of _ ?children] exI [of _ stack]) auto
  qed
  moreover have "waiting deps rank (?children @ x # stack) listed g" if "g \<in> seen - listed" for g
    using waiting_push [OF w [OF that], of ?children] that rank by auto
  ultimately show ?thesis using inv by (auto simp: search_inv_def)
qed

lemma search_inv_waiting:
  "search_inv deps rank stack result listed seen \<Longrightarrow> g \<in> seen \<Longrightarrow> g \<notin> listed \<Longrightarrow>
     waiting deps rank stack listed g"
  unfolding search_inv_def by blast

lemma search_invD:
  assumes "search_inv deps rank stack result listed seen"
  shows "listed = set result" "distinct result" "deps_first deps {} result" "listed \<subseteq> seen"
  using assms unfolding search_inv_def by blast+

lemma search_inv_list:
  assumes inv: "search_inv deps rank (x # stack) result listed seen" and "x \<in> seen" "x \<notin> listed"
  shows "search_inv deps rank stack (result @ [x]) (insert x listed) seen"
proof -
  have "set (deps x) \<subseteq> listed" by (rule waiting_top [OF search_inv_waiting [OF assms]])
  moreover have "waiting deps rank stack (insert x listed) g" if "g \<in> seen - insert x listed" for g
    using that by (intro waiting_pop [OF search_inv_waiting [OF inv]]) auto
  ultimately show ?thesis
    using search_invD [OF inv] assms(2,3) unfolding search_inv_def deps_first_snoc by auto
qed

lemma search_inv_skip:
  assumes inv: "search_inv deps rank (x # stack) result listed seen" and "x \<in> listed"
  shows "search_inv deps rank stack result listed seen"
proof -
  have "waiting deps rank stack listed g" if "g \<in> seen - listed" for g
    using that assms(2) by (intro waiting_pop [OF search_inv_waiting [OF inv]]) auto
  then show ?thesis using search_invD [OF inv] unfolding search_inv_def by blast
qed

lemma search_inv_end:
  "search_inv deps rank [] result listed seen \<Longrightarrow> seen = set result"
  by (auto simp: search_inv_def waiting_def)

definition closed_registry :: "Registry \<Rightarrow> Registry \<Rightarrow> bool" where
  "closed_registry self regs \<longleftrightarrow>
     (\<forall>app_id \<in> known_ids self regs. set (dependencies self regs app_id) \<subseteq> known_ids self regs)"

definition ranked :: "Registry \<Rightarrow> Registry \<Rightarrow> (ApplicationId \<Rightarrow> nat) \<Rightarrow> bool" where
  "ranked self regs rank \<longleftrightarrow>
     (\<forall>app_id \<in> known_ids self regs. \<forall>d \<in> set (dependencies self regs app_id). rank d < rank app_id)"

lemma known_lookup: "app_id \<in> known_ids self regs \<Longrightarrow> \<exists>app. lookup_app self regs app_id = Inr app"
  unfolding known_ids_def lookup_app_def describe_application_def
  by (metis UnE map_of_eq_None_iff ok_or_Some option.case_eq_if option.exhaust_sel)

lemma dependency_loop_sound:
  assumes "search_inv (dependencies self regs) rank stack result listed seen"
    and "ranked self regs rank" and "closed_registry self regs" and "set stack \<subseteq> known_ids self regs"
    and "seen \<subseteq> known_ids self regs"
  shows "\<exists>ids. dependency_loop self regs stack result listed seen = Inr ids \<and> distinct ids
    \<and> deps_first (dependencies self regs) {} ids \<and> set stack \<union> set result \<subseteq> set ids
    \<and> set ids \<subseteq> known_ids self regs"
  using assms
proof (induction self regs stack result listed seen rule: dependency_loop.induct)
  case (1 self regs result listed seen)
  then show ?case using search_invD [OF 1(1)] by auto
next
  case (2 self regs x stack result listed seen)
  note IH = 2(1-3) and inv = 2(4) and ranked = 2(5) and closed = 2(6) and known = 2(7) and seen = 2(8)
  consider "x \<in> listed" | "x \<notin> listed" "x \<in> seen" | "x \<notin> listed" "x \<notin> seen" by blast
  then show ?case
  proof cases
    case 1
    then show ?thesis
      using IH(1) [OF 1 search_inv_skip [OF inv 1] ranked closed] known seen search_invD(1) [OF inv] by auto
  next
    case 2
    then show ?thesis
      using IH(2) [OF 2 search_inv_list [OF inv 2(2,1)] ranked closed] known seen by auto
  next
    case 3
    have x: "x \<in> known_ids self regs" using known by simp
    then obtain app where app: "lookup_app self regs x = Inr app" using known_lookup by blast
    have deps: "ad_required_application_ids app = dependencies self regs x"
      by (simp add: dependencies_def app)
    have "set (dependencies self regs x) \<subseteq> known_ids self regs" "\<And>d. d \<in> set (dependencies self regs x) \<Longrightarrow> rank d < rank x"
      using closed ranked x by (auto simp: closed_registry_def ranked_def)
    then show ?thesis
      using IH(3) [OF 3 app _ ranked closed] search_inv_visit [OF inv 3(2)] known seen 3 app
      by (fastforce simp: deps)
  qed
qed

lemma find_dependencies_sound:
  assumes "ranked self regs rank" and "closed_registry self regs" and "set ids \<subseteq> known_ids self regs"
  shows "\<exists>result. find_dependencies self ids regs = Inr result \<and> distinct result
    \<and> deps_first (dependencies self regs) {} result \<and> set ids \<subseteq> set result
    \<and> set result \<subseteq> known_ids self regs"
proof -
  have "search_inv (dependencies self regs) rank (rev ids) [] {} {}" by (simp add: search_inv_def)
  from dependency_loop_sound [OF this assms(1,2)] show ?thesis
    using assms(3) by (simp add: find_dependencies_def)
qed

section \<open>Registering what was described\<close>

fun register_all :: "Registry \<Rightarrow> UserApplicationDescription list \<Rightarrow> SystemExecutionError + Registry" where
  "register_all self [] = Inr self"
| "register_all self (application # applications) =
     bind_r (register_application self application) (\<lambda>(_, self). register_all self applications)"

definition ids_match :: "Registry \<Rightarrow> bool" where
  "ids_match self \<longleftrightarrow> (\<forall>(app_id, description) \<in> set self. ApplicationId_from description = app_id)"

lemma describe_all_Inr: "describe_all self ids = Inr () \<longleftrightarrow> set ids \<subseteq> fst ` set self"
proof (induction ids)
  case (Cons x ids)
  have "(\<exists>d. map_of self x = Some d) \<longleftrightarrow> x \<in> fst ` set self"
    by (metis map_of_eq_None_iff not_None_eq)
  then show ?case using Cons by (auto simp: result_simps describe_application_def)
qed simp

lemma known_insert_keys: "fst ` set (known_insert k v self) = insert k (fst ` set self)"
  by (auto simp: known_insert_def set_bt_remove image_iff)

lemma map_of_known_insert: "map_of (known_insert k v self) = (map_of self)(k \<mapsto> v)"
  by (simp add: known_insert_def fun_eq_iff)

text \<open>Registration keeps the identifiers consistent.\<close>

lemma register_application_ids_match:
  "register_application self app = Inr (app_id, self') \<Longrightarrow> ids_match self \<Longrightarrow>
     ids_match self' \<and> map_of self' app_id = Some app"
  by (auto simp: register_application_def ids_match_def result_simps Let_def map_of_known_insert)
    (auto simp: known_insert_def set_bt_remove)

lemma register_new_application_ids_match:
  "register_new_application self app_id ps ids = Inr self' \<Longrightarrow> ids_match self \<Longrightarrow> ids_match self'"
  by (auto simp: register_new_application_def ids_match_def result_simps Let_def known_insert_def
      set_bt_remove ApplicationId_from_def)

lemma collect_descriptions_known:
  "set ids \<subseteq> known_ids self regs \<Longrightarrow>
     \<exists>ds. collect_descriptions self regs ids = Inr ds \<and> list_all2 (\<lambda>i d. lookup_app self regs i = Inr d) ids ds"
proof (induction ids)
  case (Cons x ids)
  then obtain app ds where "lookup_app self regs x = Inr app" "collect_descriptions self regs ids = Inr ds"
      "list_all2 (\<lambda>i d. lookup_app self regs i = Inr d) ids ds"
    using known_lookup [of x self regs] by auto
  then show ?case by simp
qed simp

lemma lookup_app_Nil: "lookup_app self [] app_id = Inr d \<longleftrightarrow> map_of self app_id = Some d"
  by (simp add: lookup_app_def describe_application_def)

lemma register_all_described:
  assumes "list_all2 (\<lambda>i d. lookup_app self [] i = Inr d) ids ds" and "ids_match self"
    and "deps_first (dependencies self []) before ids" and "before \<subseteq> fst ` set t"
  shows "\<exists>t'. register_all t ds = Inr t' \<and> (\<forall>i \<in> set ids. map_of t' i = map_of self i)
    \<and> (\<forall>i. i \<notin> set ids \<longrightarrow> map_of t' i = map_of t i)"
  using assms(1,3,4)
proof (induction ids ds arbitrary: t before rule: list_all2_induct)
  case (Cons i ids d ds)
  have d: "map_of self i = Some d" using Cons(1) by (simp add: lookup_app_Nil)
  then have i: "ApplicationId_from d = i" using assms(2) by (auto simp: ids_match_def dest: map_of_SomeD)
  let ?t = "known_insert i d t"
  have "describe_all t (ad_required_application_ids d) = Inr ()"
    using Cons(1,4,5) unfolding describe_all_Inr by (auto simp: dependencies_def)
  then have reg: "register_application t d = Inr (i, ?t)"
    by (simp add: register_application_def i)
  have "insert i before \<subseteq> fst ` set ?t" using Cons(5) by (auto simp: known_insert_keys)
  with Cons.IH [of "insert i before" ?t] Cons(4) obtain t' where
    t': "register_all ?t ds = Inr t'" "\<forall>j \<in> set ids. map_of t' j = map_of self j"
      "\<forall>j. j \<notin> set ids \<longrightarrow> map_of t' j = map_of ?t j" by auto
  then have "map_of t' i = map_of self i" by (cases "i \<in> set ids") (auto simp: map_of_known_insert d)
  then show ?case using t' reg by (auto simp: map_of_known_insert)
qed auto

text \<open>C27. Requested applications can be registered. If the chain's registry stores every description
  under its own identifier, knows the dependencies of everything it knows, and has no cyclic
  dependencies, then \<open>describe_applications_with_dependencies\<close> succeeds for all known
  applications, and registering the returned descriptions one by one on any other chain succeeds:
  the dependencies always come first. Afterwards the other chain knows the requested applications
  with the same descriptions.\<close>

theorem described_applications_register:
  assumes "ids_match self" and "closed_registry self []" and "ranked self [] rank"
    and "set ids \<subseteq> fst ` set self"
  shows "\<exists>ds t'. describe_applications_with_dependencies self ids [] = Inr ds \<and> register_all t ds = Inr t'
    \<and> (\<forall>i \<in> set ids. map_of t' i = map_of self i)"
proof -
  obtain result where r: "find_dependencies self ids [] = Inr result"
      "deps_first (dependencies self []) {} result" "set ids \<subseteq> set result" "set result \<subseteq> known_ids self []"
    using find_dependencies_sound [OF assms(3,2), of ids] assms(4) by (auto simp: known_ids_def)
  obtain ds where ds: "collect_descriptions self [] result = Inr ds"
      "list_all2 (\<lambda>i d. lookup_app self [] i = Inr d) result ds"
    using collect_descriptions_known [OF r(4)] by blast
  obtain t' where "register_all t ds = Inr t'" "\<forall>i \<in> set result. map_of t' i = map_of self i"
    using register_all_described [OF ds(2) assms(1) r(2)] by blast
  then show ?thesis using r(1,3) ds(1) by (auto simp: describe_applications_with_dependencies_def)
qed

definition sample_app_id :: "u32 \<Rightarrow> ApplicationId" where
  "sample_app_id i = \<lparr>bytecode_id = \<lparr>contract_blob_hash = 1, service_blob_hash = 2\<rparr>,
     creation = \<lparr>mid_chain_id = 3, mid_height = 4, mid_index = i\<rparr>\<rparr>"

definition sample_app :: "u32 \<Rightarrow> u32 list \<Rightarrow> ApplicationId \<times> UserApplicationDescription" where
  "sample_app i deps = (sample_app_id i,
     \<lparr>ad_bytecode_id = bytecode_id (sample_app_id i), ad_creation = creation (sample_app_id i),
      ad_parameters = [], ad_required_application_ids = map sample_app_id deps\<rparr>)"

definition sample_registry :: Registry where
  "sample_registry = [sample_app 0 [], sample_app 1 [0], sample_app 2 [1, 0]]"

theorem described_applications_register_witness:
  "\<exists>ds t'. describe_applications_with_dependencies sample_registry [sample_app_id 2] [] = Inr ds
    \<and> register_all [] ds = Inr t' \<and> map_of t' (sample_app_id 2) = map_of sample_registry (sample_app_id 2)"
proof -
  let ?rank = "\<lambda>a. unat (mid_index (creation a))"
  have "ids_match sample_registry"
    by (simp add: ids_match_def sample_registry_def sample_app_def ApplicationId_from_def sample_app_id_def)
  moreover have "closed_registry sample_registry []" "ranked sample_registry [] ?rank"
    by (auto simp: closed_registry_def ranked_def known_ids_def dependencies_def lookup_app_def
        describe_application_def sample_registry_def sample_app_def sample_app_id_def)
  ultimately show ?thesis
    using described_applications_register [of sample_registry ?rank "[sample_app_id 2]" "[]"]
    by (simp add: sample_registry_def sample_app_def)
qed

end
