(* ===== verification/System_State.thy ===== *)
theory System_State
  imports Transaction_Tracker Applications
begin

text \<open>
  The system application of a chain (\<^verbatim>\<open>linera-execution/src/system.rs\<close>): its state, the execution of
  system operations and system messages, the opening and closing of chains. The views are plain
  values, the ordered maps are \<open>btree\<close>s. A failed operation returns its error with the state it
  leaves behind; the transaction tracker is threaded through as the second half of the state.
\<close>

section \<open>State\<close>

record SystemExecutionStateView =
  sy_description :: "ChainDescription option"
  sy_epoch :: "Epoch option"
  sy_admin_id :: "ChainId option"
  sy_subscriptions :: "ChannelSubscription set"
  sy_committees :: "(Epoch, Committee) btree"
  sy_ownership :: ChainOwnership
  sy_balance :: Amount
  sy_balances :: "(Owner, Amount) btree"
  sy_timestamp :: Timestamp
  sy_registry :: Registry
  sy_closed :: bool
  sy_application_permissions :: ApplicationPermissions

text \<open>
  What the system application takes from elsewhere: the hash that names a child chain, the
  serialized name of a channel, the owner of a public key, the blobs in storage, and the order in
  which a set view lists its elements.
\<close>

record SysEnv =
  child_chain :: "MessageId \<Rightarrow> ChainId"
  channel_name :: "SystemChannel \<Rightarrow> ChannelName"
  key_owner :: "PublicKey \<Rightarrow> Owner"
  blob_content :: "BlobId \<Rightarrow> bytes option"
  subscription_indices :: "ChannelSubscription set \<Rightarrow> ChannelSubscription list"

type_synonym SysTxn = "SystemExecutionStateView \<times> TransactionTracker"
type_synonym 'a sys = "(SystemExecutionStateView, SystemExecutionError, 'a) sr"
type_synonym 'a sys_txn = "(SysTxn, SystemExecutionError, 'a) sr"
type_synonym SysMsg = "(SystemMessage, Amount) RawOutgoingMessage"

definition on_sys :: "'a sys \<Rightarrow> 'a sys_txn" where
  "on_sys m s = (let (r, sys) = m (fst s) in (r, (sys, snd s)))"

definition on_txn :: "(TransactionTracker, SystemExecutionError, 'a) sr \<Rightarrow> 'a sys_txn" where
  "on_txn m s = (let (r, txn) = m (snd s) in (r, (fst s, txn)))"

definition on_txn_arith :: "(TransactionTracker, ArithmeticError, 'a) sr \<Rightarrow> 'a sys_txn" where
  "on_txn_arith m s = (let (r, txn) = m (snd s) in (map_err Sys_ArithmeticError r, (fst s, txn)))"

lemma on_sys_eq [sr_simps]: "on_sys m s = (r, s') \<longleftrightarrow> (\<exists>sys. m (fst s) = (r, sys) \<and> s' = (sys, snd s))"
  by (auto simp: on_sys_def split: prod.splits)

lemma on_txn_eq [sr_simps]: "on_txn m s = (r, s') \<longleftrightarrow> (\<exists>txn. m (snd s) = (r, txn) \<and> s' = (fst s, txn))"
  by (auto simp: on_txn_def split: prod.splits)

lemma on_txn_arith_Inr [sr_simps]:
  "on_txn_arith m s = (Inr x, s') \<longleftrightarrow> (\<exists>txn. m (snd s) = (Inr x, txn) \<and> s' = (fst s, txn))"
  by (auto simp: on_txn_arith_def split: prod.splits)

definition current_committee :: "SystemExecutionStateView \<Rightarrow> (Epoch \<times> Committee) option" where
  "current_committee self =
     Option.bind (sy_epoch self) (\<lambda>epoch.
     Option.bind (bt_get (sy_committees self) epoch) (\<lambda>committee. Some (epoch, committee)))"

definition sys_is_active :: "SystemExecutionStateView \<Rightarrow> bool" where
  "sys_is_active self \<longleftrightarrow> sy_description self \<noteq> None \<and> is_active (sy_ownership self)
     \<and> current_committee self \<noteq> None \<and> sy_admin_id self \<noteq> None"

section \<open>Balances\<close>

definition owner_balance :: "SystemExecutionStateView \<Rightarrow> Owner \<Rightarrow> Amount" where
  "owner_balance self owner = (case bt_get (sy_balances self) owner of Some b \<Rightarrow> b | None \<Rightarrow> 0)"

text \<open>The account a transfer draws on: the chain's own balance, or an owner's entry, which
  \<^verbatim>\<open>get_mut_or_default\<close> creates when it is missing.\<close>

definition account_balance :: "Owner option \<Rightarrow> SystemExecutionStateView \<Rightarrow> Amount" where
  "account_balance owner self = (case owner of None \<Rightarrow> sy_balance self | Some o' \<Rightarrow> owner_balance self o')"

definition set_account_balance :: "Owner option \<Rightarrow> Amount \<Rightarrow> SystemExecutionStateView \<Rightarrow> SystemExecutionStateView" where
  "set_account_balance owner b self =
     (case owner of None \<Rightarrow> self\<lparr>sy_balance := b\<rparr>
      | Some o' \<Rightarrow> self\<lparr>sy_balances := bt_insert o' b (sy_balances self)\<rparr>)"

definition debit :: "Owner option \<Rightarrow> Amount \<Rightarrow> unit sys" where
  "debit owner amount self =
     (let (r, balance) = try_sub_assign (account_balance owner self) amount;
          self = set_account_balance owner balance self
      in (map_err (\<lambda>_. InsufficientFunding balance) r, self))"

definition credit_message :: "ChainId \<Rightarrow> MessageKind \<Rightarrow> SystemMessage \<Rightarrow> SysMsg" where
  "credit_message chain kind message =
     \<lparr>ro_destination = Dest_Recipient chain, ro_authenticated = False, ro_grant = 0, ro_kind = kind,
      ro_message = message\<rparr>"

definition transfer :: "Owner option \<Rightarrow> Owner option \<Rightarrow> Recipient \<Rightarrow> Amount \<Rightarrow> SysMsg option sys" where
  "transfer signer owner rcp amount =
     sr_bind (sr_ensure (owner \<noteq> None \<longrightarrow> signer = owner) UnauthenticatedTransferOwner) (\<lambda>_.
     sr_bind (sr_ensure (0 < amount) IncorrectTransferAmount) (\<lambda>_.
     sr_bind (debit owner amount) (\<lambda>_.
     case rcp of
       Rec_Account account \<Rightarrow>
         sr_ok (Some (credit_message (acc_chain_id account) Tracked
           (Msg_Credit (acc_owner account) amount owner)))
     | Burn \<Rightarrow> sr_ok None)))"

definition claim :: "Owner option \<Rightarrow> Owner \<Rightarrow> ChainId \<Rightarrow> Recipient \<Rightarrow> Amount \<Rightarrow> SysMsg sys" where
  "claim signer owner target_id rcp amount =
     sr_bind (sr_ensure (signer = Some owner) UnauthenticatedClaimOwner) (\<lambda>_.
     sr_bind (sr_ensure (0 < amount) IncorrectClaimAmount) (\<lambda>_.
     sr_ok \<lparr>ro_destination = Dest_Recipient target_id, ro_authenticated = True, ro_grant = 0,
       ro_kind = Simple, ro_message = Msg_Withdraw owner amount rcp\<rparr>))"

section \<open>Opening and closing chains\<close>

definition admin_subscription :: "SysEnv \<Rightarrow> ChainId \<Rightarrow> ChannelSubscription" where
  "admin_subscription env chain = \<lparr>sub_chain_id = chain, sub_name = channel_name env Channel_Admin\<rparr>"

definition open_chain :: "SysEnv \<Rightarrow> OpenChainConfig \<Rightarrow> MessageId \<Rightarrow> SysMsg list sys" where
  "open_chain env config next_id =
     (let child_id = child_chain env next_id in
      sr_bind (sr_get sy_admin_id) (\<lambda>admin_id.
      sr_bind (sr_ensure (admin_id = Some (oc_admin_id config)) (InvalidNewChainAdminId child_id)) (\<lambda>_.
      sr_bind (sr_get sy_committees) (\<lambda>committees.
      sr_bind (sr_ensure (committees = oc_committees config) InvalidCommittees) (\<lambda>_.
      sr_bind (sr_get sy_epoch) (\<lambda>epoch.
      sr_bind (sr_ensure (epoch = Some (oc_epoch config)) (InvalidEpoch child_id (oc_epoch config))) (\<lambda>_.
      sr_bind (debit None (oc_balance config)) (\<lambda>_.
      sr_ok [credit_message child_id Protected (Msg_OpenChain config),
             credit_message (oc_admin_id config) Protected
               (Msg_Subscribe child_id (admin_subscription env (oc_admin_id config)))]))))))))"

definition close_chain :: "SysEnv \<Rightarrow> ChainId \<Rightarrow> SysMsg list sys" where
  "close_chain env chain self =
     (Inr (map (\<lambda>sub. credit_message (sub_chain_id sub) Protected (Msg_Unsubscribe chain sub))
             (subscription_indices env (sy_subscriptions self))),
      self\<lparr>sy_subscriptions := {}, sy_closed := True\<rparr>)"

text \<open>The three \<^verbatim>\<open>assert!\<close>s of \<open>initialize_chain\<close> are its guard; \<open>None\<close> is a failed one.\<close>

definition initialize_chain ::
  "SysEnv \<Rightarrow> SystemExecutionStateView \<Rightarrow> MessageId \<Rightarrow> Timestamp \<Rightarrow> OpenChainConfig
    \<Rightarrow> SystemExecutionStateView option" where
  "initialize_chain env self mid time config =
     (if sy_description self = None \<and> \<not> is_active (sy_ownership self) \<and> sy_committees self = []
      then Some (self\<lparr>sy_description := Some (Child mid), sy_epoch := Some (oc_epoch config),
        sy_committees := oc_committees config, sy_admin_id := Some (oc_admin_id config),
        sy_subscriptions := insert (admin_subscription env (oc_admin_id config)) (sy_subscriptions self),
        sy_ownership := oc_ownership config, sy_timestamp := time, sy_balance := oc_balance config,
        sy_application_permissions := oc_application_permissions config\<rparr>)
      else None)"

record SystemResponse =
  sr_chain_id :: ChainId
  sr_balance :: Amount

definition handle_query :: "ChainId \<Rightarrow> SystemExecutionStateView \<Rightarrow> SystemResponse" where
  "handle_query chain self = \<lparr>sr_chain_id = chain, sr_balance = sy_balance self\<rparr>"

section \<open>Blobs and committees\<close>

definition read_blob_content :: "SysEnv \<Rightarrow> BlobId \<Rightarrow> bytes sys" where
  "read_blob_content env blob_id = sr_lift (ok_or (blob_content env blob_id) (BlobNotFoundOnRead blob_id))"

definition assert_blob_exists :: "SysEnv \<Rightarrow> BlobId \<Rightarrow> unit sys" where
  "assert_blob_exists env blob_id = sr_ensure (blob_content env blob_id \<noteq> None) (BlobNotFoundOnRead blob_id)"

definition check_and_record_bytecode_blobs :: "SysEnv \<Rightarrow> BytecodeId \<Rightarrow> unit sys_txn" where
  "check_and_record_bytecode_blobs env bytecode =
     (let contract_id = BlobId_new (contract_blob_hash bytecode) Blob_ContractBytecode;
          service_id = BlobId_new (service_blob_hash bytecode) Blob_ServiceBytecode in
      sr_bind (sr_ensure (blob_content env contract_id \<noteq> None) (BlobNotFoundOnRead contract_id)) (\<lambda>_.
      sr_bind (on_txn (replay_oracle_response (Oracle_Blob contract_id))) (\<lambda>_.
      sr_bind (sr_ensure (blob_content env service_id \<noteq> None) (BlobNotFoundOnRead service_id)) (\<lambda>_.
      sr_bind (on_txn (replay_oracle_response (Oracle_Blob service_id))) (\<lambda>_. sr_ok ())))))"

definition create_committee :: "Epoch \<Rightarrow> Committee \<Rightarrow> unit sys" where
  "create_committee epoch committee =
     sr_bind (sr_get sy_epoch) (\<lambda>current.
     sr_bind (sr_lift (ok_or current (System_Panic ''chain is active''))) (\<lambda>current.
     sr_bind (sr_lift (map_err Sys_ArithmeticError (Epoch_try_add_one current))) (\<lambda>next_epoch.
     sr_bind (sr_ensure (epoch = next_epoch) InvalidCommitteeCreation) (\<lambda>_.
     sr_modify (\<lambda>self. self\<lparr>sy_committees := bt_insert epoch committee (sy_committees self),
       sy_epoch := Some epoch\<rparr>)))))"

definition remove_committee :: "Epoch \<Rightarrow> unit sys" where
  "remove_committee epoch =
     sr_bind (sr_get (\<lambda>self. bt_get (sy_committees self) epoch)) (\<lambda>removed.
     sr_bind (sr_modify (\<lambda>self. self\<lparr>sy_committees := bt_remove epoch (sy_committees self)\<rparr>)) (\<lambda>_.
     sr_ensure (removed \<noteq> None) InvalidCommitteeRemoval))"

section \<open>Operations\<close>

definition subscribers_message :: "SysEnv \<Rightarrow> SystemMessage \<Rightarrow> SysMsg" where
  "subscribers_message env message =
     \<lparr>ro_destination = Dest_Subscribers (channel_name env Channel_Admin), ro_authenticated = False,
      ro_grant = 0, ro_kind = Protected, ro_message = message\<rparr>"

definition subscribe_channel :: "SysEnv \<Rightarrow> ChainId \<Rightarrow> ChainId \<Rightarrow> SystemChannel \<Rightarrow> SysMsg sys" where
  "subscribe_channel env own chain channel =
     (let subscription = \<lparr>sub_chain_id = chain, sub_name = channel_name env channel\<rparr> in
      sr_bind (sr_ensure (own \<noteq> chain) (SelfSubscription own channel)) (\<lambda>_.
      sr_bind (sr_get sy_admin_id) (\<lambda>admin_id.
      sr_bind (sr_ensure (channel = Channel_Admin \<longrightarrow> admin_id = Some chain)
        (InvalidAdminSubscription own channel)) (\<lambda>_.
      sr_bind (sr_get sy_subscriptions) (\<lambda>subs.
      sr_bind (sr_ensure (subscription \<notin> subs) (AlreadySubscribedToChannel own channel)) (\<lambda>_.
      sr_bind (sr_modify (\<lambda>self. self\<lparr>sy_subscriptions := insert subscription (sy_subscriptions self)\<rparr>)) (\<lambda>_.
      sr_ok (credit_message chain Protected (Msg_Subscribe own subscription)))))))))"

definition unsubscribe_channel :: "SysEnv \<Rightarrow> ChainId \<Rightarrow> ChainId \<Rightarrow> SystemChannel \<Rightarrow> SysMsg sys" where
  "unsubscribe_channel env own chain channel =
     (let subscription = \<lparr>sub_chain_id = chain, sub_name = channel_name env channel\<rparr> in
      sr_bind (sr_get sy_subscriptions) (\<lambda>subs.
      sr_bind (sr_ensure (subscription \<in> subs) (InvalidUnsubscription own channel)) (\<lambda>_.
      sr_bind (sr_modify (\<lambda>self. self\<lparr>sy_subscriptions := sy_subscriptions self - {subscription}\<rparr>)) (\<lambda>_.
      sr_ok (credit_message chain Protected (Msg_Unsubscribe own subscription))))))"

text \<open>The branch of \<open>execute_operation\<close> for one operation: the outgoing messages, and the
  application to instantiate.\<close>

definition operation_branch ::
  "SysEnv \<Rightarrow> OperationContext \<Rightarrow> SystemOperation \<Rightarrow> (SysMsg list \<times> (ApplicationId \<times> bytes) option) sys_txn" where
  "operation_branch env ctx op =
     (case op of
        Op_OpenChain config \<Rightarrow>
          sr_bind (sr_get (\<lambda>s. next_message_id ctx (next_message_index (snd s)))) (\<lambda>next_id.
          sr_bind (on_sys (open_chain env config next_id)) (\<lambda>ms. sr_ok (ms, None)))
      | Op_ChangeOwnership supers regulars rounds timeouts \<Rightarrow>
          sr_bind (on_sys (sr_modify (\<lambda>self. self\<lparr>sy_ownership :=
            \<lparr>super_owners = bt_from_list (map (\<lambda>k. (key_owner env k, k)) supers) [],
             owners = bt_from_list (map (\<lambda>(k, w). (key_owner env k, (k, w))) regulars) [],
             multi_leader_rounds = rounds, timeout_config = timeouts\<rparr>\<rparr>))) (\<lambda>_. sr_ok ([], None))
      | Op_ChangeApplicationPermissions permissions \<Rightarrow>
          sr_bind (on_sys (sr_modify (\<lambda>self. self\<lparr>sy_application_permissions := permissions\<rparr>)))
            (\<lambda>_. sr_ok ([], None))
      | Op_CloseChain \<Rightarrow>
          sr_bind (on_sys (close_chain env (oc_chain_id ctx))) (\<lambda>ms. sr_ok (ms, None))
      | Op_Transfer owner rcp amount \<Rightarrow>
          sr_bind (on_sys (transfer (oc_authenticated_signer ctx) owner rcp amount)) (\<lambda>m.
          sr_ok (case m of None \<Rightarrow> [] | Some message \<Rightarrow> [message], None))
      | Op_Claim owner target_id rcp amount \<Rightarrow>
          sr_bind (on_sys (claim (oc_authenticated_signer ctx) owner target_id rcp amount)) (\<lambda>m.
          sr_ok ([m], None))
      | Op_Admin admin_operation \<Rightarrow>
          sr_bind (sr_get (\<lambda>s. sy_admin_id (fst s))) (\<lambda>admin_id.
          sr_bind (sr_ensure (admin_id = Some (oc_chain_id ctx)) AdminOperationOnNonAdminChain) (\<lambda>_.
          case admin_operation of
            Admin_CreateCommittee epoch committee \<Rightarrow>
              sr_bind (on_sys (create_committee epoch committee)) (\<lambda>_.
              sr_ok ([subscribers_message env (Msg_CreateCommittee epoch committee)], None))
          | Admin_RemoveCommittee epoch \<Rightarrow>
              sr_bind (on_sys (remove_committee epoch)) (\<lambda>_.
              sr_ok ([subscribers_message env (Msg_RemoveCommittee epoch)], None))))
      | Op_Subscribe chain channel \<Rightarrow>
          sr_bind (on_sys (subscribe_channel env (oc_chain_id ctx) chain channel)) (\<lambda>m. sr_ok ([m], None))
      | Op_Unsubscribe chain channel \<Rightarrow>
          sr_bind (on_sys (unsubscribe_channel env (oc_chain_id ctx) chain channel)) (\<lambda>m. sr_ok ([m], None))
      | Op_PublishBytecode bytecode \<Rightarrow>
          sr_bind (on_txn (replay_oracle_response
            (Oracle_Blob (BlobId_new (contract_blob_hash bytecode) Blob_ContractBytecode)))) (\<lambda>_.
          sr_bind (on_txn (replay_oracle_response
            (Oracle_Blob (BlobId_new (service_blob_hash bytecode) Blob_ServiceBytecode)))) (\<lambda>_.
          sr_ok ([], None)))
      | Op_CreateApplication bytecode parameters argument required \<Rightarrow>
          sr_bind (sr_get (\<lambda>s. \<lparr>bytecode_id = bytecode,
            creation = next_message_id ctx (next_message_index (snd s))\<rparr>)) (\<lambda>app_id.
          sr_bind (sr_each (\<lambda>a. check_and_record_bytecode_blobs env (bytecode_id a)) (required @ [app_id])) (\<lambda>_.
          sr_bind (sr_get (\<lambda>s. sy_registry (fst s))) (\<lambda>registry.
          sr_bind (sr_lift (register_new_application registry app_id parameters required)) (\<lambda>registry.
          sr_bind (on_sys (sr_modify (\<lambda>self. self\<lparr>sy_registry := registry\<rparr>))) (\<lambda>_.
          sr_ok ([credit_message (oc_chain_id ctx) Protected Msg_ApplicationCreated],
                 Some (app_id, argument)))))))
      | Op_RequestApplication chain application_id \<Rightarrow>
          sr_ok ([credit_message chain Simple (Msg_RequestApplication application_id)], None)
      | Op_PublishDataBlob h \<Rightarrow>
          sr_bind (on_txn (replay_oracle_response (Oracle_Blob (BlobId_new h Blob_Data)))) (\<lambda>_.
          sr_ok ([], None))
      | Op_ReadBlob blob_id \<Rightarrow>
          sr_bind (on_txn (replay_oracle_response (Oracle_Blob blob_id))) (\<lambda>_.
          sr_bind (on_sys (read_blob_content env blob_id)) (\<lambda>_. sr_ok ([], None))))"

definition operation_outcome :: "OperationContext \<Rightarrow> SysMsg list \<Rightarrow> (SystemMessage, Amount) RawExecutionOutcome" where
  "operation_outcome ctx ms =
     RawExecutionOutcome_default\<lparr>eo_authenticated_signer := oc_authenticated_signer ctx,
       eo_refund_grant_to := ctx_refund_grant_to ctx, eo_messages := ms\<rparr>"

definition sys_execute_operation ::
  "SysEnv \<Rightarrow> OperationContext \<Rightarrow> SystemOperation \<Rightarrow> (ApplicationId \<times> bytes) option sys_txn" where
  "sys_execute_operation env ctx op =
     sr_bind (operation_branch env ctx op) (\<lambda>(messages, new_application).
     sr_bind (on_txn_arith (add_system_outcome (operation_outcome ctx messages))) (\<lambda>_.
     sr_ok new_application))"

section \<open>Messages\<close>

definition credit_account :: "Owner option \<Rightarrow> Amount \<Rightarrow> unit sys" where
  "credit_account receiver amount =
     sr_modify (\<lambda>self. set_account_balance receiver (saturating_add (account_balance receiver self) amount) self)"

definition register_with_blobs :: "SysEnv \<Rightarrow> UserApplicationDescription \<Rightarrow> unit sys_txn" where
  "register_with_blobs env application =
     sr_bind (check_and_record_bytecode_blobs env (ad_bytecode_id application)) (\<lambda>_.
     sr_bind (sr_get (\<lambda>s. sy_registry (fst s))) (\<lambda>registry.
     sr_bind (sr_lift (register_application registry application)) (\<lambda>(_, registry).
     on_sys (sr_modify (\<lambda>self. self\<lparr>sy_registry := registry\<rparr>)))))"

definition message_branch :: "SysEnv \<Rightarrow> MessageContext \<Rightarrow> SystemMessage \<Rightarrow> SysMsg list sys_txn" where
  "message_branch env ctx message =
     (case message of
        Msg_Credit target amount source \<Rightarrow>
          sr_bind (on_sys (credit_account (if mc_is_bouncing ctx then source else target) amount)) (\<lambda>_. sr_ok [])
      | Msg_Withdraw owner amount rcp \<Rightarrow>
          sr_bind (sr_ensure (mc_authenticated_signer ctx = Some owner) UnauthenticatedClaimOwner) (\<lambda>_.
          sr_bind (on_sys (debit (Some owner) amount)) (\<lambda>_.
          case rcp of
            Rec_Account account \<Rightarrow> sr_ok [credit_message (acc_chain_id account) Tracked
              (Msg_Credit (acc_owner account) amount (Some owner))]
          | Burn \<Rightarrow> sr_ok []))
      | Msg_CreateCommittee epoch committee \<Rightarrow>
          sr_bind (on_sys (create_committee epoch committee)) (\<lambda>_. sr_ok [])
      | Msg_RemoveCommittee epoch \<Rightarrow>
          sr_bind (on_sys (remove_committee epoch)) (\<lambda>_. sr_ok [])
      | Msg_RegisterApplications applications \<Rightarrow>
          sr_bind (sr_each (register_with_blobs env) applications) (\<lambda>_. sr_ok [])
      | Msg_RequestApplication application_id \<Rightarrow>
          sr_bind (sr_get (\<lambda>s. sy_registry (fst s))) (\<lambda>registry.
          sr_bind (sr_lift (describe_applications_with_dependencies registry [application_id] [])) (\<lambda>applications.
          sr_ok [credit_message (mid_chain_id (mc_message_id ctx)) Simple (Msg_RegisterApplications applications)]))
      | Msg_Subscribe _ _ \<Rightarrow> sr_ok []
      | Msg_Unsubscribe _ _ \<Rightarrow> sr_ok []
      | Msg_OpenChain _ \<Rightarrow> sr_ok []
      | Msg_ApplicationCreated \<Rightarrow> sr_ok [])"

definition sys_execute_message ::
  "SysEnv \<Rightarrow> MessageContext \<Rightarrow> SystemMessage \<Rightarrow> (SystemMessage, Amount) RawExecutionOutcome sys_txn" where
  "sys_execute_message env ctx message =
     sr_bind (message_branch env ctx message) (\<lambda>ms.
     sr_ok (RawExecutionOutcome_default\<lparr>eo_messages := ms\<rparr>))"

end
