(* ===== verification/System_Props.thy ===== *)
theory System_Props
  imports System_State
begin

text \<open>
  What system operations and messages guarantee: tokens are conserved, owners' funds only move with
  their signature, active chains stay active, and an execution that recorded its oracle responses
  can be replayed from them with the same result.
\<close>

section \<open>Tokens\<close>

definition balances_total :: "(Owner, Amount) btree \<Rightarrow> nat" where
  "balances_total m = sum_list (map (\<lambda>p. unat (snd p)) m)"

text \<open>All tokens on a chain, and the tokens that a system message carries.\<close>

definition held :: "SystemExecutionStateView \<Rightarrow> nat" where
  "held s = unat (sy_balance s) + balances_total (sy_balances s)"

fun carried :: "SystemMessage \<Rightarrow> nat" where
  "carried (Msg_Credit _ amount _) = unat amount"
| "carried (Msg_OpenChain config) = unat (oc_balance config)"
| "carried _ = 0"

definition sent :: "SysMsg list \<Rightarrow> nat" where
  "sent ms = sum_list (map (\<lambda>m. carried (ro_message m) + unat (ro_grant m)) ms)"

lemma balances_total_insert:
  "bt_ok m \<Longrightarrow> balances_total (bt_insert k v m) + (case bt_get m k of Some b \<Rightarrow> unat b | None \<Rightarrow> 0)
     = balances_total m + unat v"
proof (induction k v m rule: bt_insert.induct)
  case (2 k v a b m)
  have "bt_get m k = None" if "k < a"
    using 2(2) that by (force simp: bt_ok_Cons map_of_eq_None_iff dest: order.asym)
  moreover have "bt_get m a = None"
    using 2(2) by (force simp: bt_ok_Cons map_of_eq_None_iff)
  ultimately show ?case using 2 by (auto simp: bt_ok_Cons balances_total_def)
qed (simp add: balances_total_def)

lemma set_account_balance_held:
  "bt_ok (sy_balances s) \<Longrightarrow>
     held (set_account_balance owner b s) + unat (account_balance owner s) = held s + unat b"
  using balances_total_insert [of "sy_balances s" "the owner" b]
  by (auto simp: held_def set_account_balance_def account_balance_def owner_balance_def split: option.splits)

lemma set_account_balance_ok [simp]:
  "bt_ok (sy_balances s) \<Longrightarrow> bt_ok (sy_balances (set_account_balance owner b s))"
  by (simp add: set_account_balance_def split: option.splits)

lemma debit_Inr:
  assumes "debit owner a s = (Inr u, s')"
  shows "a \<le> account_balance owner s" and "s' = set_account_balance owner (account_balance owner s - a) s"
  using assms
  by (auto simp: debit_def try_sub_assign_def assign_num_def checked_sub_def split: if_splits)

lemma debit_held:
  assumes "bt_ok (sy_balances s)" and "debit owner a s = (Inr u, s')"
  shows "held s' + unat a = held s" and "bt_ok (sy_balances s')"
proof -
  note d = debit_Inr [OF assms(2)]
  have "unat (account_balance owner s - a) + unat a = unat (account_balance owner s)"
    using d(1) by (simp add: unat_sub word_le_nat_alt)
  then show "held s' + unat a = held s"
    using set_account_balance_held [OF assms(1), of owner "account_balance owner s - a"] by (simp add: d(2))
  show "bt_ok (sy_balances s')" using assms(1) by (simp add: d(2))
qed

text \<open>A step that leaves the balances alone.\<close>

definition same_balances :: "SystemExecutionStateView \<Rightarrow> SystemExecutionStateView \<Rightarrow> bool" where
  "same_balances s s' \<longleftrightarrow> sy_balance s' = sy_balance s \<and> sy_balances s' = sy_balances s"

lemma same_balances_held: "same_balances s s' \<Longrightarrow> held s' = held s"
  by (simp add: same_balances_def held_def)

lemma check_blobs_same: "check_and_record_bytecode_blobs env b s = (Inr u, s') \<Longrightarrow> fst s' = fst s"
  by (auto simp: check_and_record_bytecode_blobs_def Let_def sr_simps)

lemma check_each_same:
  "sr_each (\<lambda>a. check_and_record_bytecode_blobs env (f a)) as s = (Inr u, s') \<Longrightarrow> fst s' = fst s"
  by (erule sr_each_invariant [where P = "\<lambda>t. fst t = fst s"]) (auto dest: check_blobs_same)

fun moves_tokens :: "SystemOperation \<Rightarrow> bool" where
  "moves_tokens (Op_Transfer _ _ _) = True"
| "moves_tokens (Op_OpenChain _) = True"
| "moves_tokens _ = False"

lemma sent_simps [simp]:
  "sent [] = 0" "sent (m # ms) = carried (ro_message m) + unat (ro_grant m) + sent ms"
  by (simp_all add: sent_def)

lemma credit_message_simps [simp]:
  "ro_message (credit_message c k m) = m" "ro_grant (credit_message c k m) = 0"
  by (simp_all add: credit_message_def)

lemma sent_unsubscriptions [simp]: "sent (map (\<lambda>sub. credit_message (f sub) Protected (Msg_Unsubscribe c sub)) subs) = 0"
  by (induction subs) simp_all

lemmas sys_defs = transfer_def claim_def open_chain_def close_chain_def create_committee_def remove_committee_def
  subscribe_channel_def unsubscribe_channel_def read_blob_content_def Let_def

lemma operation_no_move:
  assumes "operation_branch env ctx op s = (Inr (ms, app), s')" and "\<not> moves_tokens op"
  shows "same_balances (fst s) (fst s') \<and> sent ms = 0"
  using assms
  by (cases op; cases s)
    (auto simp: operation_branch_def sys_defs sr_simps same_balances_def subscribers_message_def
      split: AdminOperation.splits dest!: check_each_same)

definition burned :: "SystemOperation \<Rightarrow> nat" where
  "burned op = (case op of Op_Transfer _ Burn amount \<Rightarrow> unat amount | _ \<Rightarrow> 0)"

lemma transfer_Inr:
  assumes "transfer signer owner rcp a s = (Inr m, s')"
  shows "debit owner a s = (Inr (), s')" and "owner \<noteq> None \<longrightarrow> signer = owner"
    and "sent (case m of None \<Rightarrow> [] | Some x \<Rightarrow> [x]) + burned (Op_Transfer owner rcp a) = unat a"
  using assms by (auto simp: transfer_def sr_simps burned_def split: Recipient.splits)

lemma open_chain_Inr:
  assumes "open_chain env config i s = (Inr ms, s')"
  shows "debit None (oc_balance config) s = (Inr (), s')" and "sent ms = unat (oc_balance config)"
  using assms by (auto simp: open_chain_def Let_def sr_simps)

lemma operation_branch_conserves:
  assumes ok: "bt_ok (sy_balances (fst s))" and r: "operation_branch env ctx op s = (Inr (ms, app), s')"
  shows "held (fst s) = held (fst s') + sent ms + burned op \<and> bt_ok (sy_balances (fst s'))"
proof (cases "moves_tokens op")
  case False
  then have "same_balances (fst s) (fst s')" "sent ms = 0" using operation_no_move [OF r] by auto
  moreover have "burned op = 0" using False by (cases op) (auto simp: burned_def)
  ultimately show ?thesis
    using ok same_balances_held [of "fst s" "fst s'"] by (simp add: same_balances_def)
next
  case True
  then consider owner rcp amount where "op = Op_Transfer owner rcp amount" | config where "op = Op_OpenChain config"
    by (cases op) auto
  then show ?thesis
  proof cases
    case 1
    then obtain m where m: "transfer (oc_authenticated_signer ctx) owner rcp amount (fst s) = (Inr m, fst s')"
        and ms: "ms = (case m of None \<Rightarrow> [] | Some x \<Rightarrow> [x])"
      using r by (auto simp: operation_branch_def sr_simps)
    show ?thesis
      using debit_held [OF ok transfer_Inr(1) [OF m]] transfer_Inr(3) [OF m] by (simp add: ms 1)
  next
    case 2
    then obtain i where m: "open_chain env config i (fst s) = (Inr ms, fst s')"
      using r by (auto simp: operation_branch_def sr_simps)
    show ?thesis
      using debit_held [OF ok open_chain_Inr(1) [OF m]] open_chain_Inr(2) [OF m] by (simp add: burned_def 2)
  qed
qed

lemma sys_execute_operation_Inr:
  assumes "sys_execute_operation env ctx op s = (Inr app, s')"
  shows "\<exists>ms s1. operation_branch env ctx op s = (Inr (ms, app), s1) \<and> fst s' = fst s1
    \<and> outcomes (snd s') = outcomes (snd s1) @ [System_outcome (operation_outcome ctx ms)]"
proof -
  obtain ms s1 t where "operation_branch env ctx op s = (Inr (ms, app), s1)"
      "add_outcome (System_outcome (operation_outcome ctx ms)) (snd s1) = (Inr (), t)" "s' = (fst s1, t)"
    using assms by (auto simp: sys_execute_operation_def add_system_outcome_def sr_simps)
  then show ?thesis using add_outcome_Inr by fastforce
qed

text \<open>Branches do not touch the outcomes collected so far.\<close>

lemma check_blobs_outcomes:
  "check_and_record_bytecode_blobs env b s = (Inr u, s') \<Longrightarrow> outcomes (snd s') = outcomes (snd s)"
  by (auto simp: check_and_record_bytecode_blobs_def Let_def sr_simps dest!: replay_outcomes)

lemma check_each_outcomes:
  "sr_each (\<lambda>a. check_and_record_bytecode_blobs env (f a)) as s = (Inr u, s') \<Longrightarrow>
     outcomes (snd s') = outcomes (snd s)"
  by (erule sr_each_invariant [where P = "\<lambda>t. outcomes (snd t) = outcomes (snd s)"])
    (auto dest: check_blobs_outcomes)

lemma operation_branch_outcomes:
  "operation_branch env ctx op s = (Inr r, s') \<Longrightarrow> outcomes (snd s') = outcomes (snd s)"
  by (cases op) (auto simp: operation_branch_def sr_simps split: AdminOperation.splits
      dest!: replay_outcomes check_each_outcomes)

text \<open>C13. System operations conserve tokens. After a successful system operation, the tokens the chain
  held before equal the tokens it holds now plus the tokens carried by the messages of the outcome
  the operation added, plus the tokens it burned.\<close>

theorem operations_conserve_tokens:
  assumes "bt_ok (sy_balances s)" and "sys_execute_operation env ctx op (s, t) = (Inr app, (s', t'))"
  shows "\<exists>out. outcomes t' = outcomes t @ [System_outcome out]
    \<and> held s = held s' + sent (eo_messages out) + burned op \<and> bt_ok (sy_balances s')"
proof -
  obtain ms s1 where b: "operation_branch env ctx op (s, t) = (Inr (ms, app), s1)" "fst s1 = s'"
      "outcomes t' = outcomes (snd s1) @ [System_outcome (operation_outcome ctx ms)]"
    using sys_execute_operation_Inr [OF assms(2)] by auto
  have "eo_messages (operation_outcome ctx ms) = ms" by (simp add: operation_outcome_def)
  then show ?thesis
    using operation_branch_conserves [OF _ b(1)] operation_branch_outcomes [OF b(1)] assms(1) b(2,3)
    by (intro exI [of _ "operation_outcome ctx ms"]) simp
qed

definition sample_env :: SysEnv where
  "sample_env = \<lparr>child_chain = (\<lambda>mid. mid_chain_id mid + 1), channel_name = (\<lambda>_. [0]),
     key_owner = (\<lambda>k. k), blob_content = (\<lambda>_. None), subscription_indices = (\<lambda>_. [])\<rparr>"

definition sample_ctx :: OperationContext where
  "sample_ctx = \<lparr>oc_chain_id = 4, oc_authenticated_signer = Some 8, oc_authenticated_caller_id = None,
     oc_height = 3, oc_index = Some 0\<rparr>"

definition sample_permissions :: ApplicationPermissions where
  "sample_permissions = \<lparr>execute_operations = None, mandatory_applications = [], close_chain_apps = []\<rparr>"

definition sample_sys :: SystemExecutionStateView where
  "sample_sys = \<lparr>sy_description = Some (Root 0), sy_epoch = Some 0, sy_admin_id = Some 4, sy_subscriptions = {},
     sy_committees = [(0, four_validators)], sy_ownership = ownership_single (\<lambda>k. k) 8, sy_balance = 20,
     sy_balances = [(7, 3), (8, 50)], sy_timestamp = 0, sy_registry = [], sy_closed = False,
     sy_application_permissions = sample_permissions\<rparr>"

definition sample_transfer :: SystemOperation where
  "sample_transfer = Op_Transfer (Some 8) (Rec_Account (Account_owner 5 9)) 30"

definition sample_transfer_message :: SysMsg where
  "sample_transfer_message = credit_message 5 Tracked (Msg_Credit (Some 9) 30 (Some 8))"

lemma sample_transfer_run:
  "sys_execute_operation sample_env sample_ctx sample_transfer (sample_sys, TransactionTracker_new 0 None) =
     (Inr None, (sample_sys\<lparr>sy_balances := [(7, 3), (8, 20)]\<rparr>,
       TransactionTracker_new 0 None\<lparr>tt_next_message_index := 1,
         outcomes := [System_outcome (operation_outcome sample_ctx [sample_transfer_message])]\<rparr>))"
  by (simp add: sys_execute_operation_def operation_branch_def sample_transfer_def transfer_def sample_ctx_def
      sample_sys_def sr_bind_def sr_ensure_def sr_ok_def on_sys_def on_txn_arith_def debit_def account_balance_def
      owner_balance_def set_account_balance_def try_sub_assign_def assign_num_def checked_sub_def word_le_nat_alt
      Account_owner_def add_system_outcome_def add_outcome_def message_count_def operation_outcome_def
      TransactionTracker_new_def checked_add_def sample_transfer_message_def)

theorem operations_conserve_tokens_witness:
  "held sample_sys = held (sample_sys\<lparr>sy_balances := [(7, 3), (8, 20)]\<rparr>)
     + sent [sample_transfer_message] + burned sample_transfer"
proof -
  have "bt_ok (sy_balances sample_sys)" by (simp add: sample_sys_def bt_ok_def)
  from operations_conserve_tokens [OF this sample_transfer_run] show ?thesis
    by (auto simp: TransactionTracker_new_def operation_outcome_def)
qed

section \<open>Incoming messages\<close>

text \<open>Tokens a message brings in, and tokens it destroys.\<close>

fun credited :: "SystemMessage \<Rightarrow> nat" where
  "credited (Msg_Credit _ amount _) = unat amount"
| "credited _ = 0"

fun withdrawn_to_nowhere :: "SystemMessage \<Rightarrow> nat" where
  "withdrawn_to_nowhere (Msg_Withdraw _ amount Burn) = unat amount"
| "withdrawn_to_nowhere _ = 0"

definition receiver_fits :: "MessageContext \<Rightarrow> SystemMessage \<Rightarrow> SystemExecutionStateView \<Rightarrow> bool" where
  "receiver_fits ctx m s = (case m of
     Msg_Credit target amount source \<Rightarrow>
       unat (account_balance (if mc_is_bouncing ctx then source else target) s) + unat amount < 2 ^ 128
   | _ \<Rightarrow> True)"

lemma credit_account_held:
  assumes "bt_ok (sy_balances s)" and "credit_account r a s = (Inr u, s')"
    and "unat (account_balance r s) + unat a < 2 ^ 128"
  shows "held s' = held s + unat a \<and> bt_ok (sy_balances s')"
proof -
  have "unat (saturating_add (account_balance r s) a) = unat (account_balance r s) + unat a"
    using assms(3) by (simp add: unat_saturating_add)
  then show ?thesis
    using assms(1,2) set_account_balance_held [OF assms(1), of r "saturating_add (account_balance r s) a"]
    by (auto simp: credit_account_def sr_simps)
qed

lemma register_each_same:
  "sr_each (register_with_blobs env) as s = (Inr u, s') \<Longrightarrow> same_balances (fst s) (fst s')"
  by (erule sr_each_invariant [where P = "\<lambda>t. same_balances (fst s) (fst t)"])
    (auto simp: same_balances_def register_with_blobs_def sr_simps dest!: check_blobs_same)

lemma message_no_move:
  assumes "message_branch env ctx m s = (Inr ms, s')"
    and "\<And>a b c. m \<noteq> Msg_Credit a b c" "\<And>a b c. m \<noteq> Msg_Withdraw a b c"
  shows "same_balances (fst s) (fst s') \<and> sent ms = 0"
  using assms
  by (cases m; cases s)
    (auto simp: message_branch_def create_committee_def remove_committee_def sr_simps same_balances_def
      dest!: register_each_same)

text \<open>C14. System messages conserve tokens. If the account that a credit goes to does not overflow,
  executing a system message leaves the chain with the tokens it held before plus the tokens
  credited, minus those sent on in its outcome and those burned.\<close>

theorem messages_conserve_tokens:
  assumes "bt_ok (sy_balances s)" and "receiver_fits ctx m s"
    and "sys_execute_message env ctx m (s, t) = (Inr out, (s', t'))"
  shows "held s + credited m = held s' + sent (eo_messages out) + withdrawn_to_nowhere m
    \<and> bt_ok (sy_balances s')"
proof -
  obtain ms where ms: "message_branch env ctx m (s, t) = (Inr ms, (s', t'))" "eo_messages out = ms"
    using assms(3) by (auto simp: sys_execute_message_def sr_simps)
  show ?thesis
  proof (cases "(\<forall>a b c. m \<noteq> Msg_Credit a b c) \<and> (\<forall>a b c. m \<noteq> Msg_Withdraw a b c)")
    case True
    then have "same_balances s s'" "sent ms = 0" using message_no_move [OF ms(1)] by auto
    moreover have "credited m = 0" "withdrawn_to_nowhere m = 0" using True by (cases m; auto)+
    ultimately show ?thesis
      using assms(1) ms(2) same_balances_held [of s s'] by (simp add: same_balances_def)
  next
    case False
    then consider a b c where "m = Msg_Credit a b c" | a b c where "m = Msg_Withdraw a b c" by blast
    then show ?thesis
    proof cases
      case 1
      then obtain u where "credit_account (if mc_is_bouncing ctx then c else a) b s = (Inr u, s')" "ms = []"
        using ms(1) by (auto simp: message_branch_def sr_simps)
      then show ?thesis
        using credit_account_held [OF assms(1)] assms(2) 1 ms(2) by (simp add: receiver_fits_def)
    next
      case 2
      then have d: "debit (Some a) b s = (Inr (), s')" and "sent ms + withdrawn_to_nowhere m = unat b"
        using ms(1) by (auto simp: message_branch_def sr_simps split: Recipient.splits)
      then show ?thesis using debit_held [OF assms(1) d] 2 ms(2) by simp
    qed
  qed
qed

definition sample_msg_ctx :: MessageContext where
  "sample_msg_ctx = \<lparr>mc_chain_id = 4, mc_is_bouncing = False, mc_authenticated_signer = None,
     mc_refund_grant_to = None, mc_height = 3, mc_certificate_hash = 1,
     mc_message_id = \<lparr>mid_chain_id = 6, mid_height = 2, mid_index = 0\<rparr>\<rparr>"

theorem messages_conserve_tokens_witness:
  "held sample_sys + 11 = held (sample_sys\<lparr>sy_balances := [(7, 14), (8, 50)]\<rparr>)"
proof -
  have "sys_execute_message sample_env sample_msg_ctx (Msg_Credit (Some 7) 11 None)
      (sample_sys, TransactionTracker_new 0 None) =
    (Inr (RawExecutionOutcome_default\<lparr>eo_messages := []\<rparr>),
      (sample_sys\<lparr>sy_balances := [(7, 14), (8, 50)]\<rparr>, TransactionTracker_new 0 None))"
    by (simp add: sys_execute_message_def message_branch_def sr_bind_def sr_ok_def on_sys_def credit_account_def
        sr_modify_def sample_msg_ctx_def sample_sys_def set_account_balance_def account_balance_def
        owner_balance_def saturating_add_def checked_add_def)
  from messages_conserve_tokens [OF _ _ this] show ?thesis
    by (simp add: sample_sys_def bt_ok_def receiver_fits_def sample_msg_ctx_def account_balance_def owner_balance_def)
qed

section \<open>Authorization\<close>

lemma owner_balance_set_account:
  "bt_ok (sy_balances s) \<Longrightarrow> owner_balance (set_account_balance owner b s) o' =
     (if owner = Some o' then b else owner_balance s o')"
  by (auto simp: owner_balance_def set_account_balance_def split: option.splits)

lemma debit_owner_balance:
  "bt_ok (sy_balances s) \<Longrightarrow> debit owner a s = (Inr u, s') \<Longrightarrow> owner \<noteq> Some o' \<Longrightarrow>
     owner_balance s' o' = owner_balance s o'"
  using debit_Inr(2) owner_balance_set_account by metis

lemma same_balances_owner: "same_balances s s' \<Longrightarrow> owner_balance s' o' = owner_balance s o'"
  by (simp add: same_balances_def owner_balance_def)

lemma operation_authorized:
  assumes ok: "bt_ok (sy_balances (fst s))" and r: "operation_branch env ctx op s = (Inr (ms, app), s')"
    and signer: "oc_authenticated_signer ctx \<noteq> Some o'"
  shows "owner_balance (fst s') o' = owner_balance (fst s) o'"
proof (cases "moves_tokens op")
  case False
  then show ?thesis using operation_no_move [OF r] same_balances_owner by metis
next
  case True
  then consider owner rcp amount where "op = Op_Transfer owner rcp amount" | config where "op = Op_OpenChain config"
    by (cases op) auto
  then show ?thesis
  proof cases
    case 1
    then obtain m where m: "transfer (oc_authenticated_signer ctx) owner rcp amount (fst s) = (Inr m, fst s')"
      using r by (auto simp: operation_branch_def sr_simps)
    then have "owner \<noteq> Some o'" using transfer_Inr(2) [OF m] signer by auto
    then show ?thesis using debit_owner_balance [OF ok transfer_Inr(1) [OF m]] by blast
  next
    case 2
    then obtain i where m: "open_chain env config i (fst s) = (Inr ms, fst s')"
      using r by (auto simp: operation_branch_def sr_simps)
    show ?thesis using debit_owner_balance [OF ok open_chain_Inr(1) [OF m]] by blast
  qed
qed

lemma credit_account_grows:
  assumes "bt_ok (sy_balances s)" and "credit_account r a s = (Inr u, s')"
  shows "owner_balance s o' \<le> owner_balance s' o'"
proof -
  have "account_balance r s \<le> saturating_add (account_balance r s) a"
    using unat_le_pow [of "account_balance r s"] by (simp add: word_le_nat_alt unat_saturating_add)
  then show ?thesis
    using assms by (auto simp: credit_account_def sr_simps owner_balance_set_account account_balance_def)
qed

lemma message_authorized:
  assumes ok: "bt_ok (sy_balances (fst s))" and r: "message_branch env ctx m s = (Inr ms, s')"
    and signer: "mc_authenticated_signer ctx \<noteq> Some o'"
  shows "owner_balance (fst s) o' \<le> owner_balance (fst s') o'"
proof (cases "(\<forall>a b c. m \<noteq> Msg_Credit a b c) \<and> (\<forall>a b c. m \<noteq> Msg_Withdraw a b c)")
  case True
  then have "same_balances (fst s) (fst s')" using message_no_move [OF r] by blast
  then show ?thesis using same_balances_owner by (metis order.refl)
next
  case False
  then consider a b c where "m = Msg_Credit a b c" | a b c where "m = Msg_Withdraw a b c" by blast
  then show ?thesis
  proof cases
    case 1
    then obtain u where "credit_account (if mc_is_bouncing ctx then c else a) b (fst s) = (Inr u, fst s')"
      using r by (auto simp: message_branch_def sr_simps)
    then show ?thesis by (rule credit_account_grows [OF ok])
  next
    case 2
    then have d: "debit (Some a) b (fst s) = (Inr (), fst s')" and "mc_authenticated_signer ctx = Some a"
      using r by (auto simp: message_branch_def sr_simps split: Recipient.splits)
    then show ?thesis using debit_owner_balance [OF ok d, of o'] signer by auto
  qed
qed

text \<open>The calls a block makes to the system application, in any order.\<close>

datatype SystemCall =
    Call_Operation OperationContext SystemOperation
  | Call_Message MessageContext SystemMessage

fun call_signer :: "SystemCall \<Rightarrow> Owner option" where
  "call_signer (Call_Operation ctx _) = oc_authenticated_signer ctx"
| "call_signer (Call_Message ctx _) = mc_authenticated_signer ctx"

fun run_call :: "SysEnv \<Rightarrow> SystemCall \<Rightarrow> unit sys_txn" where
  "run_call env (Call_Operation ctx op) = sr_bind (sys_execute_operation env ctx op) (\<lambda>_. sr_ok ())"
| "run_call env (Call_Message ctx m) =
     sr_bind (sys_execute_message env ctx m) (\<lambda>out. on_txn_arith (add_system_outcome out))"

lemma run_call_cases:
  assumes "run_call env call s = (Inr u, s')"
  obtains (operation) ctx op ms app s1 where "call = Call_Operation ctx op"
      "operation_branch env ctx op s = (Inr (ms, app), s1)" "fst s' = fst s1"
  | (message) ctx m ms s1 where "call = Call_Message ctx m" "message_branch env ctx m s = (Inr ms, s1)" "fst s' = fst s1"
proof (cases call)
  case (Call_Operation ctx op)
  then obtain app where "sys_execute_operation env ctx op s = (Inr app, s')"
    using assms by (auto simp: sr_simps)
  from sys_execute_operation_Inr [OF this] show thesis using operation [OF Call_Operation] by blast
next
  case (Call_Message ctx m)
  then obtain ms s1 where "message_branch env ctx m s = (Inr ms, s1)" "fst s' = fst s1"
    using assms by (auto simp: sys_execute_message_def sr_simps)
  then show thesis using message [OF Call_Message] by blast
qed

lemma message_branch_bt_ok:
  assumes ok: "bt_ok (sy_balances (fst s))" and r: "message_branch env ctx m s = (Inr ms, s')"
  shows "bt_ok (sy_balances (fst s'))"
proof (cases "(\<forall>a b c. m \<noteq> Msg_Credit a b c) \<and> (\<forall>a b c. m \<noteq> Msg_Withdraw a b c)")
  case True
  then have "same_balances (fst s) (fst s')" using message_no_move [OF r] by blast
  then show ?thesis using ok by (simp add: same_balances_def)
next
  case False
  then consider a b c where "m = Msg_Credit a b c" | a b c where "m = Msg_Withdraw a b c" by blast
  then show ?thesis
  proof cases
    case 1
    then show ?thesis using r ok by (auto simp: message_branch_def credit_account_def sr_simps)
  next
    case 2
    then have d: "debit (Some a) b (fst s) = (Inr (), fst s')"
      using r by (auto simp: message_branch_def sr_simps split: Recipient.splits)
    then show ?thesis using debit_held(2) [OF ok d] by blast
  qed
qed

lemma run_call_authorized:
  assumes ok: "bt_ok (sy_balances (fst s))" and r: "run_call env call s = (Inr u, s')"
    and signer: "call_signer call \<noteq> Some o'"
  shows "owner_balance (fst s) o' \<le> owner_balance (fst s') o' \<and> bt_ok (sy_balances (fst s'))"
  using r
proof (cases rule: run_call_cases)
  case (operation ctx op ms app s1)
  then show ?thesis
    using operation_authorized [OF ok operation(2), of o'] operation_branch_conserves [OF ok operation(2)] signer
    by simp
next
  case (message ctx m ms s1)
  then show ?thesis
    using message_authorized [OF ok message(2), of o'] message_branch_bt_ok [OF ok message(2)] signer by simp
qed

text \<open>C15. Nobody can spend an owner's tokens without the owner's signature. In any sequence of system
  operations and system messages that all succeed, if none of them is executed with the owner as
  authenticated signer, then the owner's balance does not decrease.\<close>

theorem owner_funds_need_signature:
  assumes "bt_ok (sy_balances s)" and "sr_each (run_call env) calls (s, t) = (Inr (), (s', t'))"
    and "\<forall>call \<in> set calls. call_signer call \<noteq> Some owner"
  shows "owner_balance s owner \<le> owner_balance s' owner"
proof -
  have "bt_ok (sy_balances (fst (s', t'))) \<and> owner_balance s owner \<le> owner_balance (fst (s', t')) owner"
  proof (rule sr_each_invariant [OF assms(2)])
    show "bt_ok (sy_balances (fst (s, t))) \<and> owner_balance s owner \<le> owner_balance (fst (s, t)) owner"
      using assms(1) by simp
    fix c x x' v
    assume "c \<in> set calls" and "run_call env c x = (Inr v, x')"
      and "bt_ok (sy_balances (fst x)) \<and> owner_balance s owner \<le> owner_balance (fst x) owner"
    then show "bt_ok (sy_balances (fst x')) \<and> owner_balance s owner \<le> owner_balance (fst x') owner"
      using run_call_authorized [of x env c v x' owner] assms(3) by (meson order.trans)
  qed
  then show ?thesis by simp
qed

theorem owner_funds_need_signature_witness:
  "owner_balance sample_sys 7 \<le> owner_balance (sample_sys\<lparr>sy_balances := [(7, 3), (8, 20)]\<rparr>) 7"
proof -
  have run: "sr_each (run_call sample_env) [Call_Operation sample_ctx sample_transfer]
      (sample_sys, TransactionTracker_new 0 None) =
    (Inr (), (sample_sys\<lparr>sy_balances := [(7, 3), (8, 20)]\<rparr>,
       TransactionTracker_new 0 None\<lparr>tt_next_message_index := 1,
         outcomes := [System_outcome (operation_outcome sample_ctx [sample_transfer_message])]\<rparr>))"
    by (simp add: sr_bind_def sample_transfer_run sr_ok_def)
  have "bt_ok (sy_balances sample_sys)" by (simp add: sample_sys_def bt_ok_def)
  from owner_funds_need_signature [OF this run, of 7] show ?thesis by (simp add: sample_ctx_def)
qed

section \<open>Replaying an execution\<close>

text \<open>
  A computation is replayable if, whenever it succeeds while recording, it also succeeds with the
  same result and the same final state while replaying the responses it recorded. The rules below
  follow the structure of the code.
\<close>

definition replayable :: "'a sys_txn \<Rightarrow> bool" where
  "replayable m \<longleftrightarrow> (\<forall>s rec x s' rec'. replaying_oracle_responses rec = None \<longrightarrow> m (s, rec) = (Inr x, (s', rec')) \<longrightarrow>
     replaying_oracle_responses rec' = None
     \<and> (\<exists>rs. tt_oracle_responses rec' = tt_oracle_responses rec @ rs
       \<and> (\<forall>rep rest. in_step (rs @ rest) rec rep \<longrightarrow>
            (\<exists>rep'. m (s, rep) = (Inr x, (s', rep')) \<and> in_step rest rec' rep'))))"

lemma replayable_keep:
  assumes "\<And>s t x s' t'. m (s, t) = (Inr x, (s', t')) \<Longrightarrow>
    t' = t \<and> (\<forall>u. tt_next_message_index u = tt_next_message_index t \<longrightarrow> m (s, u) = (Inr x, (s', u)))"
  shows "replayable m"
  unfolding replayable_def using assms by (fastforce simp: in_step_def)

lemma replayable_pure:
  "replayable (sr_ok x)" "replayable (sr_err e)" "replayable (sr_ensure b e)" "replayable (sr_lift r)"
  "replayable (on_sys f)" "replayable (sr_get (\<lambda>s. g (fst s)))"
  "replayable (sr_get (\<lambda>s. h (next_message_index (snd s))))"
  by (rule replayable_keep; auto simp: sr_simps next_message_index_def)+

lemma replayableD:
  assumes "replayable m" and "replaying_oracle_responses rec = None" and "m (s, rec) = (Inr x, (s', rec'))"
  obtains rs where "replaying_oracle_responses rec' = None" "tt_oracle_responses rec' = tt_oracle_responses rec @ rs"
    "\<And>rep rest. in_step (rs @ rest) rec rep \<Longrightarrow> \<exists>rep'. m (s, rep) = (Inr x, (s', rep')) \<and> in_step rest rec' rep'"
  using assms unfolding replayable_def by blast

lemma replayableI:
  assumes "\<And>s rec x s' rec'. replaying_oracle_responses rec = None \<Longrightarrow> m (s, rec) = (Inr x, (s', rec')) \<Longrightarrow>
     replaying_oracle_responses rec' = None
     \<and> (\<exists>rs. tt_oracle_responses rec' = tt_oracle_responses rec @ rs
       \<and> (\<forall>rep rest. in_step (rs @ rest) rec rep \<longrightarrow>
            (\<exists>rep'. m (s, rep) = (Inr x, (s', rep')) \<and> in_step rest rec' rep')))"
  shows "replayable m"
  using assms unfolding replayable_def by blast

lemma replayable_oracle:
  assumes k: "replayable k"
  shows "replayable (sr_bind (on_txn (replay_oracle_response r)) (\<lambda>_. k))"
proof (rule replayableI)
  fix s rec x s' rec'
  assume rec: "replaying_oracle_responses rec = None"
    and run: "sr_bind (on_txn (replay_oracle_response r)) (\<lambda>_. k) (s, rec) = (Inr x, (s', rec'))"
  let ?rec1 = "add_oracle_response r rec"
  have r1: "replaying_oracle_responses ?rec1 = None" "tt_oracle_responses ?rec1 = tt_oracle_responses rec @ [r]"
    using rec by (simp_all add: add_oracle_response_def)
  have k1: "k (s, ?rec1) = (Inr x, (s', rec'))"
    using run by (auto simp: sr_simps record_appends [OF rec])
  obtain rs where rs: "replaying_oracle_responses rec' = None" "tt_oracle_responses rec' = tt_oracle_responses ?rec1 @ rs"
    "\<And>rep rest. in_step (rs @ rest) ?rec1 rep \<Longrightarrow> \<exists>rep'. k (s, rep) = (Inr x, (s', rep')) \<and> in_step rest rec' rep'"
    using replayableD [OF k r1(1) k1] by blast
  have "\<exists>rep'. sr_bind (on_txn (replay_oracle_response r)) (\<lambda>_. k) (s, rep) = (Inr x, (s', rep')) \<and> in_step rest rec' rep'"
    if st: "in_step ((r # rs) @ rest) rec rep" for rep rest
  proof -
    obtain rep1 where "replay_oracle_response r rep = (Inr True, rep1)" "in_step (rs @ rest) ?rec1 rep1"
      using replay_in_step [of r "rs @ rest" rec rep] st record_appends [OF rec] by auto
    moreover from this(2) obtain rep' where "k (s, rep1) = (Inr x, (s', rep'))" "in_step rest rec' rep'"
      using rs(3) by blast
    ultimately show ?thesis by (auto simp: sr_simps)
  qed
  then show "replaying_oracle_responses rec' = None \<and> (\<exists>rs. tt_oracle_responses rec' = tt_oracle_responses rec @ rs
       \<and> (\<forall>rep rest. in_step (rs @ rest) rec rep \<longrightarrow>
            (\<exists>rep'. sr_bind (on_txn (replay_oracle_response r)) (\<lambda>_. k) (s, rep) = (Inr x, (s', rep'))
              \<and> in_step rest rec' rep')))"
    using rs(1,2) r1(2) by (intro conjI exI [of _ "r # rs"]) auto
qed

lemma replayable_bind:
  assumes m: "replayable m" and f: "\<And>x. replayable (f x)"
  shows "replayable (sr_bind m f)"
proof (rule replayableI)
  fix s rec y s' rec'
  assume rec: "replaying_oracle_responses rec = None" and run: "sr_bind m f (s, rec) = (Inr y, (s', rec'))"
  obtain x s1 rec1 where m1: "m (s, rec) = (Inr x, (s1, rec1))" and f1: "f x (s1, rec1) = (Inr y, (s', rec'))"
    using run by (auto simp: sr_simps)
  obtain rs1 where rs1: "replaying_oracle_responses rec1 = None" "tt_oracle_responses rec1 = tt_oracle_responses rec @ rs1"
    "\<And>rep rest. in_step (rs1 @ rest) rec rep \<Longrightarrow> \<exists>rep'. m (s, rep) = (Inr x, (s1, rep')) \<and> in_step rest rec1 rep'"
    using replayableD [OF m rec m1] by blast
  obtain rs2 where rs2: "replaying_oracle_responses rec' = None" "tt_oracle_responses rec' = tt_oracle_responses rec1 @ rs2"
    "\<And>rep rest. in_step (rs2 @ rest) rec1 rep \<Longrightarrow> \<exists>rep'. f x (s1, rep) = (Inr y, (s', rep')) \<and> in_step rest rec' rep'"
    using replayableD [OF f rs1(1) f1] by blast
  have "\<exists>rep'. sr_bind m f (s, rep) = (Inr y, (s', rep')) \<and> in_step rest rec' rep'"
    if st: "in_step ((rs1 @ rs2) @ rest) rec rep" for rep rest
  proof -
    obtain rep1 where "m (s, rep) = (Inr x, (s1, rep1))" "in_step (rs2 @ rest) rec1 rep1"
      using rs1(3) [of "rs2 @ rest" rep] st by auto
    moreover from this(2) obtain rep' where "f x (s1, rep1) = (Inr y, (s', rep'))" "in_step rest rec' rep'"
      using rs2(3) by blast
    ultimately show ?thesis by (auto simp: sr_simps)
  qed
  then show "replaying_oracle_responses rec' = None \<and> (\<exists>rs. tt_oracle_responses rec' = tt_oracle_responses rec @ rs
       \<and> (\<forall>rep rest. in_step (rs @ rest) rec rep \<longrightarrow>
            (\<exists>rep'. sr_bind m f (s, rep) = (Inr y, (s', rep')) \<and> in_step rest rec' rep')))"
    using rs2(1,2) rs1(2) by (intro conjI exI [of _ "rs1 @ rs2"]) auto
qed

lemma replayable_each: "(\<And>x. replayable (f x)) \<Longrightarrow> replayable (sr_each f xs)"
  by (induction xs) (auto intro: replayable_bind replayable_pure)

lemma replayable_outcome: "replayable (on_txn_arith (add_system_outcome out))"
proof (rule replayableI)
  fix s rec x s' rec'
  assume "replaying_oracle_responses rec = None"
    and run: "on_txn_arith (add_system_outcome out) (s, rec) = (Inr x, (s', rec'))"
  have a: "add_outcome (System_outcome out) rec = (Inr x, rec')" "s' = s"
    using run by (auto simp: sr_simps add_system_outcome_def)
  have "\<exists>rep'. on_txn_arith (add_system_outcome out) (s, rep) = (Inr x, (s', rep')) \<and> in_step rest rec' rep'"
    if "in_step ([] @ rest) rec rep" for rep rest
    using add_outcome_in_step [OF _ a(1)] that a(2) by (fastforce simp: sr_simps add_system_outcome_def)
  then show "replaying_oracle_responses rec' = None \<and> (\<exists>rs. tt_oracle_responses rec' = tt_oracle_responses rec @ rs
       \<and> (\<forall>rep rest. in_step (rs @ rest) rec rep \<longrightarrow>
            (\<exists>rep'. on_txn_arith (add_system_outcome out) (s, rep) = (Inr x, (s', rep')) \<and> in_step rest rec' rep')))"
    using add_outcome_Inr [OF a(1)] \<open>replaying_oracle_responses rec = None\<close> by (intro conjI exI [of _ "[]"]) auto
qed

lemmas replayable_intros = replayable_oracle replayable_bind replayable_each replayable_outcome replayable_pure

lemma replayable_check_blobs: "replayable (check_and_record_bytecode_blobs env b)"
  unfolding check_and_record_bytecode_blobs_def Let_def by (intro replayable_intros)

lemma replayable_operation_branch: "replayable (operation_branch env ctx op)"
proof (cases op)
  case (Op_Admin admin)
  then show ?thesis
    by (cases admin) (simp_all add: operation_branch_def replayable_intros)
next
  case (Op_CreateApplication b p a r)
  then show ?thesis unfolding operation_branch_def
    by (simp, intro replayable_intros replayable_check_blobs)
next
  case (Op_OpenChain config)
  then show ?thesis unfolding operation_branch_def by (simp, intro replayable_intros)
qed (simp_all add: operation_branch_def replayable_intros)

lemma replayable_execute_operation: "replayable (sys_execute_operation env ctx op)"
  unfolding sys_execute_operation_def
  by (intro replayable_bind replayable_operation_branch) (auto intro!: replayable_intros split: prod.split)

text \<open>C23. Executions can be replayed. If a system operation succeeds while recording oracle responses,
  then executing it again on the same state, replaying the recorded responses, succeeds with the
  same result and the same state, consumes all of them, and yields the same outcomes, responses
  and next message index.\<close>

theorem operations_replay:
  assumes "sys_execute_operation env ctx op (s, TransactionTracker_new i None) = (Inr r, (s', t))"
  shows "\<exists>t'. sys_execute_operation env ctx op
      (s, TransactionTracker_new i (Some (tt_oracle_responses t))) = (Inr r, (s', t'))
    \<and> destructure t' = Inr (outcomes t, tt_oracle_responses t, tt_next_message_index t)"
proof -
  have new: "replaying_oracle_responses (TransactionTracker_new i None) = None"
    "tt_oracle_responses (TransactionTracker_new i None) = []"
    by (simp_all add: TransactionTracker_new_def)
  obtain rs where "tt_oracle_responses t = rs"
    "\<And>rep rest. in_step (rs @ rest) (TransactionTracker_new i None) rep \<Longrightarrow>
       \<exists>rep'. sys_execute_operation env ctx op (s, rep) = (Inr r, (s', rep')) \<and> in_step rest t rep'"
    using replayableD [OF replayable_execute_operation new(1) assms] new(2) by (metis append_Nil)
  then obtain t' where "sys_execute_operation env ctx op
      (s, TransactionTracker_new i (Some (tt_oracle_responses t))) = (Inr r, (s', t'))" "in_step [] t t'"
    using in_step_new by (metis append_Nil2)
  then show ?thesis by (auto simp: in_step_def destructure_def)
qed

theorem operations_replay_witness:
  "\<exists>t'. sys_execute_operation sample_env sample_ctx (Op_PublishDataBlob 9)
      (sample_sys, TransactionTracker_new 0 (Some [Oracle_Blob (BlobId_new 9 Blob_Data)])) = (Inr None, (sample_sys, t'))
    \<and> fst (snd (projr (destructure t'))) = [Oracle_Blob (BlobId_new 9 Blob_Data)]"
proof -
  let ?t = "TransactionTracker_new 0 None\<lparr>tt_oracle_responses := [Oracle_Blob (BlobId_new 9 Blob_Data)],
    outcomes := [System_outcome (operation_outcome sample_ctx [])]\<rparr>"
  have "sys_execute_operation sample_env sample_ctx (Op_PublishDataBlob 9)
      (sample_sys, TransactionTracker_new 0 None) = (Inr None, (sample_sys, ?t))"
    by (simp add: sys_execute_operation_def operation_branch_def sr_bind_def on_txn_def replay_oracle_response_eq
        TransactionTracker_new_def add_oracle_response_def sr_ok_def on_txn_arith_def add_system_outcome_def
        add_outcome_def message_count_def operation_outcome_def checked_add_def)
  from operations_replay [OF this] show ?thesis by (auto simp: TransactionTracker_new_def)
qed

section \<open>Active chains\<close>

text \<open>The calls that may make a chain inactive: giving it a new set of owners, which may be empty, and
  removing the committee of its current epoch.\<close>

fun may_deactivate :: "SystemExecutionStateView \<Rightarrow> SystemCall \<Rightarrow> bool" where
  "may_deactivate s (Call_Operation _ (Op_ChangeOwnership _ _ _ _)) = True"
| "may_deactivate s (Call_Operation _ (Op_Admin (Admin_RemoveCommittee epoch))) = (sy_epoch s = Some epoch)"
| "may_deactivate s (Call_Message _ (Msg_RemoveCommittee epoch)) = (sy_epoch s = Some epoch)"
| "may_deactivate s _ = False"

definition same_chain :: "SystemExecutionStateView \<Rightarrow> SystemExecutionStateView \<Rightarrow> bool" where
  "same_chain s s' \<longleftrightarrow> sy_description s' = sy_description s \<and> sy_epoch s' = sy_epoch s
     \<and> sy_admin_id s' = sy_admin_id s \<and> sy_committees s' = sy_committees s \<and> sy_ownership s' = sy_ownership s"

lemma same_chain_active: "same_chain s s' \<Longrightarrow> sys_is_active s \<Longrightarrow> sys_is_active s'"
  by (simp add: same_chain_def sys_is_active_def current_committee_def)

lemma same_chain_refl [simp]: "same_chain s s"
  by (simp add: same_chain_def)

lemma same_chain_set_account [simp]: "same_chain s (set_account_balance r b s)"
  by (simp add: same_chain_def set_account_balance_def split: option.splits)

lemma same_chain_debit: "debit owner a s = (Inr u, s') \<Longrightarrow> same_chain s s'"
  using debit_Inr(2) [of owner a s u s'] by simp

lemma create_committee_active:
  "sys_is_active s \<Longrightarrow> bt_ok (sy_committees s) \<Longrightarrow> create_committee e c s = (Inr u, s') \<Longrightarrow> sys_is_active s'"
  by (auto simp: create_committee_def sr_simps sys_is_active_def current_committee_def)

lemma remove_committee_active:
  "sys_is_active s \<Longrightarrow> sy_epoch s \<noteq> Some e \<Longrightarrow> remove_committee e s = (Inr u, s') \<Longrightarrow> sys_is_active s'"
  by (auto simp: remove_committee_def sr_simps sys_is_active_def current_committee_def bind_eq_Some_conv)

lemma register_each_same_chain:
  "sr_each (register_with_blobs env) as s = (Inr u, s') \<Longrightarrow> same_chain (fst s) (fst s')"
  by (erule sr_each_invariant [where P = "\<lambda>t. same_chain (fst s) (fst t)"])
    (auto simp: same_chain_def register_with_blobs_def sr_simps dest!: check_blobs_same)

lemma operation_branch_active:
  assumes "operation_branch env ctx op s = (Inr r, s')" and "sys_is_active (fst s)"
    and "bt_ok (sy_committees (fst s))" and "\<not> may_deactivate (fst s) (Call_Operation ctx op)"
  shows "sys_is_active (fst s')"
proof (cases "\<exists>admin. op = Op_Admin admin")
  case True
  then show ?thesis
    using assms by (auto simp: operation_branch_def sr_simps split: AdminOperation.splits
        elim!: create_committee_active [rotated 2] remove_committee_active [rotated 2])
next
  case False
  have "same_chain (fst s) (fst s')"
  proof (cases op)
    case (Op_Transfer owner rcp a)
    then show ?thesis using assms(1)
      by (auto simp: operation_branch_def sr_simps dest!: transfer_Inr(1) same_chain_debit)
  next
    case (Op_OpenChain config)
    then show ?thesis using assms(1)
      by (auto simp: operation_branch_def sr_simps dest!: open_chain_Inr(1) same_chain_debit)
  next
    case (Op_CreateApplication b p a rs)
    then show ?thesis using assms(1)
      by (auto simp: operation_branch_def sr_simps same_chain_def dest!: check_each_same)
  qed (use assms(1,4) False in \<open>auto simp: operation_branch_def sys_defs sr_simps same_chain_def\<close>)
  then show ?thesis using same_chain_active assms(2) by blast
qed

lemma message_branch_active:
  assumes "message_branch env ctx m s = (Inr r, s')" and "sys_is_active (fst s)"
    and "bt_ok (sy_committees (fst s))" and "\<not> may_deactivate (fst s) (Call_Message ctx m)"
  shows "sys_is_active (fst s')"
proof (cases m)
  case (Msg_CreateCommittee e c)
  then show ?thesis using assms
    by (auto simp: message_branch_def sr_simps elim!: create_committee_active [rotated 2])
next
  case (Msg_RemoveCommittee e)
  then show ?thesis using assms
    by (auto simp: message_branch_def sr_simps elim!: remove_committee_active [rotated 2])
next
  case (Msg_RegisterApplications as)
  then have "same_chain (fst s) (fst s')"
    using assms(1) by (auto simp: message_branch_def sr_simps dest!: register_each_same_chain)
  then show ?thesis using same_chain_active assms(2) by blast
next
  case (Msg_Withdraw owner a rcp)
  then have "same_chain (fst s) (fst s')"
    using assms(1) by (auto simp: message_branch_def sr_simps split: Recipient.splits dest!: same_chain_debit)
  then show ?thesis using same_chain_active assms(2) by blast
next
  case (Msg_Credit target a source)
  then have "same_chain (fst s) (fst s')"
    using assms(1) by (auto simp: message_branch_def credit_account_def sr_simps)
  then show ?thesis using same_chain_active assms(2) by blast
qed (use assms(1,2) in \<open>auto simp: message_branch_def sr_simps\<close>)

text \<open>C28. Active chains stay active: a successful system operation or message keeps the chain's
  description, its owners, its admin chain and a committee for its current epoch, unless it changes
  the owners or removes the committee of the current epoch.\<close>

theorem active_chains_stay_active:
  assumes "sys_is_active s" and "bt_ok (sy_committees s)" and "run_call env call (s, t) = (Inr (), (s', t'))"
    and "\<not> may_deactivate s call"
  shows "sys_is_active s'"
  using assms(3)
proof (cases rule: run_call_cases)
  case (operation ctx op ms app s1)
  then show ?thesis using operation_branch_active [OF operation(2)] assms by simp
next
  case (message ctx m ms s1)
  then show ?thesis using message_branch_active [OF message(2)] assms by simp
qed

theorem active_chains_stay_active_witness:
  "sys_is_active (sample_sys\<lparr>sy_balances := [(7, 3), (8, 20)]\<rparr>)"
proof -
  have run: "run_call sample_env (Call_Operation sample_ctx sample_transfer)
      (sample_sys, TransactionTracker_new 0 None) =
    (Inr (), (sample_sys\<lparr>sy_balances := [(7, 3), (8, 20)]\<rparr>,
       TransactionTracker_new 0 None\<lparr>tt_next_message_index := 1,
         outcomes := [System_outcome (operation_outcome sample_ctx [sample_transfer_message])]\<rparr>))"
    by (simp add: sr_bind_def sample_transfer_run sr_ok_def)
  have "sys_is_active sample_sys" "bt_ok (sy_committees sample_sys)"
    by (simp_all add: sys_is_active_def sample_sys_def current_committee_def is_active_def ownership_single_def
        bt_ok_def)
  from active_chains_stay_active [OF this run] show ?thesis by (simp add: sample_transfer_def)
qed

end
