(* ===== verification/Execution.thy ===== *)
theory Execution
  imports System_State Resources "HOL-Library.Product_Lexorder"
begin

text \<open>
  The execution state of a chain (\<^verbatim>\<open>linera-execution/src/execution.rs\<close>): the dispatch of operations and
  messages to the system application or to user applications, the accounts that pay for them, the
  bouncing of messages, refunds, and the registration messages that precede the messages of user
  applications. Running a user application is a parameter: a state-passing function that stands for
  the contract's bytecode together with the host functions it calls.
\<close>

section \<open>State\<close>

record ExecutionStateView =
  ex_system :: SystemExecutionStateView
  ex_users :: "ApplicationId \<rightharpoonup> (bytes \<rightharpoonup> bytes)"

datatype UserAction =
    Instantiate OperationContext bytes
  | Operation_action OperationContext bytes
  | Message_action MessageContext bytes

definition action_signer :: "UserAction \<Rightarrow> Owner option" where
  "action_signer self = (case self of Instantiate context _ \<Rightarrow> oc_authenticated_signer context
     | Operation_action context _ \<Rightarrow> oc_authenticated_signer context
     | Message_action context _ \<Rightarrow> mc_authenticated_signer context)"

definition action_height :: "UserAction \<Rightarrow> BlockHeight" where
  "action_height self = (case self of Instantiate context _ \<Rightarrow> oc_height context
     | Operation_action context _ \<Rightarrow> oc_height context
     | Message_action context _ \<Rightarrow> mc_height context)"

type_synonym RuntimeState = "ExecutionStateView \<times> TransactionTracker \<times> Amount ResourceController"
type_synonym UserRuntime =
  "ApplicationId \<Rightarrow> ChainId \<Rightarrow> Timestamp \<Rightarrow> Account option \<Rightarrow> UserAction \<Rightarrow> (RuntimeState, ExecutionError, unit) sr"

record ExecEnv =
  exec_sys :: SysEnv
  exec_chain_id :: ChainId
  exec_runtime :: UserRuntime

text \<open>What a transaction works on: the execution state, its tracker and the resource controller.\<close>

record ExecTxn =
  x_state :: ExecutionStateView
  x_txn :: TransactionTracker
  x_controller :: "Owner option ResourceController"

type_synonym 'a exec = "(ExecTxn, ExecutionError, 'a) sr"

definition on_system :: "'a sys_txn \<Rightarrow> 'a exec" where
  "on_system m s =
     (let (r, (sys, txn)) = m (ex_system (x_state s), x_txn s)
      in (map_err SystemError r, s\<lparr>x_state := (x_state s)\<lparr>ex_system := sys\<rparr>, x_txn := txn\<rparr>))"

definition on_tracker :: "(TransactionTracker, ArithmeticError, 'a) sr \<Rightarrow> 'a exec" where
  "on_tracker m s = (let (r, txn) = m (x_txn s) in (map_err Exec_ArithmeticError r, s\<lparr>x_txn := txn\<rparr>))"

section \<open>The accounts that pay\<close>

text \<open>
  \<open>with_state_and_grant\<close> collects references to amounts; the model collects their values, and
  \<open>store_sources\<close> writes the amounts back when the borrow ends.
\<close>

definition funding_sources :: "ExecutionStateView \<Rightarrow> Amount option \<Rightarrow> Owner option \<Rightarrow> Amount list" where
  "funding_sources view grant account =
     (case grant of Some g \<Rightarrow> g | None \<Rightarrow> sy_balance (ex_system view)) #
     (case account of None \<Rightarrow> []
      | Some owner \<Rightarrow> (case bt_get (sy_balances (ex_system view)) owner of None \<Rightarrow> [] | Some b \<Rightarrow> [b]))"

definition with_state_and_grant ::
  "Owner option ResourceController \<Rightarrow> ExecutionStateView \<Rightarrow> Amount option \<Rightarrow> Amount list ResourceController" where
  "with_state_and_grant self view grant =
     \<lparr>rc_policy = rc_policy self, rc_tracker = rc_tracker self,
      rc_account = funding_sources view grant (rc_account self)\<rparr>"

definition store_sources ::
  "Amount list \<Rightarrow> ExecutionStateView \<Rightarrow> Amount option \<Rightarrow> Owner option \<Rightarrow> ExecutionStateView \<times> Amount option" where
  "store_sources sources view grant account =
     (case sources of
        [] \<Rightarrow> (view, grant)
      | first # rest \<Rightarrow>
          let sys = ex_system view;
              sys = (case grant of Some _ \<Rightarrow> sys | None \<Rightarrow> sys\<lparr>sy_balance := first\<rparr>);
              sys = (case (account, rest) of
                       (Some owner, b # _) \<Rightarrow> sys\<lparr>sy_balances := bt_insert owner b (sy_balances sys)\<rparr>
                     | _ \<Rightarrow> sys)
          in (view\<lparr>ex_system := sys\<rparr>, map_option (\<lambda>_. first) grant))"

text \<open>An accounting call on the temporary controller; also returns what is left of the grant.\<close>

definition tracking :: "Amount option \<Rightarrow> (Amount list, 'a) track \<Rightarrow> ('a \<times> Amount option) exec" where
  "tracking grant m s =
     (let controller = x_controller s;
          (r, c) = m (with_state_and_grant controller (x_state s) grant);
          (view, grant) = store_sources (rc_account c) (x_state s) grant (rc_account controller);
          s = s\<lparr>x_state := view, x_controller := controller\<lparr>rc_tracker := rc_tracker c\<rparr>\<rparr>
      in (bind_r r (\<lambda>x. Inr (x, grant)), s))"

definition with_state :: "(Amount list, 'a) track \<Rightarrow> 'a exec" where
  "with_state m = sr_bind (tracking None m) (\<lambda>(x, _). sr_ok x)"

section \<open>Running user applications\<close>

definition TransactionTracker_default :: TransactionTracker where
  "TransactionTracker_default = TransactionTracker_new 0 None"

text \<open>\<^verbatim>\<open>mem::take\<close> leaves an empty tracker behind, which stays when the action fails.\<close>

definition run_action :: "ExecEnv \<Rightarrow> ApplicationId \<Rightarrow> ChainId \<Rightarrow> Timestamp \<Rightarrow> Account option \<Rightarrow> UserAction
    \<Rightarrow> Amount \<Rightarrow> Amount ResourceController exec" where
  "run_action env app chain local_time refund_grant_to action initial s =
     (let controller = \<lparr>rc_policy = rc_policy (x_controller s), rc_tracker = rc_tracker (x_controller s),
            rc_account = initial\<rparr> in
      case exec_runtime env app chain local_time refund_grant_to action (x_state s, x_txn s, controller) of
        (Inl e, (view, _, _)) \<Rightarrow> (Inl e, s\<lparr>x_state := view, x_txn := TransactionTracker_default\<rparr>)
      | (Inr _, (view, txn, controller)) \<Rightarrow> (Inr controller, s\<lparr>x_state := view, x_txn := txn\<rparr>))"

definition run_user_action_with_runtime ::
  "ExecEnv \<Rightarrow> ApplicationId \<Rightarrow> ChainId \<Rightarrow> Timestamp \<Rightarrow> UserAction \<Rightarrow> Account option \<Rightarrow> Amount option
    \<Rightarrow> Amount option exec" where
  "run_user_action_with_runtime env app chain local_time action refund_grant_to grant =
     sr_bind (tracking grant (\<lambda>c. (map_err Exec_ArithmeticError (rc_balance sources_holder c), c))) (\<lambda>(initial, _).
     sr_bind (run_action env app chain local_time refund_grant_to action initial) (\<lambda>controller.
     sr_bind (sr_lift (map_err Exec_ArithmeticError (rc_balance amount_holder controller))) (\<lambda>final.
     sr_bind (tracking grant (merge_balance sources_holder initial final)) (\<lambda>(_, grant).
     sr_bind (sr_modify (\<lambda>s. s\<lparr>x_controller := (x_controller s)\<lparr>rc_tracker := rc_tracker controller\<rparr>\<rparr>)) (\<lambda>_.
     sr_ok grant)))))"

definition run_user_action ::
  "ExecEnv \<Rightarrow> ApplicationId \<Rightarrow> ChainId \<Rightarrow> Timestamp \<Rightarrow> UserAction \<Rightarrow> Account option \<Rightarrow> Amount option
    \<Rightarrow> Amount option exec" where
  "run_user_action env app chain local_time action refund_grant_to grant =
     run_user_action_with_runtime env app chain local_time action refund_grant_to grant"

section \<open>Operations and messages\<close>

definition assert_chain :: "ExecEnv \<Rightarrow> ChainId \<Rightarrow> unit exec" where
  "assert_chain env chain = sr_ensure (chain = exec_chain_id env) (Exec_Panic ''assertion failed'')"

definition execute_operation :: "ExecEnv \<Rightarrow> OperationContext \<Rightarrow> Timestamp \<Rightarrow> Operation \<Rightarrow> unit exec" where
  "execute_operation env context local_time operation =
     sr_bind (assert_chain env (oc_chain_id context)) (\<lambda>_.
     case operation of
       System_op op \<Rightarrow>
         sr_bind (on_system (sys_execute_operation (exec_sys env) context op)) (\<lambda>new_application.
         case new_application of
           None \<Rightarrow> sr_ok ()
         | Some (app, argument) \<Rightarrow>
             sr_bind (run_user_action env app (oc_chain_id context) local_time (Instantiate context argument)
               (ctx_refund_grant_to context) None) (\<lambda>_. sr_ok ()))
     | User_op app bs \<Rightarrow>
         sr_bind (run_user_action env app (oc_chain_id context) local_time (Operation_action context bs)
           (ctx_refund_grant_to context) None) (\<lambda>_. sr_ok ()))"

text \<open>Returns what is left of the grant.\<close>

definition execute_message ::
  "ExecEnv \<Rightarrow> MessageContext \<Rightarrow> Timestamp \<Rightarrow> Message \<Rightarrow> Amount option \<Rightarrow> Amount option exec" where
  "execute_message env context local_time message grant =
     sr_bind (assert_chain env (mc_chain_id context)) (\<lambda>_.
     case message of
       System_msg m \<Rightarrow>
         sr_bind (on_system (sys_execute_message (exec_sys env) context m)) (\<lambda>outcome.
         sr_bind (on_tracker (add_system_outcome outcome)) (\<lambda>_. sr_ok grant))
     | User_msg app bs \<Rightarrow>
         run_user_action env app (mc_chain_id context) local_time (Message_action context bs)
           (mc_refund_grant_to context) grant)"

definition bounced :: "MessageContext \<Rightarrow> Amount \<Rightarrow> 'm \<Rightarrow> ('m, Amount) RawExecutionOutcome" where
  "bounced context grant message =
     RawExecutionOutcome_default\<lparr>eo_authenticated_signer := mc_authenticated_signer context,
       eo_refund_grant_to := mc_refund_grant_to context,
       eo_messages := [\<lparr>ro_destination = Dest_Recipient (mid_chain_id (mc_message_id context)),
         ro_authenticated = True, ro_grant = grant, ro_kind = Bouncing, ro_message = message\<rparr>]\<rparr>"

definition bounce_message :: "ExecEnv \<Rightarrow> MessageContext \<Rightarrow> Amount \<Rightarrow> Message \<Rightarrow> unit exec" where
  "bounce_message env context grant message =
     sr_bind (assert_chain env (mc_chain_id context)) (\<lambda>_.
     case message of
       System_msg m \<Rightarrow> on_tracker (add_system_outcome (bounced context grant m))
     | User_msg app bs \<Rightarrow> on_tracker (add_user_outcome app (bounced context grant bs)))"

definition send_refund :: "ExecEnv \<Rightarrow> MessageContext \<Rightarrow> Amount \<Rightarrow> Account \<Rightarrow> unit exec" where
  "send_refund env context amount account =
     sr_bind (assert_chain env (mc_chain_id context)) (\<lambda>_.
     on_tracker (add_system_outcome (RawExecutionOutcome_default\<lparr>eo_messages :=
       [\<lparr>ro_destination = Dest_Recipient (acc_chain_id account), ro_authenticated = False, ro_grant = 0,
         ro_kind = Tracked,
         ro_message = Msg_Credit (acc_owner account) amount (mc_authenticated_signer context)\<rparr>]\<rparr>)))"

section \<open>Registration messages\<close>

text \<open>The derived orders of destinations and application identifiers, by which the maps and sets
  of the code are sorted.\<close>

instantiation Destination :: linorder
begin

definition less_eq_Destination :: "Destination \<Rightarrow> Destination \<Rightarrow> bool" where
  "less_eq_Destination a b =
     (case (a, b) of
        (Dest_Recipient x, Dest_Recipient y) \<Rightarrow> x \<le> y
      | (Dest_Recipient _, Dest_Subscribers _) \<Rightarrow> True
      | (Dest_Subscribers _, Dest_Recipient _) \<Rightarrow> False
      | (Dest_Subscribers x, Dest_Subscribers y) \<Rightarrow> x \<le> y)"

definition less_Destination :: "Destination \<Rightarrow> Destination \<Rightarrow> bool" where
  "less_Destination a b \<longleftrightarrow> a \<le> b \<and> \<not> b \<le> a"

instance
  by standard (auto simp: less_eq_Destination_def less_Destination_def split: Destination.splits)

end

definition app_key :: "ApplicationId \<Rightarrow> (CryptoHash \<times> CryptoHash) \<times> ChainId \<times> BlockHeight \<times> u32" where
  "app_key self =
     ((contract_blob_hash (bytecode_id self), service_blob_hash (bytecode_id self)),
      (mid_chain_id (creation self), mid_height (creation self), mid_index (creation self)))"

definition app_insert :: "ApplicationId \<Rightarrow> ApplicationId list \<Rightarrow> ApplicationId list" where
  "app_insert app apps = (if app \<in> set apps then apps else insort_key app_key app apps)"

definition to_register ::
  "ApplicationId \<Rightarrow> Destination \<Rightarrow> (Destination, ApplicationId list) btree \<Rightarrow> (Destination, ApplicationId list) btree" where
  "to_register app dest m =
     bt_insert dest (app_insert app (case bt_get m dest of None \<Rightarrow> [] | Some apps \<Rightarrow> apps)) m"

fun applications_to_register ::
  "ExecutionOutcome list \<Rightarrow> (Destination, ApplicationId list) btree \<Rightarrow> (Destination, ApplicationId list) btree" where
  "applications_to_register [] m = m"
| "applications_to_register (System_outcome _ # os) m = applications_to_register os m"
| "applications_to_register (User_outcome app out # os) m =
     applications_to_register os (fold (\<lambda>message. to_register app (ro_destination message)) (eo_messages out) m)"

definition registration_message ::
  "Registry \<Rightarrow> Destination \<times> ApplicationId list \<Rightarrow> ExecutionError + SysMsg" where
  "registration_message registry = (\<lambda>(destination, apps).
     bind_r (map_err SystemError (describe_applications_with_dependencies registry apps [])) (\<lambda>applications.
     Inr \<lparr>ro_destination = destination, ro_authenticated = False, ro_grant = 0, ro_kind = Simple,
          ro_message = Msg_RegisterApplications applications\<rparr>))"

definition is_user_outcome :: "ExecutionOutcome \<Rightarrow> bool" where
  "is_user_outcome out = (case out of User_outcome _ _ \<Rightarrow> True | System_outcome _ \<Rightarrow> False)"

definition update_execution_outcomes_with_app_registrations :: "unit exec" where
  "update_execution_outcomes_with_app_registrations s =
     (let results = outcomes (x_txn s);
          m = applications_to_register results [] in
      if m = [] then (Inr (), s)
      else case collect_results (map (registration_message (sy_registry (ex_system (x_state s)))) m) of
        Inl e \<Rightarrow> (Inl e, s)
      | Inr messages \<Rightarrow>
          let system_outcome = System_outcome (RawExecutionOutcome_default\<lparr>eo_messages := messages\<rparr>);
              results = takeWhile (\<lambda>out. \<not> is_user_outcome out) results @
                system_outcome # dropWhile (\<lambda>out. \<not> is_user_outcome out) results
          in (Inr (), s\<lparr>x_txn := (x_txn s)\<lparr>outcomes := results\<rparr>\<rparr>))"

end
