(* ===== verification/Chain_State.thy ===== *)
theory Chain_State
  imports Execution Inbox Outbox Manager "HOL-Library.AList"
begin

text \<open>
  The state of a chain and the execution of blocks (\<^verbatim>\<open>linera-chain/src/chain.rs\<close>). The collections of
  inboxes, outboxes and channels are association lists with one entry per key; loading an entry for
  writing creates it when it is missing, and loading the same entry twice at once fails to take the
  lock. Hashing of the state and serialized sizes are parameters. The sets whose iteration order
  the code leaves open are visited in order of first occurrence.
\<close>

section \<open>State\<close>

record BundleInInbox =
  bi_origin :: Origin
  bi_cursor :: Cursor

record TimestampedBundleInInbox =
  ts_entry :: BundleInInbox
  ts_seen :: Timestamp

record ChainTipState =
  block_hash :: "CryptoHash option"
  next_block_height :: BlockHeight
  num_incoming_bundles :: u32
  num_operations :: u32
  num_outgoing_messages :: u32

record ChannelStateView =
  subscribers :: "ChainId list"
  block_heights :: "BlockHeight list"

record ChainStateView =
  cs_execution_state :: ExecutionStateView
  cs_execution_state_hash :: "CryptoHash option"
  cs_tip_state :: ChainTipState
  cs_manager :: ChainManager
  cs_confirmed_log :: "CryptoHash list"
  cs_received_log :: "ChainAndHeight list"
  cs_inboxes :: "(Origin \<times> InboxStateView) list"
  cs_unskippable_bundles :: "TimestampedBundleInInbox list"
  cs_removed_unskippable_bundles :: "BundleInInbox set"
  cs_outboxes :: "(Target \<times> OutboxStateView) list"
  cs_outbox_counters :: "(BlockHeight, u32) btree"
  cs_channels :: "(ChannelFullName \<times> ChannelStateView) list"

record ChainEnv =
  ce_exec :: ExecEnv
  ce_crypto :: Crypto
  ce_sampler :: Sampler
  ce_state_hash :: "ExecutionStateView \<Rightarrow> CryptoHash"
  ce_size_bundle :: "IncomingBundle \<Rightarrow> nat option"
  ce_size_operation :: "Operation \<Rightarrow> nat option"
  ce_size_results :: "OracleResponse list \<times> OutgoingMessage list \<times> EventRecord list \<Rightarrow> nat option"

type_synonym 'a chain = "(ChainStateView, ChainError, 'a) sr"

definition ChannelStateView_new :: ChannelStateView where
  "ChannelStateView_new = \<lparr>subscribers = [], block_heights = []\<rparr>"

definition BundleInInbox_new :: "Origin \<Rightarrow> MessageBundle \<Rightarrow> BundleInInbox" where
  "BundleInInbox_new origin bundle = \<lparr>bi_origin = origin, bi_cursor = Cursor_from bundle\<rparr>"

definition env_chain_id :: "ChainEnv \<Rightarrow> ChainId" where
  "env_chain_id env = exec_chain_id (ce_exec env)"

text \<open>Entries of a collection: reading with a default, and creating the missing ones.\<close>

definition entry_or :: "'v \<Rightarrow> ('k \<times> 'v) list \<Rightarrow> 'k \<Rightarrow> 'v" where
  "entry_or dflt m k = (case map_of m k of Some v \<Rightarrow> v | None \<Rightarrow> dflt)"

definition load_entry :: "'v \<Rightarrow> 'k \<Rightarrow> ('k \<times> 'v) list \<Rightarrow> ('k \<times> 'v) list" where
  "load_entry dflt k m = AList.update k (entry_or dflt m k) m"

definition load_entries :: "'v \<Rightarrow> 'k list \<Rightarrow> ('k \<times> 'v) list \<Rightarrow> ('k \<times> 'v) list" where
  "load_entries dflt ks m = fold (load_entry dflt) ks m"

section \<open>The tip of the chain\<close>

definition verify_block_chaining :: "ChainTipState \<Rightarrow> Block \<Rightarrow> ChainError + unit" where
  "verify_block_chaining self new_block =
     bind_r (ensure (height new_block = next_block_height self)
       (UnexpectedBlockHeight (next_block_height self) (height new_block))) (\<lambda>_.
     bind_r (ensure (previous_block_hash new_block = block_hash self) UnexpectedPreviousBlockHash) (\<lambda>_.
     Inr ()))"

definition already_validated_block :: "ChainTipState \<Rightarrow> BlockHeight \<Rightarrow> ChainError + bool" where
  "already_validated_block self h =
     bind_r (ensure (h \<le> next_block_height self) (MissingEarlierBlocks (next_block_height self))) (\<lambda>_.
     Inr (h < next_block_height self))"

definition is_first_block :: "ChainTipState \<Rightarrow> bool" where
  "is_first_block self \<longleftrightarrow> next_block_height self = 0"

text \<open>Whether a counter still fits after adding a length; the sum itself is discarded.\<close>

definition verify_counter :: "u32 \<Rightarrow> nat \<Rightarrow> ChainError + unit" where
  "verify_counter counter n =
     bind_r (ok_or (try_u32 n) (Chain_ArithmeticError Overflow)) (\<lambda>n.
     bind_r (ok_or (checked_add counter n) (Chain_ArithmeticError Overflow)) (\<lambda>_. Inr ()))"

definition verify_counters :: "ChainTipState \<Rightarrow> Block \<Rightarrow> BlockExecutionOutcome \<Rightarrow> ChainError + unit" where
  "verify_counters self new_block out =
     bind_r (verify_counter (num_incoming_bundles self) (length (incoming_bundles new_block))) (\<lambda>_.
     bind_r (verify_counter (num_operations self) (length (operations new_block))) (\<lambda>_.
     verify_counter (num_outgoing_messages self) (length (messages out))))"

section \<open>Outboxes and channels\<close>

definition count_up :: "BlockHeight \<Rightarrow> (BlockHeight, u32) btree \<Rightarrow> (BlockHeight, u32) btree" where
  "count_up h counters = bt_insert h ((case bt_get counters h of Some n \<Rightarrow> n | None \<Rightarrow> 0) + 1) counters"

text \<open>Schedules a height in one outbox and counts it. Returns whether it was new.\<close>

definition schedule_in :: "Target \<Rightarrow> BlockHeight \<Rightarrow> bool chain" where
  "schedule_in target h self =
     (let (r, outbox) = schedule_message (entry_or OutboxStateView_new (cs_outboxes self) target) h;
          self = self\<lparr>cs_outboxes := AList.update target outbox (cs_outboxes self)\<rparr>
      in case r of
           Inl e \<Rightarrow> (Inl (Chain_ArithmeticError e), self)
         | Inr True \<Rightarrow> (Inr True, self\<lparr>cs_outbox_counters := count_up h (cs_outbox_counters self)\<rparr>)
         | Inr False \<Rightarrow> (Inr False, self))"

fun schedule_all :: "(Target \<times> BlockHeight) list \<Rightarrow> bool chain" where
  "schedule_all [] = sr_ok False"
| "schedule_all ((target, h) # rest) =
     sr_bind (schedule_in target h) (\<lambda>new.
     sr_bind (schedule_all rest) (\<lambda>more. sr_ok (new \<or> more)))"

definition load_outboxes :: "Target list \<Rightarrow> unit chain" where
  "load_outboxes targets =
     sr_bind (sr_modify (\<lambda>self. self\<lparr>cs_outboxes := load_entries OutboxStateView_new targets (cs_outboxes self)\<rparr>)) (\<lambda>_.
     sr_ensure (distinct targets) Chain_TryLockError)"

definition load_channels :: "ChannelFullName list \<Rightarrow> unit chain" where
  "load_channels names =
     sr_bind (sr_modify (\<lambda>self. self\<lparr>cs_channels := load_entries ChannelStateView_new names (cs_channels self)\<rparr>)) (\<lambda>_.
     sr_ensure (distinct names) Chain_TryLockError)"

definition update_channel :: "ChannelFullName \<Rightarrow> (ChannelStateView \<Rightarrow> ChannelStateView) \<Rightarrow> ChainStateView \<Rightarrow> ChainStateView" where
  "update_channel name f self =
     self\<lparr>cs_channels := AList.update name (f (entry_or ChannelStateView_new (cs_channels self) name)) (cs_channels self)\<rparr>"

definition full_name :: "GenericApplicationId \<Rightarrow> ChannelName \<Rightarrow> ChannelFullName" where
  "full_name app name = \<lparr>cfn_application_id = app, cfn_name = name\<rparr>"

text \<open>One new subscription: the heights to send to a new subscriber of a channel.\<close>

definition add_subscriber ::
  "ChannelFullName \<Rightarrow> ChainId \<Rightarrow> ChainStateView \<Rightarrow> (Target \<times> BlockHeight) list \<times> ChainStateView" where
  "add_subscriber name cid self =
     (let channel = entry_or ChannelStateView_new (cs_channels self) name in
      if cid \<in> set (subscribers channel) then ([], self)
      else (map (\<lambda>h. (Target_channel cid name, h)) (block_heights channel),
            update_channel name (\<lambda>c. c\<lparr>subscribers := subscribers c @ [cid]\<rparr>) self))"

fun add_subscribers ::
  "GenericApplicationId \<Rightarrow> (ChannelName \<times> ChainId) list \<Rightarrow> ChainStateView
    \<Rightarrow> (Target \<times> BlockHeight) list \<times> ChainStateView" where
  "add_subscribers app [] self = ([], self)"
| "add_subscribers app ((name, cid) # rest) self =
     (let (infos, self) = add_subscriber (full_name app name) cid self;
          (more, self) = add_subscribers app rest self
      in (infos @ more, self))"

definition process_subscribes ::
  "GenericApplicationId \<Rightarrow> (ChannelName \<times> ChainId) list \<Rightarrow> bool chain" where
  "process_subscribes app names_and_ids =
     (if names_and_ids = [] then sr_ok False
      else sr_bind (load_channels (map (\<lambda>(name, _). full_name app name) names_and_ids)) (\<lambda>_.
        sr_bind (\<lambda>self. let (infos, self) = add_subscribers app names_and_ids self in (Inr infos, self)) (\<lambda>infos.
        sr_bind (load_outboxes (remdups (map fst infos))) (\<lambda>_.
        schedule_all infos))))"

definition process_unsubscribes ::
  "GenericApplicationId \<Rightarrow> (ChannelName \<times> ChainId) list \<Rightarrow> unit chain" where
  "process_unsubscribes app names_and_ids =
     (if names_and_ids = [] then sr_ok ()
      else sr_bind (load_channels (map (\<lambda>(name, _). full_name app name) names_and_ids)) (\<lambda>_.
        sr_modify (fold (\<lambda>(name, cid). update_channel (full_name app name)
          (\<lambda>c. c\<lparr>subscribers := filter (\<lambda>x. x \<noteq> cid) (subscribers c)\<rparr>)) names_and_ids)))"

definition outgoing_message :: "('m \<Rightarrow> Message) \<Rightarrow> ('m, Amount) RawExecutionOutcome
    \<Rightarrow> ('m, Amount) RawOutgoingMessage \<Rightarrow> OutgoingMessage" where
  "outgoing_message lift raw m =
     \<lparr>om_destination = ro_destination m,
      om_authenticated_signer = (if ro_authenticated m then eo_authenticated_signer raw else None),
      om_grant = ro_grant m,
      om_refund_grant_to = (if 0 < ro_grant m then eo_refund_grant_to raw else None),
      om_kind = ro_kind m, om_message = lift (ro_message m)\<rparr>"

definition recipients_of :: "('m, Amount) RawOutgoingMessage list \<Rightarrow> ChainId list" where
  "recipients_of ms =
     remdups (List.map_filter (\<lambda>m. case ro_destination m of Dest_Recipient cid \<Rightarrow> Some cid | _ \<Rightarrow> None) ms)"

definition broadcasts_of :: "('m, Amount) RawOutgoingMessage list \<Rightarrow> ChannelName list" where
  "broadcasts_of ms =
     remdups (List.map_filter (\<lambda>m. case ro_destination m of Dest_Subscribers name \<Rightarrow> Some name | _ \<Rightarrow> None) ms)"

text \<open>Records the height in a channel; the targets are its subscribers.\<close>

definition broadcast_on :: "ChannelFullName \<Rightarrow> BlockHeight \<Rightarrow> ChainStateView \<Rightarrow> Target list \<times> ChainStateView" where
  "broadcast_on name h self =
     (map (\<lambda>cid. Target_channel cid name) (subscribers (entry_or ChannelStateView_new (cs_channels self) name)),
      update_channel name (\<lambda>c. c\<lparr>block_heights := block_heights c @ [h]\<rparr>) self)"

fun broadcast_all :: "ChannelFullName list \<Rightarrow> BlockHeight \<Rightarrow> ChainStateView \<Rightarrow> Target list \<times> ChainStateView" where
  "broadcast_all [] h self = ([], self)"
| "broadcast_all (name # names) h self =
     (let (targets, self) = broadcast_on name h self;
          (more, self) = broadcast_all names h self
      in (targets @ more, self))"

definition process_raw_execution_outcome ::
  "GenericApplicationId \<Rightarrow> ('m \<Rightarrow> Message) \<Rightarrow> BlockHeight \<Rightarrow> ('m, Amount) RawExecutionOutcome
    \<Rightarrow> (OutgoingMessage list \<times> EventRecord list) chain" where
  "process_raw_execution_outcome app lift h raw =
     (let evs = map (\<lambda>(stream_name, key, value').
            \<lparr>ev_stream_id = \<lparr>st_application_id = app, st_stream_name = stream_name\<rparr>, ev_key = key, ev_value = value'\<rparr>)
            (eo_events raw);
          msgs = map (outgoing_message lift raw) (eo_messages raw);
          targets = map Target_chain (recipients_of (eo_messages raw));
          names = map (full_name app) (broadcasts_of (eo_messages raw)) in
      sr_bind (sr_ensure (\<forall>m \<in> set (eo_messages raw). is_channel (ro_destination m) \<longrightarrow> ro_grant m = 0)
        GrantUseOnBroadcast) (\<lambda>_.
      sr_bind (load_outboxes targets) (\<lambda>_.
      sr_bind (schedule_all (map (\<lambda>target. (target, h)) targets)) (\<lambda>_.
      sr_bind (process_unsubscribes app (eo_unsubscribe raw)) (\<lambda>_.
      sr_bind (load_channels names) (\<lambda>_.
      sr_bind (\<lambda>self. let (ts, self) = broadcast_all names h self in (Inr ts, self)) (\<lambda>channel_targets.
      sr_bind (load_outboxes channel_targets) (\<lambda>_.
      sr_bind (schedule_all (map (\<lambda>target. (target, h)) channel_targets)) (\<lambda>_.
      sr_bind (process_subscribes app (eo_subscribe raw)) (\<lambda>_.
      sr_ok (msgs, evs)))))))))))"

fun process_execution_outcomes ::
  "BlockHeight \<Rightarrow> ExecutionOutcome list \<Rightarrow> (OutgoingMessage list \<times> EventRecord list) chain" where
  "process_execution_outcomes h [] = sr_ok ([], [])"
| "process_execution_outcomes h (result # results) =
     sr_bind (case result of
         System_outcome raw \<Rightarrow> process_raw_execution_outcome App_System System_msg h raw
       | User_outcome app raw \<Rightarrow> process_raw_execution_outcome (App_User app) (User_msg app) h raw) (\<lambda>(msgs, evs).
     sr_bind (process_execution_outcomes h results) (\<lambda>(msgs', evs').
     sr_ok (msgs @ msgs', evs @ evs')))"

text \<open>The counter of an acknowledged height goes down; at zero its entry disappears.\<close>

definition count_down :: "BlockHeight \<Rightarrow> unit chain" where
  "count_down h self =
     (case bt_get (cs_outbox_counters self) h of
        None \<Rightarrow> (Inl (Chain_Panic ''message counter should be present''), self)
      | Some n \<Rightarrow>
          if n = 0 then (Inl (Chain_Panic ''message counter should not underflow''), self)
          else (Inr (), self\<lparr>cs_outbox_counters :=
            (if n - 1 = 0 then bt_remove h (cs_outbox_counters self)
             else bt_insert h (n - 1) (cs_outbox_counters self))\<rparr>))"

definition chain_mark_messages_as_received :: "Target \<Rightarrow> BlockHeight \<Rightarrow> bool chain" where
  "chain_mark_messages_as_received target h self =
     (let (updates, outbox) =
            mark_messages_as_received (entry_or OutboxStateView_new (cs_outboxes self) target) h;
          self = self\<lparr>cs_outboxes := AList.update target outbox (cs_outboxes self)\<rparr> in
      if updates = [] then (Inr False, self)
      else sr_bind (sr_each count_down updates) (\<lambda>_.
        sr_bind (sr_modify (\<lambda>self. if outbox_queue outbox = []
          then self\<lparr>cs_outboxes := AList.delete target (cs_outboxes self)\<rparr> else self)) (\<lambda>_.
        sr_ok True)) self)"

definition all_messages_delivered_up_to :: "ChainStateView \<Rightarrow> BlockHeight \<Rightarrow> bool" where
  "all_messages_delivered_up_to self h =
     (case cs_outbox_counters self of (key, _) # _ \<Rightarrow> h < key | [] \<Rightarrow> True)"

section \<open>Receiving messages\<close>

definition chain_is_active :: "ChainStateView \<Rightarrow> bool" where
  "chain_is_active self = sys_is_active (ex_system (cs_execution_state self))"

definition chain_is_closed :: "ChainStateView \<Rightarrow> bool" where
  "chain_is_closed self = sy_closed (ex_system (cs_execution_state self))"

definition ensure_is_active :: "ChainEnv \<Rightarrow> ChainStateView \<Rightarrow> ChainError + unit" where
  "ensure_is_active env self = ensure (chain_is_active self) (InactiveChain (env_chain_id env))"

fun validate_entries :: "ChainId \<Rightarrow> (Origin \<times> InboxStateView) list \<Rightarrow> ChainError + unit" where
  "validate_entries cid [] = Inr ()"
| "validate_entries cid ((origin, inbox) # rest) =
     (case removed_bundles inbox of
        bundle # _ \<Rightarrow> Inl (MissingCrossChainUpdate cid origin (mb_height bundle))
      | [] \<Rightarrow> validate_entries cid rest)"

definition validate_incoming_bundles :: "ChainEnv \<Rightarrow> ChainStateView \<Rightarrow> ChainError + unit" where
  "validate_incoming_bundles env self = validate_entries (env_chain_id env) (cs_inboxes self)"

definition chain_next_block_height_to_receive :: "ChainStateView \<Rightarrow> Origin \<Rightarrow> ChainError + BlockHeight" where
  "chain_next_block_height_to_receive self origin =
     (case map_of (cs_inboxes self) origin of
        Some inbox \<Rightarrow> map_err Chain_ArithmeticError (next_block_height_to_receive inbox)
      | None \<Rightarrow> Inr 0)"

definition last_anticipated_block_height :: "ChainStateView \<Rightarrow> Origin \<Rightarrow> BlockHeight option" where
  "last_anticipated_block_height self origin =
     (case map_of (cs_inboxes self) origin of
        Some inbox \<Rightarrow> if removed_bundles inbox = [] then None else Some (mb_height (last (removed_bundles inbox)))
      | None \<Rightarrow> None)"

definition current_keys_and_weights :: "SystemExecutionStateView \<Rightarrow> (PublicKey \<times> u64) list" where
  "current_keys_and_weights sys =
     (case current_committee sys of Some (_, committee) \<Rightarrow> keys_and_weights committee | None \<Rightarrow> [])"

text \<open>Recomputes the state hash; resets the consensus state for the given height.\<close>

definition update_state_hash :: "ChainEnv \<Rightarrow> CryptoHash chain" where
  "update_state_hash env self =
     (let hash' = ce_state_hash env (cs_execution_state self)
      in (Inr hash', self\<lparr>cs_execution_state_hash := Some hash'\<rparr>))"

definition reset_manager :: "ChainEnv \<Rightarrow> BlockHeight \<Rightarrow> Timestamp \<Rightarrow> unit chain" where
  "reset_manager env h local_time self =
     (let sys = ex_system (cs_execution_state self)
      in case manager_reset (ce_crypto env) (ce_sampler env) (cs_manager self) (sy_ownership sys) h
                local_time (current_keys_and_weights sys) of
           Inl e \<Rightarrow> (Inl e, self)
         | Inr manager \<Rightarrow> (Inr (), self\<lparr>cs_manager := manager\<rparr>))"

definition execute_init_message ::
  "ChainEnv \<Rightarrow> MessageId \<Rightarrow> OpenChainConfig \<Rightarrow> Timestamp \<Rightarrow> Timestamp \<Rightarrow> bool chain" where
  "execute_init_message env mid config time local_time self =
     (let state = cs_execution_state self in
      case initialize_chain (exec_sys (ce_exec env)) (ex_system state) mid time config of
        None \<Rightarrow> (Inl (Chain_Panic ''assertion failed''), self)
      | Some sys \<Rightarrow>
          sr_bind (update_state_hash env) (\<lambda>_.
          sr_bind (reset_manager env 0 local_time) (\<lambda>_. sr_ok True))
            (self\<lparr>cs_execution_state := state\<lparr>ex_system := sys\<rparr>\<rparr>))"

definition handle_open_chain ::
  "ChainEnv \<Rightarrow> ChainAndHeight \<Rightarrow> Timestamp \<Rightarrow> Timestamp \<Rightarrow> PostedMessage \<Rightarrow> unit chain" where
  "handle_open_chain env chain_and_height time local_time posted_message =
     (case matches_open_chain (pm_message posted_message) of
        None \<Rightarrow> sr_ok ()
      | Some config \<Rightarrow>
          sr_bind (sr_get (\<lambda>self. sy_description (ex_system (cs_execution_state self)))) (\<lambda>description.
          if description \<noteq> None then sr_ok ()
          else sr_bind (execute_init_message env (to_message_id chain_and_height (pm_index posted_message))
            config time local_time) (\<lambda>_. sr_ok ())))"

definition subscribe_names :: "MessageBundle \<Rightarrow> (ChannelName \<times> ChainId) list" where
  "subscribe_names bundle =
     List.map_filter (\<lambda>m. map_option (\<lambda>(cid, subscription). (sub_name subscription, cid))
       (matches_subscribe (pm_message m))) (mb_messages bundle)"

definition unsubscribe_names :: "MessageBundle \<Rightarrow> (ChannelName \<times> ChainId) list" where
  "unsubscribe_names bundle =
     List.map_filter (\<lambda>m. map_option (\<lambda>(cid, subscription). (sub_name subscription, cid))
       (matches_unsubscribe (pm_message m))) (mb_messages bundle)"

definition add_to_inbox :: "Origin \<Rightarrow> MessageBundle \<Rightarrow> Timestamp \<Rightarrow> unit chain" where
  "add_to_inbox origin bundle local_time self =
     (let (r, inbox) = add_bundle (entry_or InboxStateView_new (cs_inboxes self) origin) bundle;
          self = self\<lparr>cs_inboxes := AList.update origin inbox (cs_inboxes self)\<rparr>
      in case r of
           Inl _ \<Rightarrow> (Inl (InternalError ''while processing messages in certified block''), self)
         | Inr newly_added \<Rightarrow>
             (Inr (), if newly_added \<and> \<not> is_skippable bundle
               then self\<lparr>cs_unskippable_bundles := cs_unskippable_bundles self @
                 [\<lparr>ts_entry = BundleInInbox_new origin bundle, ts_seen = local_time\<rparr>]\<rparr>
               else self))"

definition receive_message_bundle ::
  "ChainEnv \<Rightarrow> Origin \<Rightarrow> MessageBundle \<Rightarrow> Timestamp \<Rightarrow> bool \<Rightarrow> bool chain" where
  "receive_message_bundle env origin bundle local_time add_to_received_log =
     (let chain_and_height = \<lparr>ch_chain_id = sender origin, ch_height = mb_height bundle\<rparr> in
      sr_bind (sr_ensure (mb_messages bundle \<noteq> []) (Chain_Panic ''assertion failed'')) (\<lambda>_.
      sr_bind (sr_each (handle_open_chain env chain_and_height (mb_timestamp bundle) local_time) (mb_messages bundle)) (\<lambda>_.
      sr_bind (process_unsubscribes App_System (unsubscribe_names bundle)) (\<lambda>_.
      sr_bind (process_subscribes App_System (subscribe_names bundle)) (\<lambda>new_outbox_entries.
      sr_bind (if goes_to_inbox bundle then add_to_inbox origin bundle local_time else sr_ok ()) (\<lambda>_.
      sr_bind (sr_modify (\<lambda>self. if add_to_received_log
        then self\<lparr>cs_received_log := cs_received_log self @ [chain_and_height]\<rparr> else self)) (\<lambda>_.
      sr_ok new_outbox_entries)))))))"

section \<open>Removing the bundles of a block from the inboxes\<close>

fun group_bundles ::
  "Timestamp \<Rightarrow> ChainId \<Rightarrow> IncomingBundle list \<Rightarrow> (Origin \<times> MessageBundle list) list
    \<Rightarrow> ChainError + (Origin \<times> MessageBundle list) list" where
  "group_bundles time cid [] m = Inr m"
| "group_bundles time cid (ib # ibs) m =
     bind_r (ensure (mb_timestamp (ib_bundle ib) \<le> time)
       (IncorrectBundleTimestamp cid (mb_timestamp (ib_bundle ib)) time)) (\<lambda>_.
     group_bundles time cid ibs (AList.update (ib_origin ib) (entry_or [] m (ib_origin ib) @ [ib_bundle ib]) m))"

text \<open>Removes one bundle; the result is the entry to forget when the bundle was unskippable.\<close>

definition remove_from_inbox :: "ChainId \<Rightarrow> Origin \<Rightarrow> MessageBundle \<Rightarrow> BundleInInbox set chain" where
  "remove_from_inbox cid origin bundle self =
     (let (r, inbox) = remove_bundle (entry_or InboxStateView_new (cs_inboxes self) origin) bundle;
          self = self\<lparr>cs_inboxes := AList.update origin inbox (cs_inboxes self)\<rparr>
      in case r of
           Inl e \<Rightarrow> (Inl (ChainError_from_inbox cid origin e), self)
         | Inr was_present \<Rightarrow>
             (Inr (if was_present \<and> \<not> is_skippable bundle then {BundleInInbox_new origin bundle} else {}), self))"

fun remove_all_from_inbox :: "ChainId \<Rightarrow> (Origin \<times> MessageBundle) list \<Rightarrow> BundleInInbox set chain" where
  "remove_all_from_inbox cid [] = sr_ok {}"
| "remove_all_from_inbox cid ((origin, bundle) # rest) =
     sr_bind (remove_from_inbox cid origin bundle) (\<lambda>removed.
     sr_bind (remove_all_from_inbox cid rest) (\<lambda>more. sr_ok (removed \<union> more)))"

text \<open>The loop over the front of the queue: what is left of the queue, of the bundles removed by
  this block, and of those removed earlier.\<close>

fun drop_removed ::
  "TimestampedBundleInInbox list \<Rightarrow> BundleInInbox set \<Rightarrow> BundleInInbox set
    \<Rightarrow> TimestampedBundleInInbox list \<times> BundleInInbox set \<times> BundleInInbox set" where
  "drop_removed [] removed earlier = ([], removed, earlier)"
| "drop_removed (entry # queue) removed earlier =
     (if ts_entry entry \<in> removed then drop_removed queue (removed - {ts_entry entry}) earlier
      else if ts_entry entry \<in> earlier then drop_removed queue removed (earlier - {ts_entry entry})
      else (entry # queue, removed, earlier))"

definition forget_unskippable :: "BundleInInbox set \<Rightarrow> ChainStateView \<Rightarrow> ChainStateView" where
  "forget_unskippable removed self =
     (if removed = {} then self
      else let (queue, removed, earlier) =
             (case cs_unskippable_bundles self of
                front # queue \<Rightarrow>
                  if ts_entry front \<in> removed
                  then drop_removed queue (removed - {ts_entry front}) (cs_removed_unskippable_bundles self)
                  else (front # queue, removed, cs_removed_unskippable_bundles self)
              | [] \<Rightarrow> ([], removed, cs_removed_unskippable_bundles self))
           in self\<lparr>cs_unskippable_bundles := queue, cs_removed_unskippable_bundles := earlier \<union> removed\<rparr>)"

definition remove_bundles_from_inboxes :: "ChainEnv \<Rightarrow> Block \<Rightarrow> unit chain" where
  "remove_bundles_from_inboxes env b =
     sr_bind (sr_lift (group_bundles (timestamp b) (env_chain_id env) (incoming_bundles b) [])) (\<lambda>groups.
     sr_bind (sr_modify (\<lambda>self. self\<lparr>cs_inboxes := load_entries InboxStateView_new (map fst groups) (cs_inboxes self)\<rparr>)) (\<lambda>_.
     sr_bind (remove_all_from_inbox (env_chain_id env)
       (concat (map (\<lambda>(origin, bundles). map (\<lambda>bundle. (origin, bundle)) bundles) groups))) (\<lambda>removed.
     sr_modify (forget_unskippable removed))))"

end
