(* ===== verification/Block_Execution.thy ===== *)
theory Block_Execution
  imports Chain_State
begin

text \<open>
  The execution of a block on the state of a chain (\<open>execute_block\<close> and
  \<open>execute_message_in_block\<close> of \<^verbatim>\<open>linera-chain/src/chain.rs\<close>).
\<close>

section \<open>Working state\<close>

text \<open>What a block works on: the chain, its resource controller and the tracker of the current
  transaction.\<close>

record BlockRun =
  br_chain :: ChainStateView
  br_controller :: "Owner option ResourceController"
  br_txn :: TransactionTracker

text \<open>What a block accumulates over its transactions.\<close>

record BlockAcc =
  ba_replaying :: "OracleResponse list list option"
  ba_next_message_index :: u32
  ba_oracle_responses :: "OracleResponse list list"
  ba_events :: "EventRecord list list"
  ba_messages :: "OutgoingMessage list list"

type_synonym 'a run = "(BlockRun, ChainError, 'a) sr"

definition on_exec :: "ChainExecutionContext \<Rightarrow> 'a exec \<Rightarrow> 'a run" where
  "on_exec ctxt m s =
     (let (r, x) = m \<lparr>x_state = cs_execution_state (br_chain s), x_txn = br_txn s, x_controller = br_controller s\<rparr>
      in (map_err (\<lambda>e. Chain_ExecutionError e ctxt) r,
          s\<lparr>br_chain := (br_chain s)\<lparr>cs_execution_state := x_state x\<rparr>, br_txn := x_txn x,
            br_controller := x_controller x\<rparr>))"

definition on_controller :: "ChainExecutionContext \<Rightarrow> (Owner option, 'a) track \<Rightarrow> 'a run" where
  "on_controller ctxt m s =
     (let (r, c) = m (br_controller s) in (map_err (\<lambda>e. Chain_ExecutionError e ctxt) r, s\<lparr>br_controller := c\<rparr>))"

definition on_chain :: "'a chain \<Rightarrow> 'a run" where
  "on_chain m s = (let (r, c) = m (br_chain s) in (r, s\<lparr>br_chain := c\<rparr>))"

section \<open>Messages\<close>

definition message_context :: "MessageId \<Rightarrow> PostedMessage \<Rightarrow> IncomingBundle \<Rightarrow> Block \<Rightarrow> MessageContext" where
  "message_context mid posted_message incoming_bundle b =
     \<lparr>mc_chain_id = chain_id b, mc_is_bouncing = PostedMessage_is_bouncing posted_message,
      mc_authenticated_signer = pm_authenticated_signer posted_message,
      mc_refund_grant_to = pm_refund_grant_to posted_message, mc_height = height b,
      mc_certificate_hash = mb_certificate_hash (ib_bundle incoming_bundle), mc_message_id = mid\<rparr>"

definition execute_message_in_block ::
  "ChainEnv \<Rightarrow> IncomingBundle \<Rightarrow> Block \<Rightarrow> u32 \<Rightarrow> Timestamp \<Rightarrow> MessageId \<times> PostedMessage \<Rightarrow> unit run" where
  "execute_message_in_block env incoming_bundle b txn_index local_time = (\<lambda>(mid, posted_message).
     (let context' = message_context mid posted_message incoming_bundle b;
          grant = pm_grant posted_message in
      case ib_action incoming_bundle of
        Accept \<Rightarrow>
          let with_context = Ctx_IncomingBundle txn_index in
          sr_bind (sr_get (\<lambda>s. chain_is_closed (br_chain s))) (\<lambda>closed.
          sr_bind (sr_ensure (\<not> closed) ClosedChain) (\<lambda>_.
          sr_bind (on_exec with_context (execute_message (ce_exec env) context' local_time (pm_message posted_message)
            (if 0 < grant then Some grant else None))) (\<lambda>left.
          let grant = (case left of Some g \<Rightarrow> g | None \<Rightarrow> grant) in
          if 0 < grant
          then (case pm_refund_grant_to posted_message of
                  Some account \<Rightarrow> on_exec with_context (send_refund (ce_exec env) context' grant account)
                | None \<Rightarrow> sr_ok ())
          else sr_ok ())))
      | Reject \<Rightarrow>
          sr_bind (sr_get (\<lambda>s. chain_is_closed (br_chain s))) (\<lambda>closed.
          sr_bind (sr_ensure (\<not> PostedMessage_is_protected posted_message \<or> closed)
            (CannotRejectMessage (chain_id b) (ib_origin incoming_bundle) posted_message)) (\<lambda>_.
          if PostedMessage_is_tracked posted_message
          then on_exec Ctx_Block (bounce_message (ce_exec env) context' grant (pm_message posted_message))
          else if 0 < grant
          then (case pm_refund_grant_to posted_message of
                  None \<Rightarrow> sr_err (InternalError ''Messages with grants should have a non-empty refund_grant_to'')
                | Some account \<Rightarrow> on_exec Ctx_Block (send_refund (ce_exec env) context' grant account))
          else sr_ok ()))))"

section \<open>Transactions\<close>

definition transaction_context :: "u32 \<Rightarrow> Transaction \<Rightarrow> ChainExecutionContext" where
  "transaction_context txn_index transaction =
     (case transaction of ReceiveMessages _ \<Rightarrow> Ctx_IncomingBundle txn_index
      | ExecuteOperation _ \<Rightarrow> Ctx_Operation txn_index)"

definition next_responses ::
  "OracleResponse list list option \<Rightarrow> ChainError + OracleResponse list option \<times> OracleResponse list list option" where
  "next_responses replaying =
     (case replaying of
        Some (responses # rest) \<Rightarrow> Inr (Some responses, Some rest)
      | Some [] \<Rightarrow> Inl MissingOracleResponseList
      | None \<Rightarrow> Inr (None, None))"

definition operation_context :: "ChainEnv \<Rightarrow> Block \<Rightarrow> u32 \<Rightarrow> OperationContext" where
  "operation_context env b txn_index =
     \<lparr>oc_chain_id = env_chain_id env, oc_authenticated_signer = authenticated_signer b,
      oc_authenticated_caller_id = None, oc_height = height b, oc_index = Some txn_index\<rparr>"

definition run_transaction :: "ChainEnv \<Rightarrow> Block \<Rightarrow> Timestamp \<Rightarrow> u32 \<Rightarrow> Transaction \<Rightarrow> unit run" where
  "run_transaction env b local_time txn_index transaction =
     (let with_context = transaction_context txn_index transaction in
      case transaction of
        ReceiveMessages incoming_bundle \<Rightarrow>
          sr_bind (on_controller with_context (track_executed_block_size_of (ce_size_bundle env) incoming_bundle)) (\<lambda>_.
          sr_each (execute_message_in_block env incoming_bundle b txn_index local_time)
            (messages_and_ids incoming_bundle))
      | ExecuteOperation operation \<Rightarrow>
          sr_bind (on_controller with_context (track_executed_block_size_of (ce_size_operation env) operation)) (\<lambda>_.
          sr_bind (on_exec with_context (execute_operation (ce_exec env) (operation_context env b txn_index)
            local_time operation)) (\<lambda>_.
          on_exec with_context (with_state (track_operation sources_holder operation)))))"

text \<open>Outgoing messages are charged for, except those that come from rejecting a bundle.\<close>

definition pays_for_messages :: "Transaction \<Rightarrow> bool" where
  "pays_for_messages transaction =
     (case transaction of ExecuteOperation _ \<Rightarrow> True | ReceiveMessages ib \<Rightarrow> ib_action ib = Accept)"

definition execute_transaction ::
  "ChainEnv \<Rightarrow> Block \<Rightarrow> Timestamp \<Rightarrow> u32 \<times> Transaction \<Rightarrow> BlockAcc \<Rightarrow> BlockAcc run" where
  "execute_transaction env b local_time = (\<lambda>(txn_index, transaction) acc.
     (let with_context = transaction_context txn_index transaction in
      sr_bind (sr_lift (next_responses (ba_replaying acc))) (\<lambda>(maybe_responses, replaying).
      sr_bind (sr_modify (\<lambda>s. s\<lparr>br_txn := TransactionTracker_new (ba_next_message_index acc) maybe_responses\<rparr>)) (\<lambda>_.
      sr_bind (run_transaction env b local_time txn_index transaction) (\<lambda>_.
      sr_bind (on_exec with_context update_execution_outcomes_with_app_registrations) (\<lambda>_.
      sr_bind (sr_get (\<lambda>s. destructure (br_txn s))) (\<lambda>d.
      sr_bind (sr_lift (map_err (\<lambda>e. Chain_ExecutionError e with_context) d))
        (\<lambda>(txn_outcomes, txn_oracle_responses, new_next_message_index).
      sr_bind (on_chain (process_execution_outcomes (height b) txn_outcomes)) (\<lambda>(txn_messages, txn_events).
      sr_bind (if pays_for_messages transaction
        then sr_each (\<lambda>message_out. on_exec with_context
               (with_state (track_message sources_holder (om_message message_out)))) txn_messages
        else sr_ok ()) (\<lambda>_.
      sr_bind (on_controller with_context (track_executed_block_size_of (ce_size_results env)
        (txn_oracle_responses, txn_messages, txn_events))) (\<lambda>_.
      sr_bind (on_controller with_context
        (track_executed_block_size_sequence_extension (length (ba_oracle_responses acc)) 1)) (\<lambda>_.
      sr_bind (on_controller with_context
        (track_executed_block_size_sequence_extension (length (ba_messages acc)) 1)) (\<lambda>_.
      sr_bind (on_controller with_context
        (track_executed_block_size_sequence_extension (length (ba_events acc)) 1)) (\<lambda>_.
      sr_ok (acc\<lparr>ba_replaying := replaying, ba_next_message_index := new_next_message_index,
        ba_oracle_responses := ba_oracle_responses acc @ [txn_oracle_responses],
        ba_messages := ba_messages acc @ [txn_messages], ba_events := ba_events acc @ [txn_events]\<rparr>)))))))))))))))"

fun execute_transactions ::
  "ChainEnv \<Rightarrow> Block \<Rightarrow> Timestamp \<Rightarrow> (u32 \<times> Transaction) list \<Rightarrow> BlockAcc \<Rightarrow> BlockAcc run" where
  "execute_transactions env b local_time [] acc = sr_ok acc"
| "execute_transactions env b local_time (t # ts) acc =
     sr_bind (execute_transaction env b local_time t acc) (\<lambda>acc.
     execute_transactions env b local_time ts acc)"

section \<open>Blocks\<close>

definition EMPTY_EXECUTED_BLOCK_SIZE :: nat where
  "EMPTY_EXECUTED_BLOCK_SIZE = 91"

text \<open>The first block of a chain that is not a root chain starts with the message that opens it.\<close>

definition open_if_first :: "ChainEnv \<Rightarrow> Block \<Rightarrow> Timestamp \<Rightarrow> unit chain" where
  "open_if_first env b local_time =
     sr_bind (sr_get (\<lambda>self. sy_description (ex_system (cs_execution_state self)))) (\<lambda>description.
     if height b = 0 \<and> (case description of None \<Rightarrow> True | Some d \<Rightarrow> is_child d)
     then sr_bind (sr_lift (ok_or (starts_with_open_chain_message b) (InactiveChain (env_chain_id env))))
       (\<lambda>(in_bundle, posted_message, config).
       sr_bind (sr_get chain_is_active) (\<lambda>active.
       if active then sr_ok ()
       else sr_bind (execute_init_message env
           \<lparr>mid_chain_id = sender (ib_origin in_bundle), mid_height = mb_height (ib_bundle in_bundle),
            mid_index = pm_index posted_message\<rparr> config (timestamp b) local_time) (\<lambda>_. sr_ok ())))
     else sr_ok ())"

definition set_block_timestamp :: "Block \<Rightarrow> unit chain" where
  "set_block_timestamp b =
     sr_bind (sr_get (\<lambda>self. sy_timestamp (ex_system (cs_execution_state self)))) (\<lambda>time.
     sr_bind (sr_ensure (time \<le> timestamp b) InvalidBlockTimestamp) (\<lambda>_.
     sr_modify (\<lambda>self. self\<lparr>cs_execution_state := (cs_execution_state self)\<lparr>ex_system :=
       (ex_system (cs_execution_state self))\<lparr>sy_timestamp := timestamp b\<rparr>\<rparr>\<rparr>)))"

text \<open>Every operation must be permitted; what remains is the mandatory applications without an
  operation.\<close>

fun check_operations ::
  "ApplicationPermissions \<Rightarrow> Operation list \<Rightarrow> ApplicationId list \<Rightarrow> ChainError + ApplicationId list" where
  "check_operations app_permissions [] mandatory = Inr mandatory"
| "check_operations app_permissions (operation # rest) mandatory =
     bind_r (ensure (can_execute_operations app_permissions (Operation_application_id operation))
       (AuthorizedApplications (case execute_operations app_permissions of Some apps \<Rightarrow> apps | None \<Rightarrow> []))) (\<lambda>_.
     check_operations app_permissions rest
       (case operation of User_op app _ \<Rightarrow> filter (\<lambda>a. a \<noteq> app) mandatory | System_op _ \<Rightarrow> mandatory))"

fun check_messages :: "PostedMessage list \<Rightarrow> ApplicationId list \<Rightarrow> ApplicationId list" where
  "check_messages [] mandatory = mandatory"
| "check_messages (posted # rest) mandatory =
     (if mandatory = [] then []
      else check_messages rest
        (case pm_message posted of User_msg app _ \<Rightarrow> filter (\<lambda>a. a \<noteq> app) mandatory | System_msg _ \<Rightarrow> mandatory))"

definition check_permissions :: "ApplicationPermissions \<Rightarrow> Block \<Rightarrow> ChainError + unit" where
  "check_permissions app_permissions b =
     bind_r (check_operations app_permissions (operations b) (remdups (mandatory_applications app_permissions))) (\<lambda>mandatory.
     let mandatory = check_messages (incoming_messages b) mandatory in
     ensure (mandatory = []) (MissingMandatoryApplications mandatory))"

definition ResourceController_new :: "ResourceControlPolicy \<Rightarrow> Owner option \<Rightarrow> Owner option ResourceController" where
  "ResourceController_new p account = \<lparr>rc_policy = p, rc_tracker = tracker_default, rc_account = account\<rparr>"

definition track_block_header :: "Block \<Rightarrow> (Owner option, unit) track" where
  "track_block_header b =
     sr_bind (track_executed_block_size EMPTY_EXECUTED_BLOCK_SIZE) (\<lambda>_.
     sr_bind (track_executed_block_size_sequence_extension 0 (length (incoming_bundles b))) (\<lambda>_.
     track_executed_block_size_sequence_extension 0 (length (operations b))))"

definition BlockAcc_new :: "OracleResponse list list option \<Rightarrow> BlockAcc" where
  "BlockAcc_new replaying = \<lparr>ba_replaying = replaying, ba_next_message_index = 0, ba_oracle_responses = [],
     ba_events = [], ba_messages = []\<rparr>"

definition run_block_body ::
  "ChainEnv \<Rightarrow> Block \<Rightarrow> Timestamp \<Rightarrow> OracleResponse list list option \<Rightarrow> BlockExecutionOutcome run" where
  "run_block_body env b local_time replaying =
     sr_bind (on_controller Ctx_Block (track_block_header b)) (\<lambda>_.
     sr_bind (sr_get (\<lambda>s. chain_is_closed (br_chain s))) (\<lambda>closed.
     sr_bind (sr_ensure (closed \<longrightarrow> incoming_bundles b \<noteq> [] \<and> has_only_rejected_messages b) ClosedChain) (\<lambda>_.
     sr_bind (sr_get (\<lambda>s. sy_application_permissions (ex_system (cs_execution_state (br_chain s))))) (\<lambda>app_permissions.
     sr_bind (sr_lift (check_permissions app_permissions b)) (\<lambda>_.
     sr_bind (execute_transactions env b local_time (transactions b) (BlockAcc_new replaying)) (\<lambda>acc.
     sr_bind (sr_get (\<lambda>s. chain_is_closed (br_chain s))) (\<lambda>closed.
     sr_bind (if closed then sr_ok () else on_exec Ctx_Block (with_state (track_block sources_holder))) (\<lambda>_.
     sr_bind (on_chain (update_state_hash env)) (\<lambda>hash'.
     sr_bind (sr_lift (map_err Chain_ArithmeticError (try_add_one (height b)))) (\<lambda>next_height.
     sr_bind (on_chain (reset_manager env next_height local_time)) (\<lambda>_.
     sr_bind (sr_ensure (length (ba_messages acc) = length (incoming_bundles b) + length (operations b))
       (Chain_Panic ''assertion failed'')) (\<lambda>_.
     sr_ok \<lparr>messages = ba_messages acc, state_hash = hash', oracle_responses = ba_oracle_responses acc,
       events = ba_events acc\<rparr>))))))))))))"

definition execute_block ::
  "ChainEnv \<Rightarrow> Block \<Rightarrow> Timestamp \<Rightarrow> OracleResponse list list option \<Rightarrow> BlockExecutionOutcome chain" where
  "execute_block env b local_time replaying =
     sr_bind (sr_ensure (chain_id b = env_chain_id env) (Chain_Panic ''assertion failed'')) (\<lambda>_.
     sr_bind (open_if_first env b local_time) (\<lambda>_.
     sr_bind (set_block_timestamp b) (\<lambda>_.
     sr_bind (sr_get (\<lambda>self. current_committee (ex_system (cs_execution_state self)))) (\<lambda>committee.
     sr_bind (sr_lift (ok_or committee (InactiveChain (env_chain_id env)))) (\<lambda>(_, committee).
     \<lambda>self. let (r, s) = run_block_body env b local_time replaying
            \<lparr>br_chain = self, br_controller = ResourceController_new (policy committee) (authenticated_signer b),
             br_txn = TransactionTracker_default\<rparr>
        in (r, br_chain s))))))"

section \<open>Successful runs\<close>

lemma pure_run: "(case m of (x, s1) \<Rightarrow> (Inr x, s1)) = (Inr y, s') \<longleftrightarrow> m = (y, s')"
  by (cases m) auto

lemma mapped_run: "(case m of (r, s) \<Rightarrow> (r, f s)) = (r', x) \<longleftrightarrow> (\<exists>s. m = (r', s) \<and> x = f s)"
  by (cases m) auto

lemma on_chain_Inr: "on_chain m s = (Inr x, s') \<longleftrightarrow> (\<exists>c. m (br_chain s) = (Inr x, c) \<and> s' = s\<lparr>br_chain := c\<rparr>)"
  by (auto simp: on_chain_def mapped_run)

lemma on_controller_Inr:
  "on_controller ctxt m s = (Inr x, s') \<longleftrightarrow> (\<exists>c. m (br_controller s) = (Inr x, c) \<and> s' = s\<lparr>br_controller := c\<rparr>)"
  by (auto simp: on_controller_def split: prod.splits)

lemma on_exec_Inr:
  "on_exec ctxt m s = (Inr x, s') \<longleftrightarrow>
     (\<exists>e. m \<lparr>x_state = cs_execution_state (br_chain s), x_txn = br_txn s, x_controller = br_controller s\<rparr> = (Inr x, e)
       \<and> s' = s\<lparr>br_chain := (br_chain s)\<lparr>cs_execution_state := x_state e\<rparr>, br_txn := x_txn e,
                br_controller := x_controller e\<rparr>)"
  by (auto simp: on_exec_def split: prod.splits)

lemma execute_transaction_Inr:
  assumes "execute_transaction env b t (i, txn) acc s = (Inr acc', s')"
  obtains resp repl s1 s2 os rs n msgs evs s3 s4 s5 s6 s7 where
    "next_responses (ba_replaying acc) = Inr (resp, repl)"
    "run_transaction env b t i txn (s\<lparr>br_txn := TransactionTracker_new (ba_next_message_index acc) resp\<rparr>) = (Inr (), s1)"
    "on_exec (transaction_context i txn) update_execution_outcomes_with_app_registrations s1 = (Inr (), s2)"
    "destructure (br_txn s2) = Inr (os, rs, n)"
    "on_chain (process_execution_outcomes (height b) os) s2 = (Inr (msgs, evs), s3)"
    "(if pays_for_messages txn then sr_each (\<lambda>m. on_exec (transaction_context i txn)
        (with_state (track_message sources_holder (om_message m)))) msgs else sr_ok ()) s3 = (Inr (), s4)"
    "on_controller (transaction_context i txn) (track_executed_block_size_of (ce_size_results env) (rs, msgs, evs)) s4 = (Inr (), s5)"
    "on_controller (transaction_context i txn)
      (track_executed_block_size_sequence_extension (length (ba_oracle_responses acc)) 1) s5 = (Inr (), s6)"
    "on_controller (transaction_context i txn)
      (track_executed_block_size_sequence_extension (length (ba_messages acc)) 1) s6 = (Inr (), s7)"
    "on_controller (transaction_context i txn)
      (track_executed_block_size_sequence_extension (length (ba_events acc)) 1) s7 = (Inr (), s')"
    "acc' = acc\<lparr>ba_replaying := repl, ba_next_message_index := n,
       ba_oracle_responses := ba_oracle_responses acc @ [rs], ba_messages := ba_messages acc @ [msgs],
       ba_events := ba_events acc @ [evs]\<rparr>"
  using assms unfolding execute_transaction_def prod.case Let_def
  by (clarsimp simp: run_simps simp del: One_nat_def)

lemma run_block_body_Inr:
  assumes "run_block_body env b t repl s = (Inr out, s')"
  obtains x1 acc x2 x3 x4 hash' k where
    "on_controller Ctx_Block (track_block_header b) s = (Inr (), x1)"
    "chain_is_closed (br_chain x1) \<longrightarrow> incoming_bundles b \<noteq> [] \<and> has_only_rejected_messages b"
    "check_permissions (sy_application_permissions (ex_system (cs_execution_state (br_chain x1)))) b = Inr ()"
    "execute_transactions env b t (transactions b) (BlockAcc_new repl) x1 = (Inr acc, x2)"
    "(if chain_is_closed (br_chain x2) then sr_ok () else on_exec Ctx_Block (with_state (track_block sources_holder))) x2
      = (Inr (), x3)"
    "on_chain (update_state_hash env) x3 = (Inr hash', x4)"
    "try_add_one (height b) = Inr k"
    "on_chain (reset_manager env k t) x4 = (Inr (), s')"
    "out = \<lparr>messages = ba_messages acc, state_hash = hash', oracle_responses = ba_oracle_responses acc,
       events = ba_events acc\<rparr>"
  using assms unfolding run_block_body_def
  by (clarsimp simp: run_simps simp del: One_nat_def)

lemma execute_block_Inr:
  assumes "execute_block env b t repl s = (Inr out, s')"
  obtains s1 s2 e committee br where
    "chain_id b = env_chain_id env" "open_if_first env b t s = (Inr (), s1)" "set_block_timestamp b s1 = (Inr (), s2)"
    "current_committee (ex_system (cs_execution_state s2)) = Some (e, committee)"
    "run_block_body env b t repl \<lparr>br_chain = s2,
       br_controller = ResourceController_new (policy committee) (authenticated_signer b),
       br_txn = TransactionTracker_default\<rparr> = (Inr out, br)"
    "s' = br_chain br"
  using assms unfolding execute_block_def
  by (clarsimp simp: run_simps Let_def mapped_run)

end
