(* ===== verification/Chain_Outboxes.thy ===== *)
theory Chain_Outboxes
  imports Block_Execution
begin

text \<open>
  The outboxes of a chain. The counters per block height agree with the queues of the outboxes in
  every reachable state, so that acknowledgements never hit the panics of the code and
  \<open>all_messages_delivered_up_to\<close> answers exactly. Two locales lift a property of the mailboxes through the
  execution of a block.
\<close>

section \<open>Counting queued heights\<close>

definition queued :: "(Target \<times> OutboxStateView) list \<Rightarrow> BlockHeight \<Rightarrow> nat" where
  "queued m h = length (filter (\<lambda>(_, outbox). h \<in> set (outbox_queue outbox)) m)"

definition in_queue :: "(Target \<times> OutboxStateView) list \<Rightarrow> Target \<Rightarrow> BlockHeight \<Rightarrow> bool" where
  "in_queue m target h \<longleftrightarrow> h \<in> set (outbox_queue (entry_or OutboxStateView_new m target))"

lemma queued_simps [simp]:
  "queued [] h = 0"
  "queued ((t, outbox) # m) h = (if h \<in> set (outbox_queue outbox) then 1 else 0) + queued m h"
  by (simp_all add: queued_def)

lemma entry_or_Cons [simp]: "entry_or d ((k, v) # m) k' = (if k' = k then v else entry_or d m k')"
  by (simp add: entry_or_def)

lemma entry_or_Nil [simp]: "entry_or d [] k = d"
  by (simp add: entry_or_def)

lemma entry_or_update [simp]: "entry_or d (AList.update k v m) k' = (if k' = k then v else entry_or d m k')"
  by (simp add: entry_or_def update_conv')

lemma entry_or_load [simp]: "entry_or d (load_entries d ks m) k = entry_or d m k"
proof (induction ks arbitrary: m)
  case (Cons x ks)
  have "load_entries d (x # ks) m = load_entries d ks (load_entry d x m)" by (simp add: load_entries_def)
  then show ?case using Cons by (simp add: load_entry_def)
qed (simp add: load_entries_def)

lemma entry_or_delete: "entry_or d (AList.delete k m) k' = (if k' = k then d else entry_or d m k')"
  by (simp add: entry_or_def delete_conv')

lemma new_queue [simp]: "outbox_queue OutboxStateView_new = []"
  by (simp add: OutboxStateView_new_def)

lemma queued_update:
  "queued (AList.update t outbox m) h + (if in_queue m t h then 1 else 0)
     = queued m h + (if h \<in> set (outbox_queue outbox) then 1 else 0)"
  by (induction m) (auto simp: in_queue_def)

lemma queued_delete:
  "distinct (map fst m) \<Longrightarrow> queued (AList.delete t m) h + (if in_queue m t h then 1 else 0) = queued m h"
proof (induction m)
  case (Cons p m)
  obtain k v where p: "p = (k, v)" by (cases p)
  have "AList.delete k m = m" if "k \<notin> fst ` set m" using that by (rule delete_id)
  then show ?case using Cons by (auto simp: p in_queue_def)
qed (simp add: in_queue_def)

lemma queued_le: "queued m h \<le> length m"
  by (simp add: queued_def)

lemma queued_pos: "queued m h \<noteq> 0 \<longleftrightarrow> (\<exists>(t, outbox) \<in> set m. h \<in> set (outbox_queue outbox))"
  by (auto simp: queued_def filter_empty_conv)

section \<open>The counters agree with the queues\<close>

definition counter_of :: "nat \<Rightarrow> u32 option" where
  "counter_of n = (if n = 0 then None else Some (of_nat n))"

definition counters_ok :: "ChainStateView \<Rightarrow> bool" where
  "counters_ok s \<longleftrightarrow>
     distinct (map fst (cs_outboxes s)) \<and> (\<forall>(t, outbox) \<in> set (cs_outboxes s). outbox_inv outbox)
     \<and> bt_ok (cs_outbox_counters s)
     \<and> (\<forall>h. bt_get (cs_outbox_counters s) h = counter_of (queued (cs_outboxes s) h))"

lemma outbox_inv_entry:
  "\<forall>(t, outbox) \<in> set m. outbox_inv outbox \<Longrightarrow> outbox_inv (entry_or OutboxStateView_new m t)"
  by (auto simp: entry_or_def split: option.split dest!: map_of_SomeD)

lemma outbox_inv_update:
  "\<forall>(t, outbox) \<in> set m. outbox_inv outbox \<Longrightarrow> outbox_inv v \<Longrightarrow>
     \<forall>(t, outbox) \<in> set (AList.update t v m). outbox_inv outbox"
  by (induction m) auto

text \<open>Changing one outbox without changing its queue keeps the invariant.\<close>

lemma counters_ok_same_queue:
  assumes "counters_ok s" and "outbox_inv v"
    and "set (outbox_queue v) = set (outbox_queue (entry_or OutboxStateView_new (cs_outboxes s) t))"
  shows "counters_ok (s\<lparr>cs_outboxes := AList.update t v (cs_outboxes s)\<rparr>)"
proof -
  have "queued (AList.update t v (cs_outboxes s)) h = queued (cs_outboxes s) h" for h
    using queued_update [of t v "cs_outboxes s" h] assms(3) by (auto simp: in_queue_def split: if_splits)
  then show ?thesis
    using assms outbox_inv_update [of "cs_outboxes s" v t]
    by (simp add: counters_ok_def distinct_update)
qed

lemma counters_ok_load:
  "counters_ok s \<Longrightarrow> counters_ok (s\<lparr>cs_outboxes := load_entries OutboxStateView_new ts (cs_outboxes s)\<rparr>)"
proof (induction ts arbitrary: s)
  case (Cons t ts)
  let ?s = "s\<lparr>cs_outboxes := load_entry OutboxStateView_new t (cs_outboxes s)\<rparr>"
  have "counters_ok ?s"
    unfolding load_entry_def
    using Cons.prems by (intro counters_ok_same_queue) (auto simp: counters_ok_def intro: outbox_inv_entry)
  from Cons.IH [OF this] show ?case by (simp add: load_entries_def)
qed (simp add: load_entries_def)

lemma counters_ok_schedule: "keeps counters_ok (schedule_in t h)"
proof (rule keepsI)
  fix s x s'
  assume ok: "counters_ok s" and r: "schedule_in t h s = (Inr x, s')"
  let ?old = "entry_or OutboxStateView_new (cs_outboxes s) t"
  obtain b v where v: "schedule_message ?old h = (Inr b, v)"
    using r by (auto simp: schedule_in_def Let_def split: prod.splits sum.splits)
  have inv: "outbox_inv ?old" by (rule outbox_inv_entry) (use ok in \<open>simp add: counters_ok_def\<close>)
  then have inv': "outbox_inv v" using v outbox_inv_schedule by blast
  show "counters_ok s'"
  proof (cases b)
    case False
    then have "v = ?old" using v by (auto simp: schedule_message_cases split: if_splits)
    then show ?thesis
      using r v False counters_ok_same_queue [OF ok inv', of t] by (auto simp: schedule_in_def Let_def)
  next
    case True
    then have q: "outbox_queue v = outbox_queue ?old @ [h]" and le: "\<not> h < next_height_to_schedule ?old"
      using v by (auto simp: schedule_message_cases split: if_splits)
    have new: "h \<notin> set (outbox_queue ?old)" using inv le by (auto simp: outbox_inv_def list_all_iff)
    have s': "s' = s\<lparr>cs_outboxes := AList.update t v (cs_outboxes s),
        cs_outbox_counters := count_up h (cs_outbox_counters s)\<rparr>"
      using r v True by (simp add: schedule_in_def Let_def)
    have "queued (AList.update t v (cs_outboxes s)) x =
        queued (cs_outboxes s) x + (if x = h then 1 else 0)" for x
      using queued_update [of t v "cs_outboxes s" x] new by (auto simp: q in_queue_def split: if_splits)
    moreover have "\<forall>(t, outbox) \<in> set (AList.update t v (cs_outboxes s)). outbox_inv outbox"
      by (rule outbox_inv_update [OF _ inv']) (use ok in \<open>simp add: counters_ok_def\<close>)
    ultimately show ?thesis
      using ok by (simp add: s' counters_ok_def distinct_update count_up_def counter_of_def add.commute)
  qed
qed

lemma counters_ok_schedule_all [keeps_rules]: "keeps counters_ok (schedule_all xs)"
  by (induction xs rule: schedule_all.induct) (auto intro!: keeps_rules counters_ok_schedule)

lemma counters_ok_load_outboxes [keeps_rules]: "keeps counters_ok (load_outboxes ts)"
  unfolding load_outboxes_def by (intro keeps_rules counters_ok_load)

section \<open>Steps that leave the outboxes alone\<close>

definition same_outboxes :: "ChainStateView \<Rightarrow> ChainStateView \<Rightarrow> bool" where
  "same_outboxes s s' \<longleftrightarrow> cs_outboxes s' = cs_outboxes s \<and> cs_outbox_counters s' = cs_outbox_counters s"

lemma counters_ok_same: "same_outboxes s s' \<Longrightarrow> counters_ok s' \<longleftrightarrow> counters_ok s"
  by (simp add: counters_ok_def same_outboxes_def)

lemma update_channel_same [simp]:
  "cs_outboxes (update_channel name f s) = cs_outboxes s"
  "cs_outbox_counters (update_channel name f s) = cs_outbox_counters s"
  by (simp_all add: update_channel_def)

lemma add_subscribers_same:
  "add_subscribers app xs s = (infos, s') \<Longrightarrow> same_outboxes s s'"
  by (induction app xs s arbitrary: infos rule: add_subscribers.induct)
    (auto simp: add_subscriber_def same_outboxes_def Let_def split: prod.splits if_splits)

lemma broadcast_all_same: "broadcast_all names h s = (ts, s') \<Longrightarrow> same_outboxes s s'"
  by (induction names h s arbitrary: ts rule: broadcast_all.induct)
    (auto simp: broadcast_on_def same_outboxes_def split: prod.splits)

lemma unsubscribe_all_same:
  "same_outboxes s (fold (\<lambda>(name, cid). update_channel (full_name app name) (f cid)) xs s)"
  by (induction xs arbitrary: s) (auto simp: same_outboxes_def)

lemma keeps_same: "(\<And>s x s'. m s = (Inr x, s') \<Longrightarrow> same_outboxes s s') \<Longrightarrow> keeps counters_ok m"
  by (rule keepsI) (use counters_ok_same in blast)

lemma counters_ok_load_channels [keeps_rules]: "keeps counters_ok (load_channels names)"
  by (rule keeps_same) (auto simp: load_channels_def sr_simps same_outboxes_def)

lemma counters_ok_process_subscribes [keeps_rules]: "keeps counters_ok (process_subscribes app xs)"
  unfolding process_subscribes_def
  by (intro keeps_rules keeps_same) (auto dest: add_subscribers_same split: prod.splits)

lemma counters_ok_process_unsubscribes [keeps_rules]: "keeps counters_ok (process_unsubscribes app xs)"
  unfolding process_unsubscribes_def
  by (intro keeps_rules) (simp only: counters_ok_same [OF unsubscribe_all_same])

lemma counters_ok_process_raw [keeps_rules]: "keeps counters_ok (process_raw_execution_outcome app lift h raw)"
  unfolding process_raw_execution_outcome_def Let_def
  by (intro keeps_rules keeps_same) (auto dest: broadcast_all_same split: prod.splits)

lemma counters_ok_process_outcomes [keeps_rules]: "keeps counters_ok (process_execution_outcomes h outs)"
  by (induction h outs rule: process_execution_outcomes.induct)
    (auto intro!: keeps_rules split: ExecutionOutcome.split)

section \<open>Acknowledgements\<close>

lemma counter_step:
  fixes n :: nat
  assumes "0 < n" and "n < 2 ^ 32"
  shows "(of_nat n :: u32) \<noteq> 0" and "of_nat n - 1 = (of_nat (n - 1) :: u32)"
    and "of_nat (n - 1) = (0 :: u32) \<longleftrightarrow> n = 1"
proof -
  have u: "(of_nat k :: u32) = 0 \<longleftrightarrow> k = 0" if "k \<le> n" for k
  proof
    assume "(of_nat k :: u32) = 0"
    then have "unat (of_nat k :: u32) = 0" by (simp only: unat_0)
    moreover have "k < 2 ^ LENGTH(32)" using that assms(2) by simp
    ultimately show "k = 0" using unat_of_nat_small by metis
  qed simp
  show "(of_nat n :: u32) \<noteq> 0" using u [of n] assms(1) by simp
  show "of_nat n - 1 = (of_nat (n - 1) :: u32)" using assms(1) by (cases n) simp_all
  show "of_nat (n - 1) = (0 :: u32) \<longleftrightarrow> n = 1" using u [of "n - 1"] assms(1) by auto
qed

lemma count_down_step:
  assumes "bt_ok (cs_outbox_counters s)" and "\<forall>h. bt_get (cs_outbox_counters s) h = counter_of (n h)"
    and "0 < n x" and "n x < 2 ^ 32"
  shows "\<exists>c. count_down x s = (Inr (), s\<lparr>cs_outbox_counters := c\<rparr>) \<and> bt_ok c
    \<and> (\<forall>h. bt_get c h = counter_of ((n(x := n x - 1)) h))"
proof -
  define c where "c = (if n x = 1 then bt_remove x (cs_outbox_counters s)
    else bt_insert x (of_nat (n x - 1)) (cs_outbox_counters s))"
  have get: "bt_get (cs_outbox_counters s) x = Some (of_nat (n x))"
    using assms(2,3) by (simp add: counter_of_def)
  have "count_down x s = (Inr (), s\<lparr>cs_outbox_counters := c\<rparr>)"
    unfolding count_down_def get c_def using counter_step [OF assms(3,4)] by simp
  moreover have "bt_ok c" using assms(1) by (simp add: c_def)
  moreover have "bt_get c h = counter_of ((n(x := n x - 1)) h)" for h
    using assms by (simp add: c_def counter_of_def)
  ultimately show ?thesis by blast
qed

lemma count_downs:
  assumes "bt_ok (cs_outbox_counters s)" and "\<forall>h. bt_get (cs_outbox_counters s) h = counter_of (n h)"
    and "distinct hs" and "\<forall>h \<in> set hs. 0 < n h" and "\<forall>h. n h < 2 ^ 32"
  shows "\<exists>c. sr_each count_down hs s = (Inr (), s\<lparr>cs_outbox_counters := c\<rparr>) \<and> bt_ok c
    \<and> (\<forall>h. bt_get c h = counter_of (n h - (if h \<in> set hs then 1 else 0)))"
  using assms
proof (induction hs arbitrary: s n)
  case Nil
  then show ?case by (intro exI [of _ "cs_outbox_counters s"]) (simp add: sr_simps)
next
  case (Cons x hs)
  define n' where "n' = n(x := n x - 1)"
  have x: "x \<notin> set hs" "0 < n x" "n x < 2 ^ 32" using Cons.prems(3,4,5) by simp_all
  obtain c1 where step: "count_down x s = (Inr (), s\<lparr>cs_outbox_counters := c1\<rparr>)" and "bt_ok c1"
      and "\<forall>h. bt_get c1 h = counter_of (n' h)"
    using count_down_step [OF Cons.prems(1,2) x(2,3)] unfolding n'_def by blast
  moreover have "\<forall>h \<in> set hs. 0 < n' h" using Cons.prems(4) x(1) unfolding n'_def by auto
  moreover have "\<forall>h. n' h < 2 ^ 32" using Cons.prems(5) by (simp add: n'_def less_imp_diff_less)
  ultimately obtain c where "sr_each count_down hs (s\<lparr>cs_outbox_counters := c1\<rparr>) = (Inr (), s\<lparr>cs_outbox_counters := c\<rparr>)"
      and "bt_ok c" and "\<forall>h. bt_get c h = counter_of (n' h - (if h \<in> set hs then 1 else 0))"
    using Cons.IH [of "s\<lparr>cs_outbox_counters := c1\<rparr>" n'] Cons.prems(3) by auto
  moreover have "n' h - (if h \<in> set hs then 1 else 0) = n h - (if h \<in> set (x # hs) then 1 else 0)" for h
    using x(1) by (simp add: n'_def)
  ultimately show ?case using step by (intro exI [of _ c]) (simp add: sr_bind_def)
qed

lemma in_queue_pos: "in_queue m t x \<Longrightarrow> 0 < queued m x"
  by (induction m) (auto simp: in_queue_def split: if_splits)

text \<open>An outbox with an empty queue can be removed.\<close>

lemma counters_ok_delete:
  assumes "counters_ok s" and "\<And>x. \<not> in_queue (cs_outboxes s) t x"
  shows "counters_ok (s\<lparr>cs_outboxes := AList.delete t (cs_outboxes s)\<rparr>)"
proof -
  have d: "distinct (map fst (cs_outboxes s))" using assms(1) by (simp add: counters_ok_def)
  have "queued (AList.delete t (cs_outboxes s)) x = queued (cs_outboxes s) x" for x
    using queued_delete [OF d, of t x] assms(2) by simp
  moreover have "set (AList.delete t (cs_outboxes s)) \<subseteq> set (cs_outboxes s)"
    by (auto simp: AList.delete_eq)
  ultimately show ?thesis
    using assms(1) distinct_delete [OF d] by (auto simp: counters_ok_def)
qed

text \<open>Removing the acknowledged heights from a queue, together with their counters.\<close>

lemma acknowledge_counters:
  assumes ok: "counters_ok s" and small: "length (cs_outboxes s) < 2 ^ 32"
    and old: "old = entry_or OutboxStateView_new (cs_outboxes s) t" and inv: "outbox_inv old"
    and hs: "hs = filter (\<lambda>x. x \<le> h) (outbox_queue old)"
    and v: "v = old\<lparr>outbox_queue := filter (\<lambda>x. h < x) (outbox_queue old)\<rparr>"
    and inv': "outbox_inv v"
  shows "\<exists>s'. sr_each count_down hs (s\<lparr>cs_outboxes := AList.update t v (cs_outboxes s)\<rparr>) = (Inr (), s')
    \<and> cs_outboxes s' = AList.update t v (cs_outboxes s) \<and> counters_ok s'"
proof -
  let ?m = "cs_outboxes s"
  have invs: "\<forall>(t, outbox) \<in> set (AList.update t v ?m). outbox_inv outbox"
    by (rule outbox_inv_update [OF _ inv']) (use ok in \<open>simp add: counters_ok_def\<close>)
  have cnt: "queued (AList.update t v ?m) x = queued ?m x - (if x \<in> set hs then 1 else 0)" for x
    using queued_update [of t v ?m x] by (auto simp: v hs old in_queue_def not_less split: if_splits)
  have pos: "\<forall>x \<in> set hs. 0 < queued ?m x"
    using in_queue_pos [of ?m t] by (auto simp: hs old in_queue_def)
  have "distinct hs" using inv by (simp add: hs outbox_inv_def strict_sorted_iff)
  moreover have "\<forall>x. queued ?m x < 2 ^ 32" using queued_le [of ?m] small by (meson le_less_trans)
  ultimately obtain c where
    "sr_each count_down hs (s\<lparr>cs_outboxes := AList.update t v ?m\<rparr>) =
       (Inr (), s\<lparr>cs_outboxes := AList.update t v ?m, cs_outbox_counters := c\<rparr>)"
    "bt_ok c" "\<forall>x. bt_get c x = counter_of (queued ?m x - (if x \<in> set hs then 1 else 0))"
    using count_downs [of "s\<lparr>cs_outboxes := AList.update t v ?m\<rparr>" "queued ?m" hs] ok pos
    by (auto simp: counters_ok_def)
  then show ?thesis
    using invs ok by (auto simp: counters_ok_def cnt distinct_update)
qed

lemma mark_messages_exact:
  assumes ok: "counters_ok s" and small: "length (cs_outboxes s) < 2 ^ 32"
  shows "\<exists>b s'. chain_mark_messages_as_received t h s = (Inr b, s') \<and> counters_ok s'
    \<and> (b \<longleftrightarrow> (\<exists>x \<le> h. in_queue (cs_outboxes s) t x))
    \<and> (\<forall>t' x. in_queue (cs_outboxes s') t' x \<longleftrightarrow> in_queue (cs_outboxes s) t' x \<and> \<not> (t' = t \<and> x \<le> h))"
proof -
  let ?m = "cs_outboxes s"
  define old where "old = entry_or OutboxStateView_new ?m t"
  define hs where "hs = filter (\<lambda>x. x \<le> h) (outbox_queue old)"
  define v where "v = old\<lparr>outbox_queue := filter (\<lambda>x. h < x) (outbox_queue old)\<rparr>"
  have inv: "outbox_inv old"
    unfolding old_def by (rule outbox_inv_entry) (use ok in \<open>simp add: counters_ok_def\<close>)
  then have mark: "mark_messages_as_received old h = (hs, v)"
    by (simp add: mark_messages_as_received_eq hs_def v_def)
  have inv': "outbox_inv v" using outbox_inv_mark [OF inv, of h] mark by simp
  obtain s1 where run: "sr_each count_down hs (s\<lparr>cs_outboxes := AList.update t v ?m\<rparr>) = (Inr (), s1)"
      and m1: "cs_outboxes s1 = AList.update t v ?m" and ok1: "counters_ok s1"
    using acknowledge_counters [OF ok small old_def inv hs_def v_def inv'] by blast
  have in1: "in_queue (cs_outboxes s1) t' x \<longleftrightarrow> in_queue ?m t' x \<and> \<not> (t' = t \<and> x \<le> h)" for t' x
    by (auto simp: m1 in_queue_def v_def old_def)
  have any: "hs \<noteq> [] \<longleftrightarrow> (\<exists>x \<le> h. in_queue ?m t x)"
    by (auto simp: hs_def old_def in_queue_def filter_empty_conv)
  let ?s' = "if hs \<noteq> [] \<and> outbox_queue v = [] then s1\<lparr>cs_outboxes := AList.delete t (cs_outboxes s1)\<rparr> else s1"
  have "chain_mark_messages_as_received t h s = (Inr (hs \<noteq> []), ?s')"
    using mark run
    by (auto simp: chain_mark_messages_as_received_def old_def Let_def sr_bind_def sr_modify_def sr_ok_def)
  moreover have "counters_ok ?s'"
    using ok1 counters_ok_delete [OF ok1, of t] by (auto simp: m1 in_queue_def)
  moreover have "in_queue (cs_outboxes ?s') t' x = in_queue (cs_outboxes s1) t' x" for t' x
    by (auto simp: m1 in_queue_def entry_or_delete)
  ultimately show ?thesis using any in1 by blast
qed

section \<open>Invariants of block execution\<close>

text \<open>
  A property of the mailboxes: it does not depend on the execution state, its hash or the consensus
  state, and recording the outcomes of transactions at height \<open>h\<close> keeps it. Executing a block of
  that height then keeps it too.
\<close>

locale mailbox_invariant =
  fixes P :: "ChainStateView \<Rightarrow> bool" and h :: BlockHeight
  assumes exec_blind: "P s \<Longrightarrow> P (s\<lparr>cs_execution_state := e\<rparr>)"
    and hash_blind: "P s \<Longrightarrow> P (s\<lparr>cs_execution_state_hash := x\<rparr>)"
    and manager_blind: "P s \<Longrightarrow> P (s\<lparr>cs_manager := m\<rparr>)"
    and outcomes_keep: "keeps P (process_execution_outcomes h outs)"
begin

lemma keeps_update_state_hash: "keeps P (update_state_hash env)"
  by (rule keepsI) (auto simp: update_state_hash_def Let_def hash_blind)

lemma keeps_reset_manager: "keeps P (reset_manager env k t)"
  by (rule keepsI) (auto simp: reset_manager_def Let_def manager_blind split: sum.splits)

lemma keeps_execute_init_message: "keeps P (execute_init_message env mid config time t)"
proof (rule keepsI)
  fix s x s'
  assume P: "P s" and r: "execute_init_message env mid config time t s = (Inr x, s')"
  obtain sys where run: "sr_bind (update_state_hash env) (\<lambda>_. sr_bind (reset_manager env 0 t) (\<lambda>_. sr_ok True))
      (s\<lparr>cs_execution_state := (cs_execution_state s)\<lparr>ex_system := sys\<rparr>\<rparr>) = (Inr x, s')"
    using r by (auto simp: execute_init_message_def Let_def split: option.splits)
  have "keeps P (sr_bind (update_state_hash env) (\<lambda>_. sr_bind (reset_manager env 0 t) (\<lambda>_. sr_ok True)))"
    by (intro keeps_rules keeps_update_state_hash keeps_reset_manager)
  from keepsD [OF this run exec_blind [OF P]] show "P s'" .
qed

lemma keeps_on_exec: "keeps (\<lambda>s. P (br_chain s)) (on_exec ctxt m)"
  by (rule keepsI) (auto simp: on_exec_def Let_def exec_blind split: prod.splits)

lemma keeps_on_controller: "keeps (\<lambda>s. P (br_chain s)) (on_controller ctxt m)"
  by (rule keepsI) (auto simp: on_controller_def Let_def split: prod.splits)

lemma keeps_on_chain: "keeps P m \<Longrightarrow> keeps (\<lambda>s. P (br_chain s)) (on_chain m)"
  by (rule keepsI) (auto simp: on_chain_def keeps_def split: prod.splits)

lemma keeps_execute_message_in_block:
  "keeps (\<lambda>s. P (br_chain s)) (execute_message_in_block env ib b i t mp)"
  unfolding execute_message_in_block_def Let_def
  by (auto intro!: keeps_rules keeps_on_exec split: prod.split MessageAction.split)

lemma keeps_run_transaction: "keeps (\<lambda>s. P (br_chain s)) (run_transaction env b t i txn)"
  unfolding run_transaction_def Let_def
  by (auto intro!: keeps_rules keeps_on_exec keeps_on_controller keeps_execute_message_in_block
      split: Transaction.split)

lemma keeps_execute_transaction:
  assumes "height b = h"
  shows "keeps (\<lambda>s. P (br_chain s)) (execute_transaction env b t it acc)"
proof -
  obtain i txn where it: "it = (i, txn)" by (cases it)
  show ?thesis
    unfolding execute_transaction_def Let_def it prod.case assms
    by (intro keeps_rules keeps_on_exec keeps_on_controller keeps_run_transaction keeps_on_chain outcomes_keep) simp
qed

lemma keeps_execute_transactions:
  "height b = h \<Longrightarrow> keeps (\<lambda>s. P (br_chain s)) (execute_transactions env b t its acc)"
  by (induction its arbitrary: acc) (simp_all add: keeps_simple keeps_bind keeps_execute_transaction)

lemma keeps_run_block: "height b = h \<Longrightarrow> keeps (\<lambda>s. P (br_chain s)) (run_block_body env b t r)"
  unfolding run_block_body_def
  by (intro keeps_rules keeps_on_exec keeps_on_controller keeps_execute_transactions keeps_on_chain
      keeps_update_state_hash keeps_reset_manager)

lemma keeps_open_if_first: "keeps P (open_if_first env b t)"
  unfolding open_if_first_def by (intro keeps_rules keeps_execute_init_message)

lemma keeps_execute_block:
  assumes "height b = h"
  shows "keeps P (execute_block env b t r)"
  unfolding execute_block_def
proof (intro keeps_rules keeps_open_if_first)
  show "keeps P (set_block_timestamp b)"
    unfolding set_block_timestamp_def by (intro keeps_rules exec_blind)
  show "keeps P (\<lambda>self. let (r, s) = run_block_body env b t r \<lparr>br_chain = self, br_controller = c,
      br_txn = TransactionTracker_default\<rparr> in (r, br_chain s))" for c
    by (rule keepsI) (auto dest!: keepsD [OF keeps_run_block [OF assms]] split: prod.splits)
qed

lemma keeps_handle_open_chain: "keeps P (handle_open_chain env ch time t pm)"
  unfolding handle_open_chain_def by (intro keeps_rules keeps_execute_init_message)

end

text \<open>
  A property of other parts of the state: it does not depend on the outboxes and channels either.
  Then no step but receiving bundles and removing them from the inboxes can change it.
\<close>

locale mailbox_blind =
  fixes P :: "ChainStateView \<Rightarrow> bool"
  assumes blind: "P s \<Longrightarrow> P (s\<lparr>cs_execution_state := e\<rparr>)" "P s \<Longrightarrow> P (s\<lparr>cs_execution_state_hash := x\<rparr>)"
      "P s \<Longrightarrow> P (s\<lparr>cs_manager := m\<rparr>)" "P s \<Longrightarrow> P (s\<lparr>cs_outboxes := os\<rparr>)"
      "P s \<Longrightarrow> P (s\<lparr>cs_outbox_counters := cs\<rparr>)" "P s \<Longrightarrow> P (s\<lparr>cs_channels := chs\<rparr>)"
begin

lemma blind_update_channel: "P s \<Longrightarrow> P (update_channel name f s)"
  by (simp add: update_channel_def blind)

lemma blind_add_subscribers: "add_subscribers app xs s = (infos, s') \<Longrightarrow> P s \<Longrightarrow> P s'"
proof (induction app xs s arbitrary: infos rule: add_subscribers.induct)
  case (2 app name cid rest s)
  obtain i1 s1 where 1: "add_subscriber (full_name app name) cid s = (i1, s1)" by fastforce
  then have "P s1" using 2(3) by (auto simp: add_subscriber_def Let_def blind_update_channel split: if_splits)
  then show ?case using 2(1,2) 1 by (auto split: prod.splits)
qed simp

lemma blind_broadcast_all: "broadcast_all names h s = (ts, s') \<Longrightarrow> P s \<Longrightarrow> P s'"
  by (induction names h s arbitrary: ts rule: broadcast_all.induct)
    (auto simp: broadcast_on_def blind_update_channel split: prod.splits)

lemma blind_unsubscribe: "P s \<Longrightarrow> P (fold (\<lambda>(name, cid). update_channel (full_name app name) (f cid)) xs s)"
  by (induction xs arbitrary: s) (auto simp: blind_update_channel)

lemma blind_schedule_all: "keeps P (schedule_all infos)"
proof (induction infos rule: schedule_all.induct)
  case (2 target h rest)
  have "keeps P (schedule_in target h)"
    by (rule keepsI) (auto simp: schedule_in_def Let_def blind split: prod.splits sum.splits bool.splits)
  then show ?case unfolding schedule_all.simps using 2 by (intro keeps_rules)
qed (simp add: keeps_simple)

lemma blind_loads: "keeps P (load_outboxes ts)" "keeps P (load_channels names)"
  by (auto simp: keeps_def load_outboxes_def load_channels_def sr_simps blind)

lemma blind_process_subscribes: "keeps P (process_subscribes app xs)"
  unfolding process_subscribes_def
  by (intro keeps_rules blind_loads blind_schedule_all keepsI) (auto dest: blind_add_subscribers split: prod.splits)

lemma blind_process_unsubscribes: "keeps P (process_unsubscribes app xs)"
  unfolding process_unsubscribes_def
  by (intro keeps_rules blind_loads) (simp add: blind_unsubscribe)

lemma blind_process_raw: "keeps P (process_raw_execution_outcome app lift h raw)"
  unfolding process_raw_execution_outcome_def Let_def
  by (intro keeps_rules blind_loads blind_schedule_all blind_process_subscribes blind_process_unsubscribes keepsI)
    (auto dest: blind_broadcast_all split: prod.splits)

lemma blind_process_outcomes: "keeps P (process_execution_outcomes h outs)"
  by (induction h outs rule: process_execution_outcomes.induct)
    (auto intro!: keeps_rules blind_process_raw split: ExecutionOutcome.split)

lemma blind_mark: "keeps P (chain_mark_messages_as_received target h)"
proof (rule keepsI)
  fix s b s'
  assume s: "P s" and r: "chain_mark_messages_as_received target h s = (Inr b, s')"
  have cd: "keeps P (count_down k)" for k
    by (rule keepsI) (auto simp: count_down_def blind split: option.splits if_splits)
  obtain updates outbox where
      m: "mark_messages_as_received (entry_or OutboxStateView_new (cs_outboxes s) target) h = (updates, outbox)"
    by fastforce
  let ?s = "s\<lparr>cs_outboxes := AList.update target outbox (cs_outboxes s)\<rparr>"
  let ?m = "sr_bind (sr_each count_down updates) (\<lambda>_.
        sr_bind (sr_modify (\<lambda>self. if outbox_queue outbox = []
          then self\<lparr>cs_outboxes := AList.delete target (cs_outboxes self)\<rparr> else self)) (\<lambda>_. sr_ok True))"
  have k: "keeps P ?m" by (intro keeps_rules cd) (simp add: blind)
  show "P s'"
  proof (cases "updates = []")
    case True
    then show ?thesis using r m s by (auto simp: chain_mark_messages_as_received_def blind)
  next
    case False
    then have "?m ?s = (Inr b, s')" using r m by (simp add: chain_mark_messages_as_received_def)
    from keepsD [OF k this] show ?thesis using s blind(4) by blast
  qed
qed

end

sublocale mailbox_blind \<subseteq> mailbox_invariant P h for h
  by unfold_locales (simp_all add: blind blind_process_outcomes)

interpretation counters: mailbox_invariant counters_ok h for h
proof unfold_locales
  show "keeps counters_ok (process_execution_outcomes h outs)" for outs
    by (rule counters_ok_process_outcomes)
qed (simp_all add: counters_ok_def)

section \<open>Reachable states\<close>

text \<open>What happens to the chain state of a validator: bundles are received, outgoing messages are
  acknowledged, the bundles of a block are removed from the inboxes and the block is executed, after
  the message that opens the chain when it is the first one.
  Between these steps the code only touches the consensus state, the tip and the log.\<close>

inductive chain_step :: "ChainEnv \<Rightarrow> ChainStateView \<Rightarrow> ChainStateView \<Rightarrow> bool" for env where
  step_receive: "receive_message_bundle env origin bundle t log s = (Inr b, s') \<Longrightarrow> chain_step env s s'"
| step_mark: "chain_mark_messages_as_received target h s = (Inr b, s') \<Longrightarrow> chain_step env s s'"
| step_remove: "remove_bundles_from_inboxes env blk s = (Inr (), s') \<Longrightarrow> chain_step env s s'"
| step_execute: "execute_block env blk t r s = (Inr out, s') \<Longrightarrow> chain_step env s s'"
| step_init: "execute_init_message env mid config time t s = (Inr b, s') \<Longrightarrow> chain_step env s s'"
| step_consensus: "s' = s\<lparr>cs_manager := m, cs_tip_state := tip, cs_confirmed_log := log\<rparr> \<Longrightarrow> chain_step env s s'"

definition fresh_mailboxes :: "ChainStateView \<Rightarrow> bool" where
  "fresh_mailboxes s \<longleftrightarrow> cs_inboxes s = [] \<and> cs_unskippable_bundles s = [] \<and> cs_removed_unskippable_bundles s = {}
     \<and> cs_outboxes s = [] \<and> cs_outbox_counters s = [] \<and> cs_channels s = []"

inductive chain_reachable :: "ChainEnv \<Rightarrow> ChainStateView \<Rightarrow> bool" for env where
  reach_fresh: "fresh_mailboxes s \<Longrightarrow> chain_reachable env s"
| reach_step: "chain_reachable env s \<Longrightarrow> chain_step env s s' \<Longrightarrow> length (cs_outboxes s) < 2 ^ 32
    \<Longrightarrow> chain_reachable env s'"

lemma counters_ok_receive: "keeps counters_ok (receive_message_bundle env origin bundle t log)"
  unfolding receive_message_bundle_def Let_def
proof (intro keeps_rules counters.keeps_handle_open_chain)
  show "keeps counters_ok (add_to_inbox origin bundle t)"
    by (rule keeps_same) (auto simp: add_to_inbox_def Let_def same_outboxes_def split: prod.splits sum.splits if_splits)
qed (auto simp: counters_ok_def)

lemma remove_all_same: "remove_all_from_inbox cid xs s = (Inr r, s') \<Longrightarrow> same_outboxes s s'"
proof (induction cid xs arbitrary: s r rule: remove_all_from_inbox.induct)
  case (2 cid origin mb rest)
  then obtain r1 s1 r2 where 1: "remove_from_inbox cid origin mb s = (Inr r1, s1)"
      "remove_all_from_inbox cid rest s1 = (Inr r2, s')"
    by (auto simp: sr_simps)
  then have "same_outboxes s s1"
    by (auto simp: remove_from_inbox_def Let_def same_outboxes_def split: prod.splits sum.splits)
  then show ?case using 2(1) [OF 1(2)] by (simp add: same_outboxes_def)
qed (simp add: sr_simps same_outboxes_def)

lemma forget_same [simp]: "same_outboxes s (forget_unskippable removed s)"
  by (auto simp: forget_unskippable_def same_outboxes_def Let_def split: prod.split)

lemma counters_ok_remove: "keeps counters_ok (remove_bundles_from_inboxes env blk)"
  unfolding remove_bundles_from_inboxes_def
proof (intro keeps_rules)
  show "keeps counters_ok (remove_all_from_inbox cid xs)" for cid xs
    by (rule keeps_same) (rule remove_all_same)
  show "counters_ok (forget_unskippable removed s)" if "counters_ok s" for removed s
    using that counters_ok_same [OF forget_same] by blast
qed (simp add: counters_ok_def)

lemma counters_ok_step:
  assumes "chain_step env s s'" and "counters_ok s" and "length (cs_outboxes s) < 2 ^ 32"
  shows "counters_ok s'"
  using assms(1)
proof cases
  case (step_mark target h b)
  then show ?thesis using mark_messages_exact [OF assms(2,3), of target h] by auto
next
  case step_consensus
  then show ?thesis using assms(2) by (simp add: counters_ok_def)
qed (use assms(2) in \<open>auto dest: keepsD [OF counters_ok_receive] keepsD [OF counters_ok_remove]
    keepsD [OF counters.keeps_execute_block [OF refl]] keepsD [OF counters.keeps_execute_init_message]\<close>)

lemma reachable_counters_ok: "chain_reachable env s \<Longrightarrow> counters_ok s"
proof (induction rule: chain_reachable.induct)
  case (reach_fresh s)
  then show ?case by (simp add: counters_ok_def fresh_mailboxes_def counter_of_def)
next
  case (reach_step s s')
  then show ?case using counters_ok_step by blast
qed

lemma delivered_exact:
  assumes "counters_ok s" and "length (cs_outboxes s) < 2 ^ 32"
  shows "all_messages_delivered_up_to s h \<longleftrightarrow> (\<forall>t x. in_queue (cs_outboxes s) t x \<longrightarrow> h < x)"
proof -
  have some: "bt_get (cs_outbox_counters s) x \<noteq> None \<longleftrightarrow> queued (cs_outboxes s) x \<noteq> 0" for x
    using assms(1) by (simp add: counters_ok_def counter_of_def)
  have d: "distinct (map fst (cs_outboxes s))" and bt: "bt_ok (cs_outbox_counters s)"
    using assms(1) by (simp_all add: counters_ok_def)
  have iq: "queued (cs_outboxes s) x \<noteq> 0 \<longleftrightarrow> (\<exists>t. in_queue (cs_outboxes s) t x)" for x
  proof
    assume "queued (cs_outboxes s) x \<noteq> 0"
    then obtain t v where "(t, v) \<in> set (cs_outboxes s)" "x \<in> set (outbox_queue v)"
      unfolding queued_pos by blast
    then show "\<exists>t. in_queue (cs_outboxes s) t x"
      using d by (intro exI [of _ t]) (simp add: in_queue_def entry_or_def)
  qed (use in_queue_pos in fastforce)
  show ?thesis
  proof (cases "cs_outbox_counters s")
    case Nil
    then show ?thesis using some iq by (auto simp: all_messages_delivered_up_to_def)
  next
    case (Cons p c)
    obtain k v where p: "p = (k, v)" by (cases p)
    have "\<exists>t. in_queue (cs_outboxes s) t k" using some [of k] iq [of k] by (simp add: Cons p)
    moreover have "k \<le> x" if "in_queue (cs_outboxes s) t x" for t x
      using bt_first_key_least [of k v c x] bt some [of x] iq [of x] that by (auto simp: Cons p)
    ultimately show ?thesis
      by (auto simp: all_messages_delivered_up_to_def Cons p dest: less_le_trans)
  qed
qed

end
