(* ===== verification/Chain_Delivery.thy ===== *)
theory Chain_Delivery
  imports Chain_Outboxes
begin

text \<open>
  Every message of an executed block is queued for its recipients: the outbox of each direct
  recipient, and of each subscriber of a channel the block broadcasts on, holds the height of the
  block.
\<close>

abbreviation outbox_of :: "ChainStateView \<Rightarrow> Target \<Rightarrow> OutboxStateView" where
  "outbox_of s t \<equiv> entry_or OutboxStateView_new (cs_outboxes s) t"

abbreviation channel_of :: "ChainStateView \<Rightarrow> ChannelFullName \<Rightarrow> ChannelStateView" where
  "channel_of s name \<equiv> entry_or ChannelStateView_new (cs_channels s) name"

text \<open>Nothing above height \<open>h\<close> was scheduled, and an outbox that has got past \<open>h\<close> holds it.\<close>

definition scheduled_up_to :: "BlockHeight \<Rightarrow> ChainStateView \<Rightarrow> bool" where
  "scheduled_up_to h s \<longleftrightarrow>
     (\<forall>t. h < next_height_to_schedule (outbox_of s t) \<longrightarrow> in_queue (cs_outboxes s) t h)
     \<and> (\<forall>name. \<forall>x \<in> set (block_heights (channel_of s name)). x \<le> h)"

text \<open>Subscribers of a channel used at height \<open>h\<close> have \<open>h\<close> in their outbox, except for some targets.\<close>

definition subscribers_served :: "BlockHeight \<Rightarrow> Target set \<Rightarrow> ChainStateView \<Rightarrow> bool" where
  "subscribers_served h T s \<longleftrightarrow>
     (\<forall>name cid. h \<in> set (block_heights (channel_of s name)) \<longrightarrow> cid \<in> set (subscribers (channel_of s name))
       \<longrightarrow> in_queue (cs_outboxes s) (Target_channel cid name) h \<or> Target_channel cid name \<in> T)"

text \<open>What was queued or broadcast at height \<open>h\<close> stays so.\<close>

definition later :: "BlockHeight \<Rightarrow> ChainStateView \<Rightarrow> ChainStateView \<Rightarrow> bool" where
  "later h s s' \<longleftrightarrow>
     (\<forall>t. in_queue (cs_outboxes s) t h \<longrightarrow> in_queue (cs_outboxes s') t h)
     \<and> (\<forall>name. h \<in> set (block_heights (channel_of s name)) \<longrightarrow> h \<in> set (block_heights (channel_of s' name)))"

lemma later_refl [simp]: "later h s s"
  by (simp add: later_def)

lemma later_trans: "later h s s1 \<Longrightarrow> later h s1 s2 \<Longrightarrow> later h s s2"
  by (simp add: later_def)

lemma in_queue_load [simp]: "in_queue (load_entries OutboxStateView_new ks m) t h = in_queue m t h"
  by (simp add: in_queue_def)

section \<open>Scheduling\<close>

lemma schedule_in_Inr:
  assumes r: "schedule_in t x s = (Inr b, s')" and sch: "scheduled_up_to h s" and le: "x \<le> h"
  shows "scheduled_up_to h s'" and "later h s s'" and "cs_channels s' = cs_channels s"
    and "x = h \<Longrightarrow> in_queue (cs_outboxes s') t h"
proof -
  obtain v where v: "schedule_message (outbox_of s t) x = (Inr b, v)"
      and s': "cs_outboxes s' = AList.update t v (cs_outboxes s)" "cs_channels s' = cs_channels s"
    using r by (auto simp: schedule_in_def Let_def split: prod.splits sum.splits bool.splits)
  have keep: "h \<in> set (outbox_queue v)" if "in_queue (cs_outboxes s) t h"
    using v that by (auto simp: schedule_message_cases in_queue_def split: if_splits)
  have past: "h \<in> set (outbox_queue v)" if "h < next_height_to_schedule v"
  proof (cases b)
    case False
    then have "v = outbox_of s t" using v by (auto simp: schedule_message_cases split: if_splits)
    then show ?thesis using that sch keep by (simp add: scheduled_up_to_def)
  next
    case True
    then have "v = (outbox_of s t)\<lparr>next_height_to_schedule := x + 1, outbox_queue := outbox_queue (outbox_of s t) @ [x]\<rparr>"
        and "x \<noteq> num_max"
      using v by (auto simp: schedule_message_cases split: if_splits)
    moreover have "x = h" if "h < x + 1"
      using that le succ_le_word [OF \<open>x \<noteq> num_max\<close>, of h] by (auto simp: not_le [symmetric])
    ultimately show ?thesis using \<open>h < next_height_to_schedule v\<close> by simp
  qed
  show "scheduled_up_to h s'" using sch past by (simp add: scheduled_up_to_def s' in_queue_def)
  show "later h s s'" using keep by (simp add: later_def s' in_queue_def)
  show "cs_channels s' = cs_channels s" by (rule s')
  show "in_queue (cs_outboxes s') t h" if "x = h"
  proof (cases b)
    case False
    then have "h < next_height_to_schedule (outbox_of s t)" using v that by (auto simp: schedule_message_cases split: if_splits)
    then show ?thesis using sch \<open>later h s s'\<close> by (simp add: scheduled_up_to_def later_def)
  next
    case True
    then show ?thesis using v that by (auto simp: s' in_queue_def schedule_message_cases split: if_splits)
  qed
qed

lemma schedule_all_Inr:
  assumes "schedule_all xs s = (Inr b, s')" and "scheduled_up_to h s" and "\<forall>(t, x) \<in> set xs. x \<le> h"
  shows "scheduled_up_to h s' \<and> later h s s' \<and> cs_channels s' = cs_channels s
    \<and> (\<forall>t. (t, h) \<in> set xs \<longrightarrow> in_queue (cs_outboxes s') t h)"
  using assms
proof (induction xs arbitrary: s b rule: schedule_all.induct)
  case (2 t x rest)
  obtain b1 s1 b2 where r: "schedule_in t x s = (Inr b1, s1)" "schedule_all rest s1 = (Inr b2, s')"
    using 2(2) by (auto simp: sr_simps)
  have "x \<le> h" using 2(4) by simp
  note s1 = schedule_in_Inr [OF r(1) 2(3) this]
  have "scheduled_up_to h s' \<and> later h s1 s' \<and> cs_channels s' = cs_channels s1
    \<and> (\<forall>t. (t, h) \<in> set rest \<longrightarrow> in_queue (cs_outboxes s') t h)"
    using 2(1) [OF r(2) s1(1)] 2(4) by auto
  then show ?case using s1 later_trans by (auto simp: later_def)
qed (simp add: sr_simps)

lemma subscribers_served_later:
  assumes "subscribers_served h T s" and "later h s s'" and "cs_channels s' = cs_channels s"
    and "\<And>t. t \<in> T \<Longrightarrow> in_queue (cs_outboxes s') t h"
  shows "subscribers_served h {} s'"
  using assms by (auto simp: subscribers_served_def later_def)

lemma load_outboxes_Inr:
  assumes "load_outboxes ts s = (Inr u, s')"
  shows "scheduled_up_to h s' = scheduled_up_to h s" and "later h s s'" and "cs_channels s' = cs_channels s"
    and "subscribers_served h T s' = subscribers_served h T s"
  using assms by (auto simp: load_outboxes_def sr_simps scheduled_up_to_def later_def subscribers_served_def)

lemma load_channels_Inr:
  assumes "load_channels ns s = (Inr u, s')"
  shows "scheduled_up_to h s' = scheduled_up_to h s" and "later h s s'"
    and "subscribers_served h T s' = subscribers_served h T s"
  using assms by (auto simp: load_channels_def sr_simps scheduled_up_to_def later_def subscribers_served_def)

section \<open>Channels\<close>

definition served :: "BlockHeight \<Rightarrow> ChainStateView \<Rightarrow> bool" where
  "served h s \<longleftrightarrow> scheduled_up_to h s \<and> subscribers_served h {} s"

lemma channel_of_update [simp]:
  "channel_of (update_channel name f s) n = (if n = name then f (channel_of s name) else channel_of s n)"
  by (simp add: update_channel_def)

lemma update_subscribers:
  assumes "\<And>c. block_heights (f c) = block_heights c"
  shows "scheduled_up_to h (update_channel name f s) = scheduled_up_to h s" and "later h s (update_channel name f s)"
  using assms by (auto simp: scheduled_up_to_def later_def)

lemma remove_subscriber_served:
  "served h s \<Longrightarrow> served h (update_channel name (\<lambda>c. c\<lparr>subscribers := filter p (subscribers c)\<rparr>) s)"
  by (auto simp: served_def update_subscribers subscribers_served_def)

lemma unsubscribes_Inr:
  assumes "process_unsubscribes app xs s = (Inr u, s')" and "served h s"
  shows "served h s' \<and> later h s s'"
proof -
  have fold: "served h (fold (\<lambda>(name, cid). update_channel (full_name app name)
        (\<lambda>c. c\<lparr>subscribers := filter (\<lambda>x. x \<noteq> cid) (subscribers c)\<rparr>)) xs t)
      \<and> later h t (fold (\<lambda>(name, cid). update_channel (full_name app name)
        (\<lambda>c. c\<lparr>subscribers := filter (\<lambda>x. x \<noteq> cid) (subscribers c)\<rparr>)) xs t)" if "served h t" for t
    using that
  proof (induction xs arbitrary: t)
    case (Cons p xs)
    obtain name cid where p: "p = (name, cid)" by (cases p)
    let ?t = "update_channel (full_name app name) (\<lambda>c. c\<lparr>subscribers := filter (\<lambda>x. x \<noteq> cid) (subscribers c)\<rparr>) t"
    have "served h ?t" using Cons.prems by (rule remove_subscriber_served)
    moreover have "later h t ?t" by (rule update_subscribers) simp
    ultimately show ?case using Cons.IH [of ?t] by (auto simp: p intro: later_trans)
  qed simp
  show ?thesis
  proof (cases "xs = []")
    case True
    then show ?thesis using assms by (simp add: process_unsubscribes_def sr_simps)
  next
    case False
    then obtain s1 where l: "load_channels (map (\<lambda>(name, _). full_name app name) xs) s = (Inr (), s1)"
        and s': "s' = fold (\<lambda>(name, cid). update_channel (full_name app name)
          (\<lambda>c. c\<lparr>subscribers := filter (\<lambda>x. x \<noteq> cid) (subscribers c)\<rparr>)) xs s1"
      using assms(1) by (auto simp: process_unsubscribes_def sr_simps)
    have "served h s1" using assms(2) load_channels_Inr [OF l] by (simp add: served_def)
    then show ?thesis using fold [of s1] load_channels_Inr(2) [OF l] later_trans unfolding s' by blast
  qed
qed

lemma add_subscriber_served:
  assumes "add_subscriber name cid s = (infos, s')" and "scheduled_up_to h s" and "subscribers_served h T s"
  shows "scheduled_up_to h s'" and "later h s s'" and "subscribers_served h (T \<union> {t. (t, h) \<in> set infos}) s'"
    and "\<forall>(t, x) \<in> set infos. x \<le> h"
proof -
  consider (old) "infos = []" "s' = s"
    | (new) "cid \<notin> set (subscribers (channel_of s name))"
      "infos = map (\<lambda>h. (Target_channel cid name, h)) (block_heights (channel_of s name))"
      "s' = update_channel name (\<lambda>c. c\<lparr>subscribers := subscribers c @ [cid]\<rparr>) s"
    using assms(1) by (auto simp: add_subscriber_def Let_def split: if_splits)
  then have all: "scheduled_up_to h s' \<and> later h s s' \<and> subscribers_served h (T \<union> {t. (t, h) \<in> set infos}) s'
      \<and> (\<forall>(t, x) \<in> set infos. x \<le> h)"
  proof cases
    case old
    then show ?thesis using assms(2,3) by simp
  next
    case new
    have "subscribers_served h (T \<union> {t. (t, h) \<in> set infos}) s'"
      using assms(3) unfolding subscribers_served_def new(2,3) by (auto split: if_splits)
    then show ?thesis using assms(2) by (auto simp: new update_subscribers scheduled_up_to_def)
  qed
  then show "scheduled_up_to h s'" "later h s s'" "subscribers_served h (T \<union> {t. (t, h) \<in> set infos}) s'"
    "\<forall>(t, x) \<in> set infos. x \<le> h" by simp_all
qed

lemma add_subscribers_served:
  assumes "add_subscribers app xs s = (infos, s')" and "scheduled_up_to h s" and "subscribers_served h T s"
  shows "scheduled_up_to h s' \<and> later h s s' \<and> subscribers_served h (T \<union> {t. (t, h) \<in> set infos}) s'
    \<and> (\<forall>(t, x) \<in> set infos. x \<le> h)"
  using assms
proof (induction app xs s arbitrary: infos T rule: add_subscribers.induct)
  case (2 app name cid rest s)
  obtain i1 s1 where 1: "add_subscriber (full_name app name) cid s = (i1, s1)" by fastforce
  obtain i2 where 2: "add_subscribers app rest s1 = (i2, s')" and infos: "infos = i1 @ i2"
    using "2.prems"(1) 1 by (auto split: prod.splits)
  note a = add_subscriber_served [OF 1 "2.prems"(2,3)]
  from "2.IH" [OF 1 [symmetric] refl 2 a(1,3)] have
    "scheduled_up_to h s' \<and> later h s1 s' \<and> subscribers_served h (T \<union> {t. (t, h) \<in> set i1} \<union> {t. (t, h) \<in> set i2}) s'
      \<and> (\<forall>(t, x) \<in> set i2. x \<le> h)" .
  moreover have "T \<union> {t. (t, h) \<in> set i1} \<union> {t. (t, h) \<in> set i2} = T \<union> {t. (t, h) \<in> set infos}"
    by (auto simp: infos)
  ultimately show ?case using a(2,4) later_trans by (auto simp: infos)
qed simp

lemma subscribes_Inr:
  assumes "process_subscribes app xs s = (Inr b, s')" and "served h s"
  shows "served h s' \<and> later h s s'"
proof (cases "xs = []")
  case True
  then show ?thesis using assms by (simp add: process_subscribes_def sr_simps)
next
  case False
  then obtain s1 infos s2 s3 where r: "load_channels (map (\<lambda>(name, _). full_name app name) xs) s = (Inr (), s1)"
      "add_subscribers app xs s1 = (infos, s2)" "load_outboxes (remdups (map fst infos)) s2 = (Inr (), s3)"
      "schedule_all infos s3 = (Inr b, s')"
    using assms(1) by (auto simp: process_subscribes_def sr_simps pure_run)
  have 1: "scheduled_up_to h s1" "subscribers_served h {} s1" "later h s s1"
    using load_channels_Inr [OF r(1)] assms(2) by (simp_all add: served_def)
  have 2: "scheduled_up_to h s2" "later h s1 s2" "subscribers_served h {t. (t, h) \<in> set infos} s2"
      "\<forall>(t, x) \<in> set infos. x \<le> h"
    using add_subscribers_served [OF r(2) 1(1,2)] by simp_all
  have 3: "scheduled_up_to h s3" "later h s2 s3" "subscribers_served h {t. (t, h) \<in> set infos} s3"
    using load_outboxes_Inr [OF r(3)] 2 by simp_all
  have 4: "scheduled_up_to h s'" "later h s3 s'" "cs_channels s' = cs_channels s3"
      "\<forall>t. (t, h) \<in> set infos \<longrightarrow> in_queue (cs_outboxes s') t h"
    using schedule_all_Inr [OF r(4) 3(1) 2(4)] by simp_all
  have "subscribers_served h {} s'" using subscribers_served_later [OF 3(3) 4(2,3)] 4(4) by blast
  then show ?thesis using 4(1) 1(3) 2(2) 3(2) 4(2) later_trans unfolding served_def by blast
qed

lemma broadcast_on_served:
  assumes "broadcast_on name h s = (ts, s')" and "scheduled_up_to h s" and "subscribers_served h T s"
  shows "scheduled_up_to h s'" and "later h s s'" and "subscribers_served h (T \<union> set ts) s'"
    and "h \<in> set (block_heights (channel_of s' name))"
  using assms
  by (auto simp: broadcast_on_def scheduled_up_to_def later_def subscribers_served_def split: if_splits) blast

lemma broadcast_all_served:
  assumes "broadcast_all names h s = (ts, s')" and "scheduled_up_to h s" and "subscribers_served h T s"
  shows "scheduled_up_to h s' \<and> later h s s' \<and> subscribers_served h (T \<union> set ts) s'
    \<and> (\<forall>name \<in> set names. h \<in> set (block_heights (channel_of s' name)))"
  using assms
proof (induction names h s arbitrary: ts T rule: broadcast_all.induct)
  case (2 name names h s)
  obtain t1 s1 where 1: "broadcast_on name h s = (t1, s1)" by fastforce
  obtain t2 where 2: "broadcast_all names h s1 = (t2, s')" and ts: "ts = t1 @ t2"
    using "2.prems"(1) 1 by (auto split: prod.splits)
  note a = broadcast_on_served [OF 1 "2.prems"(2,3)]
  from "2.IH" [OF 1 [symmetric] refl 2 a(1,3)] show ?case
    using a(2,4) later_trans by (auto simp: ts Un_assoc later_def)
qed simp

section \<open>Outcomes\<close>

text \<open>The messages are on their way: queued for a recipient, or broadcast on a channel.\<close>

definition on_its_way :: "BlockHeight \<Rightarrow> ChainStateView \<Rightarrow> OutgoingMessage \<Rightarrow> bool" where
  "on_its_way h s m = (case om_destination m of
     Dest_Recipient r \<Rightarrow> in_queue (cs_outboxes s) (Target_chain r) h
   | Dest_Subscribers name \<Rightarrow>
       h \<in> set (block_heights (channel_of s (full_name (Message_application_id (om_message m)) name))))"

lemma on_its_way_later: "on_its_way h s m \<Longrightarrow> later h s s' \<Longrightarrow> on_its_way h s' m"
  by (auto simp: on_its_way_def later_def split: Destination.splits)

lemma process_raw_Inr:
  assumes r: "process_raw_execution_outcome app lift h raw s = (Inr (msgs, evs), s')" and "served h s"
    and lift: "\<And>x. Message_application_id (lift x) = app"
  shows "served h s' \<and> later h s s' \<and> (\<forall>m \<in> set msgs. on_its_way h s' m)"
proof -
  let ?ts = "map Target_chain (recipients_of (eo_messages raw))"
  let ?names = "map (full_name app) (broadcasts_of (eo_messages raw))"
  obtain s1 b2 s2 s3 s4 ts s5 s6 b7 s7 b8 where r:
      "load_outboxes ?ts s = (Inr (), s1)" "schedule_all (map (\<lambda>t. (t, h)) ?ts) s1 = (Inr b2, s2)"
      "process_unsubscribes app (eo_unsubscribe raw) s2 = (Inr (), s3)" "load_channels ?names s3 = (Inr (), s4)"
      "broadcast_all ?names h s4 = (ts, s5)" "load_outboxes ts s5 = (Inr (), s6)"
      "schedule_all (map (\<lambda>t. (t, h)) ts) s6 = (Inr b7, s7)" "process_subscribes app (eo_subscribe raw) s7 = (Inr b8, s')"
      and msgs: "msgs = map (outgoing_message lift raw) (eo_messages raw)"
    using r by (auto simp: process_raw_execution_outcome_def Let_def sr_simps pure_run)
  have 1: "served h s1" "later h s s1" using load_outboxes_Inr [OF r(1)] assms(2) by (simp_all add: served_def)
  have 2: "scheduled_up_to h s2" "later h s1 s2" "cs_channels s2 = cs_channels s1"
      "\<forall>t \<in> set ?ts. in_queue (cs_outboxes s2) t h"
    using schedule_all_Inr [OF r(2)] 1(1) by (auto simp: served_def)
  have "served h s2" using 2(1) subscribers_served_later [OF _ 2(2,3), of "{}"] 1(1) by (simp add: served_def)
  then have 3: "served h s3" "later h s2 s3" using unsubscribes_Inr [OF r(3)] by simp_all
  then have 4: "scheduled_up_to h s4" "subscribers_served h {} s4" "later h s3 s4"
    using load_channels_Inr [OF r(4)] by (simp_all add: served_def)
  have 5: "scheduled_up_to h s5" "later h s4 s5" "subscribers_served h (set ts) s5"
      "\<forall>name \<in> set ?names. h \<in> set (block_heights (channel_of s5 name))"
    using broadcast_all_served [OF r(5) 4(1,2)] by simp_all
  have 6: "scheduled_up_to h s6" "later h s5 s6" "subscribers_served h (set ts) s6"
    using load_outboxes_Inr [OF r(6)] 5 by simp_all
  have 7: "scheduled_up_to h s7" "later h s6 s7" "cs_channels s7 = cs_channels s6"
      "\<forall>t \<in> set ts. in_queue (cs_outboxes s7) t h"
    using schedule_all_Inr [OF r(7) 6(1)] by auto
  have "served h s7" using 7(1,4) subscribers_served_later [OF 6(3) 7(2,3)] by (simp add: served_def)
  then have 8: "served h s'" "later h s7 s'" using subscribes_Inr [OF r(8)] by simp_all
  have 25: "later h s2 s'" "later h s5 s'"
    using 3(2) 4(3) 5(2) 6(2) 7(2) 8(2) later_trans by blast+
  have "on_its_way h s' m" if m: "m \<in> set msgs" for m
  proof -
    obtain x where x: "x \<in> set (eo_messages raw)" "m = outgoing_message lift raw x" using m msgs by auto
    have "Target_chain r \<in> set ?ts" if "ro_destination x = Dest_Recipient r" for r
      using x(1) that by (force simp: recipients_of_def map_filter_def)
    moreover have "full_name app n \<in> set ?names" if "ro_destination x = Dest_Subscribers n" for n
      using x(1) that by (force simp: broadcasts_of_def map_filter_def)
    ultimately show ?thesis
      using 2(4) 5(4) 25 by (auto simp: on_its_way_def x(2) outgoing_message_def lift later_def split: Destination.split)
  qed
  then show ?thesis using 8 25 1(2) 2(2) later_trans by blast
qed

lemma process_outcomes_Inr:
  assumes "process_execution_outcomes h outs s = (Inr (msgs, evs), s')" and "served h s"
  shows "served h s' \<and> later h s s' \<and> (\<forall>m \<in> set msgs. on_its_way h s' m)"
  using assms
proof (induction h outs arbitrary: s msgs evs rule: process_execution_outcomes.induct)
  case (2 h out outs)
  obtain m1 e1 s1 m2 e2 where r: "(case out of System_outcome raw \<Rightarrow> process_raw_execution_outcome App_System System_msg h raw
       | User_outcome app raw \<Rightarrow> process_raw_execution_outcome (App_User app) (User_msg app) h raw) s = (Inr (m1, e1), s1)"
      "process_execution_outcomes h outs s1 = (Inr (m2, e2), s')" and msgs: "msgs = m1 @ m2"
    using 2(2) by (auto simp: sr_simps split: prod.splits)
  have 1: "served h s1 \<and> later h s s1 \<and> (\<forall>m \<in> set m1. on_its_way h s1 m)"
    using r(1) 2(3) by (cases out) (auto simp: Message_application_id_def dest!: process_raw_Inr)
  then have "served h s' \<and> later h s1 s' \<and> (\<forall>m \<in> set m2. on_its_way h s' m)"
    using 2(1) [OF r(2)] by blast
  then show ?case using 1 on_its_way_later later_trans by (auto simp: msgs)
qed (simp add: sr_simps)

section \<open>Blocks\<close>

text \<open>The messages recorded so far, as an invariant of the rest of the block.\<close>

definition delivering :: "BlockHeight \<Rightarrow> OutgoingMessage list \<Rightarrow> ChainStateView \<Rightarrow> bool" where
  "delivering h ms s \<longleftrightarrow> served h s \<and> (\<forall>m \<in> set ms. on_its_way h s m)"

interpretation deliver: mailbox_invariant "delivering h ms" h for h ms
proof unfold_locales
  show "keeps (delivering h ms) (process_execution_outcomes h outs)" for outs
    by (rule keepsI) (auto simp: delivering_def intro: on_its_way_later dest: process_outcomes_Inr)
qed (auto simp: delivering_def served_def scheduled_up_to_def subscribers_served_def on_its_way_def
    cong: Destination.case_cong)

lemma execute_transaction_delivers:
  assumes r: "execute_transaction env b t it acc s = (Inr acc', s')" and h: "height b = h"
    and d: "delivering h (concat (ba_messages acc)) (br_chain s)"
  shows "delivering h (concat (ba_messages acc')) (br_chain s')"
proof -
  obtain i txn where it: "it = (i, txn)" by (cases it)
  let ?P = "\<lambda>ms s. delivering h ms (br_chain s)"
  from r [unfolded it] show ?thesis
  proof (rule execute_transaction_Inr, unfold h)
    fix resp repl s1 s2 os rs n msgs evs s3 s4 s5 s6 s7
    assume r1: "run_transaction env b t i txn (s\<lparr>br_txn := TransactionTracker_new (ba_next_message_index acc) resp\<rparr>) = (Inr (), s1)"
      and r2: "on_exec (transaction_context i txn) update_execution_outcomes_with_app_registrations s1 = (Inr (), s2)"
      and r3: "on_chain (process_execution_outcomes h os) s2 = (Inr (msgs, evs), s3)"
      and r4: "(if pays_for_messages txn then sr_each (\<lambda>m. on_exec (transaction_context i txn)
        (with_state (track_message sources_holder (om_message m)))) msgs else sr_ok ()) s3 = (Inr (), s4)"
      and r5: "on_controller (transaction_context i txn) (track_executed_block_size_of (ce_size_results env) (rs, msgs, evs)) s4
        = (Inr (), s5)"
      and r6: "on_controller (transaction_context i txn)
        (track_executed_block_size_sequence_extension (length (ba_oracle_responses acc)) 1) s5 = (Inr (), s6)"
      and r7: "on_controller (transaction_context i txn)
        (track_executed_block_size_sequence_extension (length (ba_messages acc)) 1) s6 = (Inr (), s7)"
      and r8: "on_controller (transaction_context i txn)
        (track_executed_block_size_sequence_extension (length (ba_events acc)) 1) s7 = (Inr (), s')"
      and acc: "acc' = acc\<lparr>ba_replaying := repl, ba_next_message_index := n,
        ba_oracle_responses := ba_oracle_responses acc @ [rs], ba_messages := ba_messages acc @ [msgs],
        ba_events := ba_events acc @ [evs]\<rparr>"
  let ?ms = "concat (ba_messages acc)"
  have "?P ?ms (s\<lparr>br_txn := TransactionTracker_new (ba_next_message_index acc) resp\<rparr>)" using d by simp
  from keepsD [OF deliver.keeps_run_transaction r1 this] have "?P ?ms s1" .
  from keepsD [OF deliver.keeps_on_exec r2 this] have d2: "?P ?ms s2" .
  have run: "process_execution_outcomes h os (br_chain s2) = (Inr (msgs, evs), br_chain s3)"
    using r3 by (auto simp: on_chain_Inr)
  have "served h (br_chain s3)" "later h (br_chain s2) (br_chain s3)" "\<forall>m \<in> set msgs. on_its_way h (br_chain s3) m"
    using process_outcomes_Inr [OF run] d2 by (auto simp: delivering_def)
  then have d3: "?P (?ms @ msgs) s3"
    using d2 on_its_way_later [of h "br_chain s2" _ "br_chain s3"] by (auto simp: delivering_def)
  have "keeps (?P (?ms @ msgs)) (if pays_for_messages txn then sr_each (\<lambda>m. on_exec (transaction_context i txn)
      (with_state (track_message sources_holder (om_message m)))) msgs else sr_ok ())"
    by (intro keeps_rules deliver.keeps_on_exec)
  from keepsD [OF this r4 d3] have d4: "?P (?ms @ msgs) s4" .
  have "?P (?ms @ msgs) s'"
    by (rule keepsD [OF deliver.keeps_on_controller r8 keepsD [OF deliver.keeps_on_controller r7
          keepsD [OF deliver.keeps_on_controller r6 keepsD [OF deliver.keeps_on_controller r5 d4]]]])
  then show ?thesis by (simp add: acc)
  qed
qed

lemma execute_transactions_deliver:
  assumes "execute_transactions env b t its acc s = (Inr acc', s')" and "height b = h"
    and "delivering h (concat (ba_messages acc)) (br_chain s)"
  shows "delivering h (concat (ba_messages acc')) (br_chain s')"
  using assms
proof (induction its arbitrary: acc s)
  case (Cons it its)
  then obtain acc1 s1 where "execute_transaction env b t it acc s = (Inr acc1, s1)"
      "execute_transactions env b t its acc1 s1 = (Inr acc', s')"
    by (auto simp: sr_simps)
  then show ?case using execute_transaction_delivers Cons.prems(2,3) Cons.IH by blast
qed (simp add: sr_simps)

text \<open>Before the block: nothing was scheduled at its height or above.\<close>

definition heights_below :: "BlockHeight \<Rightarrow> ChainStateView \<Rightarrow> bool" where
  "heights_below h s \<longleftrightarrow>
     (\<forall>t. next_height_to_schedule (outbox_of s t) \<le> h) \<and> (\<forall>name. \<forall>x \<in> set (block_heights (channel_of s name)). x < h)"

lemma heights_below_delivering: "heights_below h s \<Longrightarrow> delivering h [] s"
  by (auto simp: heights_below_def delivering_def served_def scheduled_up_to_def subscribers_served_def
      not_le [symmetric] order_less_imp_le)

lemma run_block_delivers:
  assumes r: "run_block_body env b t repl s = (Inr out, s')" and d: "delivering (height b) [] (br_chain s)"
  shows "delivering (height b) (concat (messages out)) (br_chain s')"
  using r
proof (rule run_block_body_Inr)
  let ?P = "\<lambda>s. delivering (height b) (concat (messages out)) (br_chain s)"
  fix x1 acc x2 x3 x4 hash' k
  assume b1: "on_controller Ctx_Block (track_block_header b) s = (Inr (), x1)"
    and b2: "execute_transactions env b t (transactions b) (BlockAcc_new repl) x1 = (Inr acc, x2)"
    and b3: "(if chain_is_closed (br_chain x2) then sr_ok () else on_exec Ctx_Block (with_state (track_block sources_holder))) x2
      = (Inr (), x3)"
    and b4: "on_chain (update_state_hash env) x3 = (Inr hash', x4)"
    and b5: "on_chain (reset_manager env k t) x4 = (Inr (), s')"
    and out: "out = \<lparr>messages = ba_messages acc, state_hash = hash', oracle_responses = ba_oracle_responses acc,
       events = ba_events acc\<rparr>"
  have "delivering (height b) [] (br_chain x1)"
    using d by (intro keepsD [OF deliver.keeps_on_controller b1])
  then have x2: "?P x2"
    using execute_transactions_deliver [OF b2 refl] by (simp add: BlockAcc_new_def out)
  have "keeps ?P (if chain_is_closed (br_chain x2) then sr_ok ()
      else on_exec Ctx_Block (with_state (track_block sources_holder)))"
    by (intro keeps_rules deliver.keeps_on_exec)
  from keepsD [OF this b3 x2] have "?P x3" .
  from keepsD [OF deliver.keeps_on_chain [OF deliver.keeps_update_state_hash] b4 this] have "?P x4" .
  from keepsD [OF deliver.keeps_on_chain [OF deliver.keeps_reset_manager] b5 this] show "?P s'" .
qed

lemma execute_block_delivers:
  assumes r: "execute_block env b t repl s = (Inr out, s')" and below: "heights_below (height b) s"
  shows "delivering (height b) (concat (messages out)) s'"
  using r
proof (rule execute_block_Inr)
  fix s1 s2 e committee br
  assume r1: "open_if_first env b t s = (Inr (), s1)" and r2: "set_block_timestamp b s1 = (Inr (), s2)"
    and r3: "run_block_body env b t repl \<lparr>br_chain = s2,
       br_controller = ResourceController_new (policy committee) (authenticated_signer b),
       br_txn = TransactionTracker_default\<rparr> = (Inr out, br)" and s': "s' = br_chain br"
  have "delivering (height b) [] s1"
    by (rule keepsD [OF deliver.keeps_open_if_first r1 heights_below_delivering [OF below]])
  then have "delivering (height b) [] s2"
    using r2 by (auto simp: set_block_timestamp_def run_simps intro: deliver.exec_blind)
  then show ?thesis using run_block_delivers [OF r3] by (simp add: s')
qed

end
