(* ===== verification/Chain_Inboxes.thy ===== *)
theory Chain_Inboxes
  imports Chain_Outboxes
begin

text \<open>
  The queue of unskippable bundles. In every reachable state its entries, minus those marked as
  removed, are exactly the unskippable bundles that wait in the inboxes, and its front is one of
  them: the time it was seen tells how long the chain has been ignoring a message.
\<close>

abbreviation inbox_at :: "ChainStateView \<Rightarrow> Origin \<Rightarrow> InboxStateView" where
  "inbox_at s origin \<equiv> entry_or InboxStateView_new (cs_inboxes s) origin"

section \<open>One inbox\<close>

definition added_inv :: "InboxStateView \<Rightarrow> bool" where
  "added_inv i \<longleftrightarrow> sorted_wrt (\<lambda>a b. Cursor_from a < Cursor_from b) (added_bundles i)
     \<and> (\<forall>b \<in> set (added_bundles i). Cursor_from b < next_cursor_to_add i)"

lemma added_inv_new [simp]: "added_inv InboxStateView_new" "added_bundles InboxStateView_new = []"
  by (simp_all add: added_inv_def InboxStateView_new_def)

lemma Cursor_try_add_one_less: "Cursor_try_add_one c = Inr c' \<Longrightarrow> c < c'"
  by (cases c) (auto simp: Cursor_try_add_one_def result_simps checked_add_def less_Cursor_def
      word_less_nat_alt unat_word_ariths split: if_splits)

lemma finish_Inr:
  "finish_add c n i = (Inr new, i') \<longleftrightarrow>
     new = n \<and> (\<exists>c'. Cursor_try_add_one c = Inr c' \<and> i' = i\<lparr>next_cursor_to_add := c'\<rparr>)"
  "finish_remove c n i = (Inr new, i') \<longleftrightarrow>
     new = n \<and> (\<exists>c'. Cursor_try_add_one c = Inr c' \<and> i' = i\<lparr>next_cursor_to_remove := c'\<rparr>)"
  by (auto simp: finish_add_def finish_remove_def split: sum.splits)

lemma nested_if_Inr:
  assumes "(if A then (if B then (Inl e, x) else f) else (if C then (Inl e', y) else g)) = (Inr new, z)"
  shows "(A \<longrightarrow> f = (Inr new, z)) \<and> (\<not> A \<longrightarrow> g = (Inr new, z))"
  using assms by (auto split: if_splits)

lemma add_bundle_Inr:
  assumes r: "add_bundle i b = (Inr new, i')" and inv: "added_inv i"
  shows "added_inv i'" and "added_bundles i' = (if new then added_bundles i @ [b] else added_bundles i)"
    and "next_cursor_to_add i \<le> Cursor_from b" and "Cursor_from b < next_cursor_to_add i'"
proof -
  have le: "\<not> Cursor_from b < next_cursor_to_add i"
  proof
    assume "Cursor_from b < next_cursor_to_add i"
    then show False using r by (simp add: add_bundle_def)
  qed
  obtain i1 where fin: "finish_add (Cursor_from b) new i1 = (Inr new, i')"
      and i1: "added_bundles i1 = (if new then added_bundles i @ [b] else added_bundles i)"
  proof (cases "removed_bundles i")
    case Nil
    then have f: "finish_add (Cursor_from b) True (i\<lparr>added_bundles := added_bundles i @ [b]\<rparr>) = (Inr new, i')"
      using r le by (simp add: add_bundle_def)
    then have "new" by (simp add: finish_Inr)
    then show ?thesis using f that by simp
  next
    case (Cons p rest)
    have f: "finish_add (Cursor_from b) False (if Cursor_from p = Cursor_from b then i\<lparr>removed_bundles := rest\<rparr> else i)
        = (Inr new, i')"
      using nested_if_Inr [OF r [unfolded add_bundle_def Let_def Cons list.case if_not_P [OF le]]] by presburger
    then have "\<not> new" by (simp add: finish_Inr)
    then show ?thesis using f that by simp
  qed
  then obtain c where c: "Cursor_try_add_one (Cursor_from b) = Inr c" and nx: "next_cursor_to_add i' = c"
      and ab: "added_bundles i' = (if new then added_bundles i @ [b] else added_bundles i)"
    unfolding finish_Inr by auto
  have lt: "Cursor_from b < c" by (rule Cursor_try_add_one_less [OF c])
  have 1: "Cursor_from x < Cursor_from b" if "x \<in> set (added_bundles i)" for x
  proof -
    have "Cursor_from x < next_cursor_to_add i" using inv that by (simp add: added_inv_def)
    then show ?thesis using le by simp
  qed
  have 2: "Cursor_from x < c" if "x \<in> set (added_bundles i)" for x
    by (rule less_trans [OF 1 [OF that] lt])
  show "added_inv i'"
    using inv lt 1 2 by (auto simp: added_inv_def ab nx sorted_wrt_append)
  show "added_bundles i' = (if new then added_bundles i @ [b] else added_bundles i)" by (rule ab)
  show "next_cursor_to_add i \<le> Cursor_from b" "Cursor_from b < next_cursor_to_add i'" using le lt nx by simp_all
qed

text \<open>Discarding lower bundles removes skippable ones only.\<close>

lemma discard_lower_None:
  "discard_lower c q = (None, rest) \<Longrightarrow> \<exists>pre. q = pre @ rest \<and> (\<forall>b \<in> set pre. is_skippable b)"
proof (induction c q rule: discard_lower.induct)
  case (2 c b q)
  show ?case
  proof (cases "c \<le> Cursor_from b")
    case True
    then show ?thesis using 2 by auto
  next
    case False
    then obtain pre where "q = pre @ rest" "\<forall>x \<in> set pre. is_skippable x" "is_skippable b"
      using 2 by (auto split: if_splits)
    then show ?thesis by (intro exI [of _ "b # pre"]) simp
  qed
qed simp

definition unskippable_in :: "InboxStateView \<Rightarrow> MessageBundle set" where
  "unskippable_in i = {b \<in> set (added_bundles i). \<not> is_skippable b}"

lemma remove_bundle_Inr:
  assumes r: "remove_bundle i b = (Inr present, i')" and inv: "added_inv i"
  shows "added_inv i'" and "next_cursor_to_add i' = next_cursor_to_add i"
    and "unskippable_in i' = unskippable_in i - (if present \<and> \<not> is_skippable b then {b} else {})"
    and "present \<Longrightarrow> \<not> is_skippable b \<Longrightarrow> b \<in> unskippable_in i"
proof -
  obtain rest where d: "discard_lower (Cursor_from b) (added_bundles i) = (None, rest)"
      and i': "next_cursor_to_add i' = next_cursor_to_add i" "added_bundles i' = (if present then tl rest else [])"
        "present \<Longrightarrow> rest \<noteq> [] \<and> hd rest = b" "\<not> present \<Longrightarrow> rest = []"
    using r by (cases "discard_lower (Cursor_from b) (added_bundles i)")
      (auto simp: remove_bundle_def finish_Inr Let_def split: if_splits option.splits list.splits)
  obtain pre where pre: "added_bundles i = pre @ rest" "\<forall>x \<in> set pre. is_skippable x"
    using discard_lower_None [OF d] by blast
  have dist: "b \<notin> set (tl rest)" if "present"
    using inv i'(3) [OF that] by (cases rest) (auto simp: added_inv_def pre(1) sorted_wrt_append)
  show "added_inv i'"
    using inv i' by (cases rest) (auto simp: added_inv_def pre(1) sorted_wrt_append)
  show "next_cursor_to_add i' = next_cursor_to_add i" by (rule i')
  show "unskippable_in i' = unskippable_in i - (if present \<and> \<not> is_skippable b then {b} else {})"
    using pre(2) i' dist by (cases present; cases rest) (auto simp: unskippable_in_def pre(1))
  show "b \<in> unskippable_in i" if "present" "\<not> is_skippable b"
    using i'(3) [OF that(1)] that(2) by (cases rest) (auto simp: unskippable_in_def pre(1))
qed

section \<open>All inboxes and the queue\<close>

definition waiting_unskippable :: "ChainStateView \<Rightarrow> BundleInInbox set" where
  "waiting_unskippable s =
     {e. \<exists>b \<in> unskippable_in (inbox_at s (bi_origin e)). e = BundleInInbox_new (bi_origin e) b}"

abbreviation queue_entries :: "ChainStateView \<Rightarrow> BundleInInbox list" where
  "queue_entries s \<equiv> map ts_entry (cs_unskippable_bundles s)"

definition inboxes_inv :: "ChainStateView \<Rightarrow> bool" where
  "inboxes_inv s \<longleftrightarrow> (\<forall>origin. added_inv (inbox_at s origin))
     \<and> (\<forall>e \<in> set (queue_entries s). bi_cursor e < next_cursor_to_add (inbox_at s (bi_origin e)))"

definition queue_inv :: "BundleInInbox set \<Rightarrow> TimestampedBundleInInbox list \<Rightarrow> BundleInInbox set \<Rightarrow> bool" where
  "queue_inv W queue removed \<longleftrightarrow> distinct (map ts_entry queue) \<and> removed \<subseteq> ts_entry ` set queue
     \<and> ts_entry ` set queue - removed = W \<and> (queue \<noteq> [] \<longrightarrow> ts_entry (hd queue) \<notin> removed)"

definition unskippable_ok :: "ChainStateView \<Rightarrow> bool" where
  "unskippable_ok s \<longleftrightarrow> inboxes_inv s
     \<and> queue_inv (waiting_unskippable s) (cs_unskippable_bundles s) (cs_removed_unskippable_bundles s)"

lemma waiting_update:
  "waiting_unskippable (s\<lparr>cs_inboxes := AList.update origin i (cs_inboxes s)\<rparr>) =
     {e \<in> waiting_unskippable s. bi_origin e \<noteq> origin} \<union> BundleInInbox_new origin ` unskippable_in i"
  by (auto simp: waiting_unskippable_def BundleInInbox_new_def image_iff)

lemma waiting_origin:
  "{e \<in> waiting_unskippable s. bi_origin e = origin} = BundleInInbox_new origin ` unskippable_in (inbox_at s origin)"
  by (auto simp: waiting_unskippable_def BundleInInbox_new_def)

lemma unskippable_ok_add: "keeps unskippable_ok (add_to_inbox origin b t)"
proof (rule keepsI)
  fix s x s'
  assume ok: "unskippable_ok s" and r: "add_to_inbox origin b t s = (Inr x, s')"
  obtain new i where a: "add_bundle (inbox_at s origin) b = (Inr new, i)"
      and ib: "cs_inboxes s' = AList.update origin i (cs_inboxes s)"
      and q: "cs_unskippable_bundles s' = cs_unskippable_bundles s @ (if new \<and> \<not> is_skippable b
          then [\<lparr>ts_entry = BundleInInbox_new origin b, ts_seen = t\<rparr>] else [])"
      and rm: "cs_removed_unskippable_bundles s' = cs_removed_unskippable_bundles s"
    using r by (auto simp: add_to_inbox_def Let_def split: prod.splits sum.splits if_splits)
  have inv: "added_inv (inbox_at s origin)" using ok by (simp add: unskippable_ok_def inboxes_inv_def)
  note i = add_bundle_Inr [OF a inv]
  let ?e = "BundleInInbox_new origin b"
  have un: "unskippable_in i = unskippable_in (inbox_at s origin) \<union> (if new \<and> \<not> is_skippable b then {b} else {})"
    by (auto simp: unskippable_in_def i(2))
  have "waiting_unskippable s' = waiting_unskippable (s\<lparr>cs_inboxes := AList.update origin i (cs_inboxes s)\<rparr>)"
    by (simp add: waiting_unskippable_def ib)
  also have "\<dots> = waiting_unskippable s \<union> (if new \<and> \<not> is_skippable b then {?e} else {})"
    unfolding waiting_update un using waiting_origin [of s origin] by auto
  finally have w: "waiting_unskippable s' = waiting_unskippable s \<union> (if new \<and> \<not> is_skippable b then {?e} else {})" .
  have grow: "next_cursor_to_add (inbox_at s origin) < next_cursor_to_add i" using i(3,4) by simp
  have cur: "\<forall>e \<in> set (queue_entries s). bi_cursor e < next_cursor_to_add (inbox_at s (bi_origin e))"
    using ok by (simp add: unskippable_ok_def inboxes_inv_def)
  have fresh: "?e \<notin> ts_entry ` set (cs_unskippable_bundles s)"
  proof
    assume "?e \<in> ts_entry ` set (cs_unskippable_bundles s)"
    then have "bi_cursor ?e < next_cursor_to_add (inbox_at s (bi_origin ?e))" using cur by force
    then show False using i(3) by (simp add: BundleInInbox_new_def)
  qed
  have "bi_cursor e < next_cursor_to_add (inbox_at s' (bi_origin e))" if "e \<in> set (queue_entries s')" for e
  proof (cases "e = ?e")
    case True
    then show ?thesis using i(4) by (simp add: ib BundleInInbox_new_def)
  next
    case False
    then have "e \<in> set (queue_entries s)" using that by (auto simp: q split: if_splits)
    then show ?thesis using cur grow by (force simp: ib intro: less_trans)
  qed
  then have "inboxes_inv s'" using ok i(1) by (simp add: unskippable_ok_def inboxes_inv_def ib)
  moreover have "queue_inv (waiting_unskippable s') (cs_unskippable_bundles s') (cs_removed_unskippable_bundles s')"
  proof (cases "new \<and> \<not> is_skippable b")
    case True
    then show ?thesis
      using ok fresh unfolding w q rm
      by (cases "cs_unskippable_bundles s") (auto simp: unskippable_ok_def queue_inv_def)
  next
    case False
    then show ?thesis using ok unfolding w q rm by (auto simp: unskippable_ok_def)
  qed
  ultimately show "unskippable_ok s'" by (simp add: unskippable_ok_def)
qed

lemma sorted_cursor_inj:
  "sorted_wrt (\<lambda>a b. Cursor_from a < Cursor_from b) xs \<Longrightarrow> a \<in> set xs \<Longrightarrow> b \<in> set xs
     \<Longrightarrow> Cursor_from a = Cursor_from b \<Longrightarrow> a = b"
  by (induction xs) auto

text \<open>Removing bundles takes them out of the waiting ones.\<close>

lemma remove_from_inbox_Inr:
  assumes r: "remove_from_inbox cid origin b s = (Inr R, s')" and ok: "inboxes_inv s"
  shows "inboxes_inv s'" and "waiting_unskippable s' = waiting_unskippable s - R" and "R \<subseteq> waiting_unskippable s"
    and "cs_unskippable_bundles s' = cs_unskippable_bundles s"
    and "cs_removed_unskippable_bundles s' = cs_removed_unskippable_bundles s"
proof -
  obtain present i where a: "remove_bundle (inbox_at s origin) b = (Inr present, i)"
      and ib: "cs_inboxes s' = AList.update origin i (cs_inboxes s)"
      and R: "R = (if present \<and> \<not> is_skippable b then {BundleInInbox_new origin b} else {})"
      and q: "cs_unskippable_bundles s' = cs_unskippable_bundles s"
      and rm: "cs_removed_unskippable_bundles s' = cs_removed_unskippable_bundles s"
    using r by (auto simp: remove_from_inbox_def Let_def split: prod.splits sum.splits)
  have inv: "added_inv (inbox_at s origin)" using ok by (simp add: inboxes_inv_def)
  note i = remove_bundle_Inr [OF a inv]
  show "inboxes_inv s'" using ok i(1,2) by (auto simp: inboxes_inv_def ib q)
  have inj: "inj_on (BundleInInbox_new origin) (unskippable_in (inbox_at s origin))"
    using inv sorted_cursor_inj [of "added_bundles (inbox_at s origin)"]
    by (auto simp: inj_on_def BundleInInbox_new_def unskippable_in_def added_inv_def)
  have img: "BundleInInbox_new origin ` unskippable_in i = {e \<in> waiting_unskippable s. bi_origin e = origin} - R"
  proof -
    have "BundleInInbox_new origin ` unskippable_in i = BundleInInbox_new origin ` unskippable_in (inbox_at s origin)
        - BundleInInbox_new origin ` (if present \<and> \<not> is_skippable b then {b} else {})"
      unfolding i(3) by (rule inj_on_image_set_diff [OF inj]) (use i(4) in auto)
    then show ?thesis unfolding waiting_origin R by simp
  qed
  have "waiting_unskippable s' = waiting_unskippable (s\<lparr>cs_inboxes := AList.update origin i (cs_inboxes s)\<rparr>)"
    by (simp add: waiting_unskippable_def ib)
  also have "\<dots> = waiting_unskippable s - R"
    unfolding waiting_update img by (auto simp: R BundleInInbox_new_def)
  finally show "waiting_unskippable s' = waiting_unskippable s - R" .
  show "R \<subseteq> waiting_unskippable s" using waiting_origin [of s origin] i(4) by (auto simp: R)
  show "cs_unskippable_bundles s' = cs_unskippable_bundles s"
    "cs_removed_unskippable_bundles s' = cs_removed_unskippable_bundles s" by (rule q rm)+
qed

lemma remove_all_from_inbox_Inr:
  assumes "remove_all_from_inbox cid xs s = (Inr R, s')" and "inboxes_inv s"
  shows "inboxes_inv s' \<and> waiting_unskippable s' = waiting_unskippable s - R \<and> R \<subseteq> waiting_unskippable s
    \<and> cs_unskippable_bundles s' = cs_unskippable_bundles s
    \<and> cs_removed_unskippable_bundles s' = cs_removed_unskippable_bundles s"
  using assms
proof (induction cid xs arbitrary: s R rule: remove_all_from_inbox.induct)
  case (2 cid origin mb rest)
  then obtain r1 s1 r2 where 1: "remove_from_inbox cid origin mb s = (Inr r1, s1)"
      and 2: "remove_all_from_inbox cid rest s1 = (Inr r2, s')" and R: "R = r1 \<union> r2"
    by (auto simp: sr_simps)
  note r1 = remove_from_inbox_Inr [OF 1 \<open>inboxes_inv s\<close>]
  show ?case using "2.IH" [OF 2 r1(1)] r1 R by auto
qed (simp add: sr_simps)

text \<open>Forgetting the removed bundles restores the queue.\<close>

lemma drop_removed_spec:
  assumes "drop_removed q R E = (q', R', E')" and "distinct (map ts_entry q)" and "R \<inter> E = {}"
  shows "\<exists>d. q = d @ q' \<and> ts_entry ` set d \<subseteq> R \<union> E \<and> R' \<union> E' = R \<union> E - ts_entry ` set d
    \<and> (q' \<noteq> [] \<longrightarrow> ts_entry (hd q') \<notin> R' \<union> E')"
  using assms
proof (induction q R E rule: drop_removed.induct)
  case (2 e q R E)
  have dist: "distinct (map ts_entry q)" and ne: "ts_entry e \<notin> ts_entry ` set q" using 2(4) by auto
  have "\<exists>d. q = d @ q' \<and> ts_entry ` set d \<subseteq> R \<union> E - {ts_entry e}
      \<and> R' \<union> E' = R \<union> E - {ts_entry e} - ts_entry ` set d \<and> (q' \<noteq> [] \<longrightarrow> ts_entry (hd q') \<notin> R' \<union> E')"
    if "ts_entry e \<in> R \<union> E"
  proof (cases "ts_entry e \<in> R")
    case True
    have s: "R \<union> E - {ts_entry e} = R - {ts_entry e} \<union> E" "(R - {ts_entry e}) \<inter> E = {}"
      using True 2(5) by auto
    show ?thesis unfolding s(1) by (rule 2(1) [OF True _ dist s(2)]) (use 2(3) True in simp)
  next
    case False
    have s: "R \<union> E - {ts_entry e} = R \<union> (E - {ts_entry e})" "R \<inter> (E - {ts_entry e}) = {}"
      using False 2(5) by auto
    show ?thesis unfolding s(1) by (rule 2(2) [OF False _ _ dist s(2)]) (use 2(3) False that in auto)
  qed
  then obtain d where d: "ts_entry e \<in> R \<union> E \<Longrightarrow> q = d @ q' \<and> ts_entry ` set d \<subseteq> R \<union> E - {ts_entry e}
      \<and> R' \<union> E' = R \<union> E - {ts_entry e} - ts_entry ` set d \<and> (q' \<noteq> [] \<longrightarrow> ts_entry (hd q') \<notin> R' \<union> E')"
    by blast
  show ?case
  proof (cases "ts_entry e \<in> R \<union> E")
    case True
    show ?thesis by (rule exI [of _ "e # d"]) (use d [OF True] True in auto)
  next
    case False
    then show ?thesis using 2(3) by (intro exI [of _ "[]"]) auto
  qed
qed auto

lemma queue_inv_drop:
  assumes q: "queue_inv W queue E" and R: "R \<subseteq> W"
    and d: "queue = d @ queue'" "ts_entry ` set d \<subseteq> R \<union> E" "E' = R \<union> E - ts_entry ` set d"
      "queue' \<noteq> [] \<longrightarrow> ts_entry (hd queue') \<notin> E'"
  shows "queue_inv (W - R) queue' E'"
proof -
  have dist: "distinct (map ts_entry d @ map ts_entry queue')" and E: "E \<subseteq> ts_entry ` set queue"
      and W: "ts_entry ` set queue - E = W"
    using q unfolding queue_inv_def d(1) by simp_all
  have "ts_entry ` set d \<inter> ts_entry ` set queue' = {}" using dist by (metis distinct_append set_map)
  then show ?thesis
    using dist E W R d(2,4) unfolding queue_inv_def d(3) unfolding d(1) set_append image_Un by auto
qed

lemma forget_unskippable_inv:
  assumes q: "queue_inv W (cs_unskippable_bundles s) (cs_removed_unskippable_bundles s)" and R: "R \<subseteq> W"
  shows "queue_inv (W - R) (cs_unskippable_bundles (forget_unskippable R s))
    (cs_removed_unskippable_bundles (forget_unskippable R s))"
proof (cases "R = {} \<or> cs_unskippable_bundles s = []")
  case True
  then show ?thesis using q R by (auto simp: forget_unskippable_def queue_inv_def)
next
  case False
  then obtain e queue where c: "cs_unskippable_bundles s = e # queue" by (cases "cs_unskippable_bundles s") auto
  let ?E = "cs_removed_unskippable_bundles s"
  have dis: "R \<inter> ?E = {}" "ts_entry e \<notin> ?E" and dist: "distinct (map ts_entry (e # queue))"
    using q R by (auto simp: queue_inv_def c)
  show ?thesis
  proof (cases "ts_entry e \<in> R")
    case True
    obtain queue' R' E' where dr: "drop_removed queue (R - {ts_entry e}) ?E = (queue', R', E')"
      by (cases "drop_removed queue (R - {ts_entry e}) ?E") auto
    obtain d where d: "queue = d @ queue'" "ts_entry ` set d \<subseteq> (R - {ts_entry e}) \<union> ?E"
        "R' \<union> E' = (R - {ts_entry e}) \<union> ?E - ts_entry ` set d" "queue' \<noteq> [] \<longrightarrow> ts_entry (hd queue') \<notin> R' \<union> E'"
      using drop_removed_spec [OF dr] dist dis by auto
    have "queue_inv (W - R) queue' (E' \<union> R')"
      by (rule queue_inv_drop [OF q R, of "e # d"]) (use c d dis True in auto)
    then show ?thesis using False c dr True by (simp add: forget_unskippable_def)
  next
    case e: False
    have "queue_inv (W - R) (e # queue) (?E \<union> R)"
      by (rule queue_inv_drop [OF q R, of "[]"]) (use c dis e in auto)
    then show ?thesis using False c e by (simp add: forget_unskippable_def)
  qed
qed

lemma drop_removed_subset: "set (fst (drop_removed q R E)) \<subseteq> set q"
  by (induction q R E rule: drop_removed.induct) auto

lemma forget_subset: "set (cs_unskippable_bundles (forget_unskippable R s)) \<subseteq> set (cs_unskippable_bundles s)"
proof (cases "cs_unskippable_bundles s")
  case (Cons e queue)
  obtain a b c where d: "drop_removed queue (R - {ts_entry e}) (cs_removed_unskippable_bundles s) = (a, b, c)"
    by (cases "drop_removed queue (R - {ts_entry e}) (cs_removed_unskippable_bundles s)") auto
  then have "set a \<subseteq> set queue" using drop_removed_subset [of queue] by (metis fst_conv)
  then show ?thesis using Cons d by (auto simp: forget_unskippable_def)
qed (simp add: forget_unskippable_def)

lemma unskippable_ok_remove: "keeps unskippable_ok (remove_bundles_from_inboxes env blk)"
proof (rule keepsI)
  fix s x s'
  assume ok: "unskippable_ok s" and r: "remove_bundles_from_inboxes env blk s = (Inr x, s')"
  obtain ks cid xs R s1 where
      run: "remove_all_from_inbox cid xs (s\<lparr>cs_inboxes := load_entries InboxStateView_new ks (cs_inboxes s)\<rparr>) = (Inr R, s1)"
      and s': "s' = forget_unskippable R s1"
    using r by (auto simp: remove_bundles_from_inboxes_def sr_simps)
  let ?s = "s\<lparr>cs_inboxes := load_entries InboxStateView_new ks (cs_inboxes s)\<rparr>"
  have w: "waiting_unskippable ?s = waiting_unskippable s" by (simp add: waiting_unskippable_def)
  have i: "inboxes_inv ?s" using ok by (simp add: unskippable_ok_def inboxes_inv_def)
  note r1 = remove_all_from_inbox_Inr [OF run i, unfolded w]
  have q: "queue_inv (waiting_unskippable s) (cs_unskippable_bundles s1) (cs_removed_unskippable_bundles s1)"
    using ok r1 by (simp add: unskippable_ok_def)
  have ib: "cs_inboxes s' = cs_inboxes s1"
    by (auto simp: s' forget_unskippable_def Let_def split: prod.splits)
  have w': "waiting_unskippable s' = waiting_unskippable s - R" using r1 ib by (simp add: waiting_unskippable_def)
  have q': "queue_inv (waiting_unskippable s') (cs_unskippable_bundles s') (cs_removed_unskippable_bundles s')"
    unfolding w' unfolding s' by (rule forget_unskippable_inv [OF q]) (use r1 in simp)
  moreover have "inboxes_inv s'"
    using r1 forget_subset [of R s1] unfolding s' [symmetric] by (auto simp: inboxes_inv_def ib)
  ultimately show "unskippable_ok s'" by (simp add: unskippable_ok_def)
qed

section \<open>Reachable states\<close>

definition received :: "ChainStateView
    \<Rightarrow> (Origin \<times> InboxStateView) list \<times> TimestampedBundleInInbox list \<times> BundleInInbox set" where
  "received s = (cs_inboxes s, cs_unskippable_bundles s, cs_removed_unskippable_bundles s)"

lemma unskippable_ok_received: "received s' = received s \<Longrightarrow> unskippable_ok s' \<longleftrightarrow> unskippable_ok s"
  by (simp add: received_def unskippable_ok_def inboxes_inv_def waiting_unskippable_def)

interpretation inboxes: mailbox_blind "\<lambda>s. received s = x" for x
  by unfold_locales (simp_all add: received_def)

lemma unskippable_ok_keeps: "(\<And>x. keeps (\<lambda>s. received s = x) m) \<Longrightarrow> keeps unskippable_ok m"
  unfolding keeps_def using unskippable_ok_received by blast

lemma unskippable_ok_receive: "keeps unskippable_ok (receive_message_bundle env origin b t log)"
  unfolding receive_message_bundle_def Let_def
proof (intro keeps_rules unskippable_ok_add)
  show "keeps unskippable_ok (handle_open_chain env c ts t m)" for c ts m
    by (rule unskippable_ok_keeps) (rule inboxes.keeps_handle_open_chain)
  show "keeps unskippable_ok (process_unsubscribes a xs)" "keeps unskippable_ok (process_subscribes a xs)" for a xs
    by (rule unskippable_ok_keeps inboxes.blind_process_unsubscribes inboxes.blind_process_subscribes)+
  show "unskippable_ok (if log then s\<lparr>cs_received_log := l s\<rparr> else s)" if "unskippable_ok s" for s l
    using that unskippable_ok_received [of "s\<lparr>cs_received_log := l s\<rparr>" s] by (simp add: received_def)
qed

lemma unskippable_ok_step:
  assumes "chain_step env s s'" and "unskippable_ok s"
  shows "unskippable_ok s'"
  using assms(1)
proof cases
  case (step_receive origin b t log x)
  show ?thesis by (rule keepsD [OF unskippable_ok_receive step_receive assms(2)])
next
  case (step_mark target h b)
  show ?thesis by (rule keepsD [OF unskippable_ok_keeps [OF inboxes.blind_mark] step_mark assms(2)])
next
  case (step_remove blk)
  show ?thesis by (rule keepsD [OF unskippable_ok_remove step_remove assms(2)])
next
  case (step_execute blk t r out)
  show ?thesis
    by (rule keepsD [OF unskippable_ok_keeps [OF inboxes.keeps_execute_block [OF refl]] step_execute assms(2)])
next
  case (step_init mid config time t b)
  show ?thesis
    by (rule keepsD [OF unskippable_ok_keeps [OF inboxes.keeps_execute_init_message] step_init assms(2)])
next
  case (step_consensus m tip log)
  then show ?thesis using assms(2) unskippable_ok_received [of s' s] by (simp add: received_def)
qed

lemma reachable_unskippable_ok: "chain_reachable env s \<Longrightarrow> unskippable_ok s"
proof (induction rule: chain_reachable.induct)
  case (reach_fresh s)
  then show ?case
    by (simp add: unskippable_ok_def inboxes_inv_def waiting_unskippable_def unskippable_in_def queue_inv_def
        fresh_mailboxes_def entry_or_def)
next
  case (reach_step s s')
  then show ?case using unskippable_ok_step by blast
qed

end
