(* ===== verification/Chain_Samples.thy ===== *)
theory Chain_Samples
  imports Block_Execution System_Props
begin

text \<open>A concrete chain, on which the theorems about blocks are exercised.\<close>

definition sample_crypto :: Crypto where
  "sample_crypto = \<lparr>hash_value = (\<lambda>_. 0), owner_from = (\<lambda>k. k), sign_content = (\<lambda>_ k. k),
     check_content = (\<lambda>_ _ _. True), key_public = (\<lambda>k. k), sign = (\<lambda>_ k. k), sig_check = (\<lambda>_ _ _. True),
     verify_batch = (\<lambda>_ _. True)\<rparr>"

definition sample_exec_env :: ExecEnv where
  "sample_exec_env = \<lparr>exec_sys = sample_env, exec_chain_id = 4, exec_runtime = (\<lambda>_ _ _ _ _ s. (Inr (), s))\<rparr>"

definition sample_chain_env :: ChainEnv where
  "sample_chain_env = \<lparr>ce_exec = sample_exec_env,
     ce_crypto = sample_crypto, ce_sampler = \<lparr>alias_ok = (\<lambda>_. True), alias_sample = (\<lambda>_ _. 0)\<rparr>,
     ce_state_hash = (\<lambda>_. 77), ce_size_bundle = (\<lambda>_. Some 10), ce_size_operation = (\<lambda>_. Some 10),
     ce_size_results = (\<lambda>_. Some 10)\<rparr>"

lemma sample_env_simps [simp]:
  "exec_sys sample_exec_env = sample_env" "exec_chain_id sample_exec_env = 4"
  "ce_exec sample_chain_env = sample_exec_env" "ce_size_bundle sample_chain_env x = Some 10"
  "ce_size_operation sample_chain_env y = Some 10" "ce_size_results sample_chain_env z = Some 10"
  "ce_state_hash sample_chain_env e = 77" "env_chain_id sample_chain_env = 4"
  by (simp_all add: sample_exec_env_def sample_chain_env_def env_chain_id_def)

definition sample_manager :: ChainManager where
  "sample_manager = \<lparr>m_ownership = ownership_single (\<lambda>k. k) 8, m_seed = 3, m_distribution = None,
     m_fallback_distribution = None, m_proposed = None, m_locked = None, m_timeout = None, m_pending = None,
     m_timeout_vote = None, m_fallback_vote = None, m_round_timeout = None, m_current_round = Fast,
     m_fallback_owners = [], m_pending_blobs = Map.empty\<rparr>"

definition paid_committee :: Committee where
  "paid_committee = Committee_new (map (\<lambda>v. (v, validator_state 1)) [1, 2, 3, 4]) sample_policy"

definition paid_sys :: SystemExecutionStateView where
  "paid_sys = sample_sys\<lparr>sy_committees := [(0, paid_committee)]\<rparr>"

definition sample_chain :: ChainStateView where
  "sample_chain = \<lparr>cs_execution_state = \<lparr>ex_system = paid_sys, ex_users = Map.empty\<rparr>,
     cs_execution_state_hash = None,
     cs_tip_state = \<lparr>block_hash = Some 1, next_block_height = 3, num_incoming_bundles = 0, num_operations = 0,
       num_outgoing_messages = 0\<rparr>,
     cs_manager = sample_manager, cs_confirmed_log = [21, 22, 1], cs_received_log = [], cs_inboxes = [],
     cs_unskippable_bundles = [], cs_removed_unskippable_bundles = {}, cs_outboxes = [], cs_outbox_counters = [],
     cs_channels = []\<rparr>"

definition transfer_block :: Block where
  "transfer_block = \<lparr>chain_id = 4, epoch = 0, incoming_bundles = [], operations = [System_op sample_transfer],
     height = 3, timestamp = 5, authenticated_signer = Some 8, previous_block_hash = Some 1\<rparr>"

definition sample_rc :: "Owner option ResourceController" where
  "sample_rc = ResourceController_new sample_policy (Some 8)"

lemma extension_01 [simp]:
  "track_executed_block_size_sequence_extension 0 (Suc 0) = sr_ok ()"
  "track_executed_block_size_sequence_extension 0 0 = sr_ok ()"
proof -
  have "bit_length 0 = 0" "bit_length (Suc 0) = 1" by code_simp+
  then show "track_executed_block_size_sequence_extension 0 (Suc 0) = sr_ok ()"
    "track_executed_block_size_sequence_extension 0 0 = sr_ok ()"
    by (simp_all add: track_executed_block_size_sequence_extension_def Let_def)
qed

lemma sample_header:
  "track_block_header transfer_block sample_rc =
     (Inr (), sample_rc\<lparr>rc_tracker := tracker_default\<lparr>rt_executed_block_size := 91\<rparr>\<rparr>)"
  by (simp add: track_block_header_def sr_bind_def track_executed_block_size_def tracker_default_def sample_rc_def
      ResourceController_new_def EMPTY_EXECUTED_BLOCK_SIZE_def checked_add_def sample_policy_def policy_default_def
      sr_ok_def transfer_block_def)
definition sample_tracker :: "u64 \<Rightarrow> u32 \<Rightarrow> u32 \<Rightarrow> ResourceTracker" where
  "sample_tracker size' ops blocks =
     tracker_default\<lparr>rt_executed_block_size := size', rt_operations := ops, rt_blocks := blocks\<rparr>"

definition sample_exec :: "Amount \<Rightarrow> (Owner, Amount) btree \<Rightarrow> ExecutionStateView" where
  "sample_exec b bs = \<lparr>ex_system = paid_sys\<lparr>sy_timestamp := 5, sy_balance := b, sy_balances := bs\<rparr>, ex_users = Map.empty\<rparr>"

definition sample_outcome :: ExecutionOutcome where
  "sample_outcome = System_outcome (operation_outcome sample_ctx [sample_transfer_message])"

definition sample_txn :: "OracleResponse list option \<Rightarrow> TransactionTracker" where
  "sample_txn q = TransactionTracker_new 0 q\<lparr>tt_next_message_index := 1, outcomes := [sample_outcome]\<rparr>"

lemma paid_transfer_run:
  "sys_execute_operation sample_env sample_ctx sample_transfer
     (paid_sys\<lparr>sy_timestamp := 5\<rparr>, TransactionTracker_new 0 q) =
     (Inr None, (ex_system (sample_exec 20 [(7, 3), (8, 20)]), (sample_txn q)))"
  by (simp add: sys_execute_operation_def operation_branch_def sample_transfer_def transfer_def sample_ctx_def
      paid_sys_def sample_sys_def sr_bind_def sr_ensure_def sr_ok_def on_sys_def on_txn_arith_def debit_def
      account_balance_def owner_balance_def set_account_balance_def try_sub_assign_def assign_num_def
      checked_sub_def word_le_nat_alt Account_owner_def add_system_outcome_def add_outcome_def message_count_def
      operation_outcome_def TransactionTracker_new_def checked_add_def sample_transfer_message_def
      sample_exec_def sample_txn_def sample_outcome_def)

definition sample_at :: "ExecutionStateView \<Rightarrow> (Target \<times> OutboxStateView) list \<Rightarrow> (BlockHeight, u32) btree \<Rightarrow> ChainStateView" where
  "sample_at ex obs counters =
     sample_chain\<lparr>cs_execution_state := ex, cs_outboxes := obs, cs_outbox_counters := counters\<rparr>"

lemma sample_at_simps [simp]:
  "cs_execution_state (sample_at e obs cs) = e" "sample_at e obs cs\<lparr>cs_execution_state := e'\<rparr> = sample_at e' obs cs"
  by (simp_all add: sample_at_def sample_chain_def)

definition sample_br :: "ExecutionStateView \<Rightarrow> (Target \<times> OutboxStateView) list \<Rightarrow> (BlockHeight, u32) btree
    \<Rightarrow> ResourceTracker \<Rightarrow> TransactionTracker \<Rightarrow> BlockRun" where
  "sample_br ex obs counters tr txn =
     \<lparr>br_chain = sample_at ex obs counters,
      br_controller = \<lparr>rc_policy = sample_policy, rc_tracker = tr, rc_account = Some 8\<rparr>, br_txn = txn\<rparr>"

lemma sample_operation_context [simp]: "operation_context sample_chain_env transfer_block 0 = sample_ctx"
  by (simp add: operation_context_def sample_ctx_def transfer_block_def)

lemma sample_execute_operation:
  "execute_operation sample_exec_env sample_ctx 9 (System_op sample_transfer)
     \<lparr>x_state = sample_exec 20 [(7, 3), (8, 50)], x_txn = TransactionTracker_new 0 q, x_controller = c\<rparr> =
   (Inr (), \<lparr>x_state = sample_exec 20 [(7, 3), (8, 20)], x_txn = (sample_txn q), x_controller = c\<rparr>)"
proof -
  have sys: "ex_system (sample_exec 20 [(7, 3), (8, 50)]) = paid_sys\<lparr>sy_timestamp := 5\<rparr>"
    by (simp add: sample_exec_def paid_sys_def sample_sys_def)
  have "oc_chain_id sample_ctx = 4" by (simp add: sample_ctx_def)
  then show ?thesis
    by (simp add: execute_operation_def sr_bind_def assert_chain_def sr_ensure_def on_system_def sys
        paid_transfer_run sr_ok_def) (simp add: sample_exec_def)
qed

lemma sample_track_operation:
  "with_state (track_operation sources_holder (System_op sample_transfer))
     \<lparr>x_state = sample_exec 20 [(7, 3), (8, 20)], x_txn = txn,
      x_controller = \<lparr>rc_policy = sample_policy, rc_tracker = sample_tracker n 0 0, rc_account = Some 8\<rparr>\<rparr> =
   (Inr (), \<lparr>x_state = sample_exec 17 [(7, 3), (8, 20)], x_txn = txn,
      x_controller = \<lparr>rc_policy = sample_policy, rc_tracker = sample_tracker n 1 0, rc_account = Some 8\<rparr>\<rparr>)"
  by (simp add: with_state_def tracking_def sr_bind_def with_state_and_grant_def funding_sources_def sample_exec_def
      track_operation_def bump_def charge_def update_balance_def sources_holder_def try_sub_assign_cases checked_add_def
      sample_tracker_def tracker_default_def sample_policy_def policy_default_def word_le_nat_alt store_sources_def
      sr_ok_def Let_def)

lemma sample_run_transaction:
  "run_transaction sample_chain_env transfer_block 9 0 (ExecuteOperation (System_op sample_transfer))
     (sample_br (sample_exec 20 [(7, 3), (8, 50)]) [] [] (sample_tracker 91 0 0) (TransactionTracker_new 0 q)) =
   (Inr (), sample_br (sample_exec 17 [(7, 3), (8, 20)]) [] [] (sample_tracker 101 1 0) (sample_txn q))"
proof -
  have size: "track_executed_block_size 10 \<lparr>rc_policy = sample_policy, rc_tracker = sample_tracker 91 0 0, rc_account = Some 8\<rparr> =
    (Inr (), \<lparr>rc_policy = sample_policy, rc_tracker = sample_tracker 101 0 0, rc_account = Some (8::nat)\<rparr>)"
    by (simp add: track_executed_block_size_def sample_tracker_def tracker_default_def checked_add_def sample_policy_def
        policy_default_def)
  show ?thesis
    by (simp add: run_transaction_def Let_def sr_bind_def on_controller_def track_executed_block_size_of_def
        size sample_br_def on_exec_def sample_execute_operation sample_track_operation)
qed
definition sample_out_message :: OutgoingMessage where
  "sample_out_message = \<lparr>om_destination = Dest_Recipient 5, om_authenticated_signer = None, om_grant = 0,
     om_refund_grant_to = None, om_kind = Tracked, om_message = System_msg (Msg_Credit (Some 9) 30 (Some 8))\<rparr>"

definition sample_outboxes :: "(Target \<times> OutboxStateView) list" where
  "sample_outboxes = [(Target_chain 5, \<lparr>next_height_to_schedule = 4, outbox_queue = [3]\<rparr>)]"

lemma sample_process_outcomes:
  "process_execution_outcomes 3 [sample_outcome] (sample_at e [] []) =
     (Inr ([sample_out_message], []),
      sample_at e sample_outboxes [(3, 1)])"
  by (simp add: sample_outcome_def process_raw_execution_outcome_def operation_outcome_def RawExecutionOutcome_default_def
      sample_transfer_message_def credit_message_def recipients_of_def broadcasts_of_def map_filter_simps is_channel_def
      outgoing_message_def load_outboxes_def load_channels_def load_entries_def load_entry_def sr_bind_def sr_modify_def
      sr_ensure_def sr_ok_def schedule_in_def OutboxStateView_new_def schedule_message_def try_add_one_def checked_add_def
      count_up_def process_unsubscribes_def process_subscribes_def sample_outboxes_def sample_out_message_def
      sample_at_def sample_chain_def Let_def entry_or_def)

lemma sample_track_message:
  "with_state (track_message sources_holder (System_msg m))
     \<lparr>x_state = sample_exec 17 [(7, 3), (8, 20)], x_txn = txn,
      x_controller = \<lparr>rc_policy = sample_policy, rc_tracker = sample_tracker n 1 0, rc_account = Some 8\<rparr>\<rparr> =
   (Inr (), \<lparr>x_state = sample_exec 17 [(7, 3), (8, 20)], x_txn = txn,
      x_controller = \<lparr>rc_policy = sample_policy, rc_tracker = sample_tracker n 1 0\<lparr>rt_messages := 1\<rparr>, rc_account = Some 8\<rparr>\<rparr>)"
  by (simp add: with_state_def tracking_def sr_bind_def with_state_and_grant_def funding_sources_def sample_exec_def
      track_message_def bump_def charge_def update_balance_def sources_holder_def try_sub_assign_cases checked_add_def
      sample_tracker_def tracker_default_def sample_policy_def policy_default_def word_le_nat_alt store_sources_def
      sr_ok_def Let_def)

definition sample_final_tracker :: "u32 \<Rightarrow> ResourceTracker" where
  "sample_final_tracker blocks = (sample_tracker 111 1 blocks)\<lparr>rt_messages := 1\<rparr>"

text \<open>Executed for the first time, or replaying that no oracle was used.\<close>

lemma sample_execute_transaction:
  assumes "q = None \<and> repl = None \<and> repl' = None \<or> q = Some [] \<and> repl = Some [[]] \<and> repl' = Some []"
  shows "execute_transaction sample_chain_env transfer_block 9 (0, ExecuteOperation (System_op sample_transfer)) (BlockAcc_new repl)
     (sample_br (sample_exec 20 [(7, 3), (8, 50)]) [] [] (sample_tracker 91 0 0) txn) =
   (Inr \<lparr>ba_replaying = repl', ba_next_message_index = 1, ba_oracle_responses = [[]], ba_events = [[]],
      ba_messages = [[sample_out_message]]\<rparr>,
    sample_br (sample_exec 17 [(7, 3), (8, 20)]) sample_outboxes [(3, 1)] (sample_final_tracker 0) (sample_txn q))"
proof -
  have size: "track_executed_block_size 10 \<lparr>rc_policy = sample_policy,
      rc_tracker = (sample_tracker 101 1 0)\<lparr>rt_messages := 1\<rparr>, rc_account = Some 8\<rparr> =
    (Inr (), \<lparr>rc_policy = sample_policy, rc_tracker = sample_final_tracker 0, rc_account = Some (8::nat)\<rparr>)"
    by (simp add: track_executed_block_size_def sample_final_tracker_def sample_tracker_def tracker_default_def
        checked_add_def sample_policy_def policy_default_def)
  have new: "sample_br ex obs cs tr txn\<lparr>br_txn := t\<rparr> = sample_br ex obs cs tr t" for ex obs cs tr t
    by (simp add: sample_br_def)
  have upd: "update_execution_outcomes_with_app_registrations
      \<lparr>x_state = e, x_txn = (sample_txn q), x_controller = c\<rparr> = (Inr (), \<lparr>x_state = e, x_txn = (sample_txn q), x_controller = c\<rparr>)" for e c
    by (simp add: update_execution_outcomes_with_app_registrations_def sample_txn_def sample_outcome_def Let_def)
  have d: "destructure (sample_txn q) = Inr ([sample_outcome], [], 1)"
    using assms by (auto simp: destructure_def sample_txn_def TransactionTracker_new_def)
  have n: "next_responses repl = Inr (q, repl')" using assms by (auto simp: next_responses_def)
  have h: "height transfer_block = 3" by (simp add: transfer_block_def)
  have msg: "om_message sample_out_message = System_msg (Msg_Credit (Some 9) 30 (Some 8))"
    by (simp add: sample_out_message_def)
  show ?thesis
    unfolding execute_transaction_def prod.case Let_def BlockAcc_new_def
    apply (simp add: sr_bind_def sr_lift_def n sr_modify_def new sample_run_transaction)
    apply (simp add: sample_br_def sr_lift_def on_exec_def upd sr_get_def d h on_chain_def sample_process_outcomes pays_for_messages_def
        msg sample_track_message on_controller_def track_executed_block_size_of_def size sr_ok_def
        sr_bind_def del: process_execution_outcomes.simps)
    done
qed

lemma sample_track_block:
  "with_state (track_block sources_holder)
     \<lparr>x_state = sample_exec 17 [(7, 3), (8, 20)], x_txn = txn,
      x_controller = \<lparr>rc_policy = sample_policy, rc_tracker = sample_final_tracker 0, rc_account = Some 8\<rparr>\<rparr> =
   (Inr (), \<lparr>x_state = sample_exec 12 [(7, 3), (8, 20)], x_txn = txn,
      x_controller = \<lparr>rc_policy = sample_policy, rc_tracker = sample_final_tracker 1, rc_account = Some 8\<rparr>\<rparr>)"
  by (simp add: with_state_def tracking_def sr_bind_def with_state_and_grant_def funding_sources_def sample_exec_def
      track_block_def bump_def charge_def update_balance_def sources_holder_def try_sub_assign_cases checked_add_def
      sample_tracker_def sample_final_tracker_def tracker_default_def sample_policy_def policy_default_def word_le_nat_alt
      store_sources_def sr_ok_def Let_def)

definition sample_result :: BlockExecutionOutcome where
  "sample_result = \<lparr>messages = [[sample_out_message]], state_hash = 77, oracle_responses = [[]], events = [[]]\<rparr>"

definition sample_manager' :: ChainManager where
  "sample_manager' = (case ChainManager_new sample_crypto (ce_sampler sample_chain_env) (ownership_single (\<lambda>k. k) 8) 4 9
     (keys_and_weights paid_committee) of Inr m \<Rightarrow> m | Inl _ \<Rightarrow> sample_manager)"

definition sample_chain' :: ChainStateView where
  "sample_chain' = (sample_at (sample_exec 12 [(7, 3), (8, 20)]) sample_outboxes [(3, 1)])
     \<lparr>cs_execution_state_hash := Some 77, cs_manager := sample_manager'\<rparr>"

lemma sample_block_simps [simp]:
  "chain_id transfer_block = 4" "height transfer_block = 3" "timestamp transfer_block = 5"
  "authenticated_signer transfer_block = Some 8" "incoming_bundles transfer_block = []"
  "operations transfer_block = [System_op sample_transfer]"
  "transactions transfer_block = [(0, ExecuteOperation (System_op sample_transfer))]"
  by (simp_all add: transfer_block_def transactions_def)

lemma sample_br_simps [simp]:
  "chain_is_closed (br_chain (sample_br (sample_exec b bs) obs cs t txn)) = False"
  "sy_application_permissions (ex_system (cs_execution_state (br_chain (sample_br (sample_exec b bs) obs cs t txn)))) =
     sample_permissions"
  by (simp_all add: chain_is_closed_def sample_br_def sample_exec_def paid_sys_def sample_sys_def)

lemma sample_check_permissions: "check_permissions sample_permissions transfer_block = Inr ()"
  by (simp add: check_permissions_def sample_permissions_def can_execute_operations_def incoming_messages_def
      Operation_application_id_def)

lemma sample_reset:
  "reset_manager sample_chain_env 4 9 (sample_at (sample_exec b bs) obs cs\<lparr>cs_execution_state_hash := h\<rparr>) =
     (Inr (), sample_at (sample_exec b bs) obs cs\<lparr>cs_execution_state_hash := h, cs_manager := sample_manager'\<rparr>)"
proof -
  have com: "current_committee (ex_system (sample_exec b bs)) = Some (0, paid_committee)"
    by (simp add: current_committee_def sample_exec_def paid_sys_def sample_sys_def)
  have own: "sy_ownership (ex_system (sample_exec b bs)) = ownership_single (\<lambda>k. k) 8"
    by (simp add: sample_exec_def paid_sys_def sample_sys_def)
  have "\<exists>m. ChainManager_new sample_crypto (ce_sampler sample_chain_env) (ownership_single (\<lambda>k. k) 8) 4 9
     (keys_and_weights paid_committee) = Inr m"
    by (simp add: ChainManager_new_def alias_new_def sample_chain_env_def Let_def)
  then show ?thesis
    by (auto simp: reset_manager_def com own current_keys_and_weights_def manager_reset_def sample_manager'_def
      sample_chain_env_def)
qed

lemma sample_run_block:
  assumes "q = None \<and> repl = None \<or> q = Some [] \<and> repl = Some [[]]"
  shows "run_block_body sample_chain_env transfer_block 9 repl
     (sample_br (sample_exec 20 [(7, 3), (8, 50)]) [] [] tracker_default txn) =
   (Inr sample_result, sample_br (sample_exec 12 [(7, 3), (8, 20)]) sample_outboxes [(3, 1)] (sample_final_tracker 1)
     (sample_txn q)\<lparr>br_chain := sample_chain'\<rparr>)"
proof -
  have hd: "on_controller Ctx_Block (track_block_header transfer_block)
      (sample_br (sample_exec 20 [(7, 3), (8, 50)]) [] [] tracker_default txn) =
    (Inr (), sample_br (sample_exec 20 [(7, 3), (8, 50)]) [] [] (sample_tracker 91 0 0) txn)"
    using sample_header
    by (simp add: on_controller_def sample_br_def sample_rc_def ResourceController_new_def sample_tracker_def tracker_default_def)
  have blk: "on_exec Ctx_Block (with_state (track_block sources_holder))
      (sample_br (sample_exec 17 [(7, 3), (8, 20)]) sample_outboxes [(3, 1)] (sample_final_tracker 0) (sample_txn q)) =
    (Inr (), sample_br (sample_exec 12 [(7, 3), (8, 20)]) sample_outboxes [(3, 1)] (sample_final_tracker 1) (sample_txn q))"
    by (simp add: on_exec_def sample_br_def sample_track_block)
  have add: "try_add_one (3 :: u64) = Inr 4" by (simp add: try_add_one_def checked_add_def)
  obtain repl' :: "OracleResponse list list option" where "q = None \<and> repl = None \<and> repl' = None \<or> q = Some [] \<and> repl = Some [[]] \<and> repl' = Some []"
    using assms by blast
  note ex = sample_execute_transaction [OF this]
  show ?thesis
    unfolding run_block_body_def
    by (simp add: sr_bind_def hd sr_get_def sr_ensure_def sample_check_permissions sr_lift_def ex
        sr_ok_def blk on_chain_def update_state_hash_def add)
      (simp add: sample_br_def sample_reset update_state_hash_def sample_result_def sample_chain'_def sr_bind_def
        sr_ensure_def sr_ok_def)
qed

lemma sample_execute_block:
  assumes "repl = None \<or> repl = Some [[]]"
  shows "execute_block sample_chain_env transfer_block 9 repl sample_chain = (Inr sample_result, sample_chain')"
proof -
  have sys: "ex_system (cs_execution_state sample_chain) = paid_sys" by (simp add: sample_chain_def)
  have com: "current_committee (paid_sys\<lparr>sy_timestamp := t\<rparr>) = Some (0, paid_committee)"
      "sy_timestamp paid_sys = 0" for t
    by (simp_all add: current_committee_def paid_sys_def sample_sys_def)
  have pol: "policy paid_committee = sample_policy" by (simp add: paid_committee_def Committee_new_def Let_def)
  have start: "\<lparr>br_chain = sample_chain\<lparr>cs_execution_state := (cs_execution_state sample_chain)
         \<lparr>ex_system := paid_sys\<lparr>sy_timestamp := 5\<rparr>\<rparr>\<rparr>, br_controller = ResourceController_new sample_policy (Some 8),
      br_txn = txn\<rparr> = sample_br (sample_exec 20 [(7, 3), (8, 50)]) [] [] tracker_default txn" for txn
    by (simp add: sample_br_def sample_at_def sample_chain_def sample_exec_def ResourceController_new_def
        paid_sys_def sample_sys_def)
  obtain q :: "OracleResponse list option" where "q = None \<and> repl = None \<or> q = Some [] \<and> repl = Some [[]]" using assms by blast
  note run = sample_run_block [OF this]
  show ?thesis
    unfolding execute_block_def
    by (simp add: sr_bind_def sr_ensure_def open_if_first_def sr_get_def sys set_block_timestamp_def sr_modify_def
        sr_ok_def com sr_lift_def pol start run)
qed

end
