(* ===== verification/Chain_Props.thy ===== *)
theory Chain_Props
  imports Chain_Delivery Chain_Inboxes Chain_Samples
begin

text \<open>Properties of the state of a chain and of the execution of blocks.\<close>

section \<open>Acknowledgements\<close>

text \<open>C6. Acknowledgements are exact. In every state that a validator reaches by receiving bundles,
  acknowledging messages, removing bundles and executing blocks, with fewer than \<open>2^32\<close> outboxes,
  acknowledging height \<open>h\<close> for a target never hits the panics of the counters, reports whether
  anything up to \<open>h\<close> was still queued for that target, removes exactly that, and leaves every other
  outbox alone; and \<open>all_messages_delivered_up_to\<close> holds exactly when no outbox holds a height up to
  the given one.\<close>

theorem acknowledgements_exact:
  assumes "chain_reachable env s" and "length (cs_outboxes s) < 2 ^ 32"
  shows "(\<exists>b s'. chain_mark_messages_as_received t h s = (Inr b, s')
      \<and> (b \<longleftrightarrow> (\<exists>x \<le> h. in_queue (cs_outboxes s) t x))
      \<and> (\<forall>t' x. in_queue (cs_outboxes s') t' x \<longleftrightarrow> in_queue (cs_outboxes s) t' x \<and> \<not> (t' = t \<and> x \<le> h)))
    \<and> (all_messages_delivered_up_to s h \<longleftrightarrow> (\<forall>t x. in_queue (cs_outboxes s) t x \<longrightarrow> h < x))"
proof
  note ok = reachable_counters_ok [OF assms(1)]
  show "\<exists>b s'. chain_mark_messages_as_received t h s = (Inr b, s')
      \<and> (b \<longleftrightarrow> (\<exists>x \<le> h. in_queue (cs_outboxes s) t x))
      \<and> (\<forall>t' x. in_queue (cs_outboxes s') t' x \<longleftrightarrow> in_queue (cs_outboxes s) t' x \<and> \<not> (t' = t \<and> x \<le> h))"
    using mark_messages_exact [OF ok assms(2), of t h] by blast
  show "all_messages_delivered_up_to s h \<longleftrightarrow> (\<forall>t x. in_queue (cs_outboxes s) t x \<longrightarrow> h < x)"
    by (rule delivered_exact [OF ok assms(2)])
qed

lemma sample_start: "chain_reachable sample_chain_env sample_chain"
  by (rule reach_fresh) (simp add: fresh_mailboxes_def sample_chain_def)

lemma sample_reachable: "chain_reachable sample_chain_env sample_chain'"
proof (rule reach_step [OF sample_start])
  show "chain_step sample_chain_env sample_chain sample_chain'"
    by (rule step_execute) (rule sample_execute_block [OF disjI1 [OF refl]])
qed (simp add: sample_chain_def)

lemma sample_outboxes' [simp]: "cs_outboxes sample_chain' = sample_outboxes"
  by (simp add: sample_chain'_def sample_at_def)

theorem acknowledgements_exact_witness:
  "(\<exists>s'. chain_mark_messages_as_received (Target_chain 5) 3 sample_chain' = (Inr True, s')
     \<and> \<not> in_queue (cs_outboxes s') (Target_chain 5) 3)
   \<and> all_messages_delivered_up_to sample_chain' 2 \<and> \<not> all_messages_delivered_up_to sample_chain' 3"
proof -
  have q: "in_queue sample_outboxes t x \<longleftrightarrow> t = Target_chain 5 \<and> x = 3" for t x
    by (simp add: in_queue_def sample_outboxes_def)
  have len: "length (cs_outboxes sample_chain') < 2 ^ 32" by (simp add: sample_outboxes_def)
  note ack = acknowledgements_exact [OF sample_reachable len, unfolded sample_outboxes' q]
  obtain b s' where mark: "chain_mark_messages_as_received (Target_chain 5) 3 sample_chain' = (Inr b, s')"
      "b \<longleftrightarrow> (\<exists>x \<le> 3. Target_chain 5 = Target_chain 5 \<and> x = (3 :: u64))"
      "\<not> in_queue (cs_outboxes s') (Target_chain 5) 3"
    using conjunct1 [OF ack [of "Target_chain 5" 3]] by blast
  have "all_messages_delivered_up_to sample_chain' 2 \<longleftrightarrow> 2 < (3 :: u64)"
      "all_messages_delivered_up_to sample_chain' 3 \<longleftrightarrow> 3 < (3 :: u64)"
    using conjunct2 [OF ack [of "Target_chain 5" 2]] conjunct2 [OF ack [of "Target_chain 5" 3]] by simp_all
  then show ?thesis using mark by simp
qed

section \<open>Delivery\<close>

text \<open>C18. Every message of an executed block is queued. If nothing was scheduled at the height of the block
  or above before it, then after a successful execution the outbox of each direct recipient of a
  message of the block holds that height, and for each message broadcast on a channel, so does the
  outbox of every chain that is then subscribed to the channel, including the ones that subscribed
  during the block.\<close>

theorem block_messages_queued:
  assumes "execute_block env b t repl s = (Inr out, s')" and "heights_below (height b) s"
    and "m \<in> set (concat (messages out))"
  shows "case om_destination m of
      Dest_Recipient r \<Rightarrow> in_queue (cs_outboxes s') (Target_chain r) (height b)
    | Dest_Subscribers name \<Rightarrow>
        let channel = full_name (Message_application_id (om_message m)) name in
        \<forall>cid \<in> set (subscribers (channel_of s' channel)).
          in_queue (cs_outboxes s') (Target_channel cid channel) (height b)"
proof -
  have "served (height b) s'" "on_its_way (height b) s' m"
    using execute_block_delivers [OF assms(1,2)] assms(3) by (auto simp: delivering_def)
  then show ?thesis
    by (auto simp: served_def subscribers_served_def on_its_way_def Let_def split: Destination.splits)
qed

theorem block_messages_queued_witness:
  "in_queue (cs_outboxes sample_chain') (Target_chain 5) 3"
proof -
  have "heights_below (height transfer_block) sample_chain"
    by (simp add: heights_below_def sample_chain_def OutboxStateView_new_def ChannelStateView_new_def)
  moreover have "sample_out_message \<in> set (concat (messages sample_result))" by (simp add: sample_result_def)
  ultimately show ?thesis
    using block_messages_queued [OF sample_execute_block [OF disjI1 [OF refl]], of sample_out_message] by (simp add: sample_out_message_def)
qed

section \<open>Unskippable bundles\<close>

text \<open>C19. The queue of unskippable bundles is exact. In every reachable state, its entries that are not
  marked as removed are the bundles that wait in some inbox and may not be skipped, each entry occurs
  once, and the front of the queue is such a waiting bundle: the time stored there is the time since
  which the chain has been ignoring a message.\<close>

theorem unskippable_queue_exact:
  assumes "chain_reachable env s"
  shows "set (map ts_entry (cs_unskippable_bundles s)) - cs_removed_unskippable_bundles s =
      {BundleInInbox_new origin b | origin b.
        b \<in> set (added_bundles (entry_or InboxStateView_new (cs_inboxes s) origin)) \<and> \<not> is_skippable b}
    \<and> distinct (map ts_entry (cs_unskippable_bundles s))
    \<and> (\<forall>front rest. cs_unskippable_bundles s = front # rest \<longrightarrow> ts_entry front \<notin> cs_removed_unskippable_bundles s)"
proof -
  have "waiting_unskippable s = {BundleInInbox_new origin b | origin b.
      b \<in> set (added_bundles (inbox_at s origin)) \<and> \<not> is_skippable b}"
    by (auto simp: waiting_unskippable_def unskippable_in_def BundleInInbox_new_def)
  then show ?thesis
    using reachable_unskippable_ok [OF assms] by (auto simp: unskippable_ok_def queue_inv_def)
qed

definition protected_bundle :: MessageBundle where
  "protected_bundle = \<lparr>mb_height = 1, mb_timestamp = 0, mb_certificate_hash = 7, mb_transaction_index = 0,
     mb_messages = [\<lparr>pm_authenticated_signer = None, pm_grant = 0, pm_refund_grant_to = None, pm_kind = Protected,
       pm_index = 0, pm_message = System_msg (Msg_Credit None 5 None)\<rparr>]\<rparr>"

definition protected_origin :: Origin where
  "protected_origin = \<lparr>sender = 6, origin_medium = Direct\<rparr>"

lemma sample_receive:
  "\<exists>s. receive_message_bundle sample_chain_env protected_origin protected_bundle 9 False sample_chain = (Inr False, s)
    \<and> cs_unskippable_bundles s = [\<lparr>ts_entry = BundleInInbox_new protected_origin protected_bundle, ts_seen = 9\<rparr>]
    \<and> cs_removed_unskippable_bundles s = {}"
  by (simp add: receive_message_bundle_def sr_simps sr_bind_def sr_ok_def sr_modify_def sr_ensure_def handle_open_chain_def
      matches_open_chain_def unsubscribe_names_def subscribe_names_def matches_subscribe_def matches_unsubscribe_def
      map_filter_def process_unsubscribes_def process_subscribes_def goes_to_inbox_def Message_goes_to_inbox_def
      protected_bundle_def add_to_inbox_def add_bundle_def finish_add_def InboxStateView_new_def entry_or_def
      sample_chain_def Cursor_from_def Cursor_default_def less_Cursor_def Cursor_try_add_one_def checked_add_def
      is_skippable_def PostedMessage_is_skippable_def result_simps)

theorem unskippable_queue_exact_witness:
  "\<exists>(s :: ChainStateView) b. cs_unskippable_bundles s = [\<lparr>ts_entry = BundleInInbox_new protected_origin protected_bundle, ts_seen = 9\<rparr>]
    \<and> b \<in> set (added_bundles (entry_or InboxStateView_new (cs_inboxes s) protected_origin)) \<and> \<not> is_skippable b"
proof -
  obtain s where r: "receive_message_bundle sample_chain_env protected_origin protected_bundle 9 False sample_chain = (Inr False, s)"
      and q: "cs_unskippable_bundles s = [\<lparr>ts_entry = BundleInInbox_new protected_origin protected_bundle, ts_seen = 9\<rparr>]"
        "cs_removed_unskippable_bundles s = {}"
    using sample_receive by blast
  have "chain_reachable sample_chain_env s"
    by (rule reach_step [OF sample_start step_receive [OF r]]) (simp add: sample_chain_def)
  then have "{BundleInInbox_new protected_origin protected_bundle} = {BundleInInbox_new origin b | origin b.
      b \<in> set (added_bundles (inbox_at s origin)) \<and> \<not> is_skippable b}"
    using unskippable_queue_exact [of sample_chain_env s] by (simp add: q)
  then obtain origin b where
      "BundleInInbox_new protected_origin protected_bundle = BundleInInbox_new origin b"
      "b \<in> set (added_bundles (entry_or InboxStateView_new (cs_inboxes s) origin))" "\<not> is_skippable b"
    by blast
  then have "b \<in> set (added_bundles (inbox_at s protected_origin))" "\<not> is_skippable b"
    by (auto simp: BundleInInbox_new_def)
  then show ?thesis using q by blast
qed

end
