(* ===== verification/Kv_Keys.thy ===== *)
theory Kv_Keys
  imports Prelude "HOL-Library.Sublist"
begin

text \<open>
  Keys of the key-value store (\<^verbatim>\<open>linera-views/src/common.rs\<close>): byte strings in lexicographic
  order, the interval of the keys with a given prefix, sets of deleted prefixes and the iterator
  that searches them. A \<^verbatim>\<open>BTreeSet\<close> of keys is a strictly increasing list.
\<close>

section \<open>Intervals\<close>

datatype Bound = Included bytes | Excluded bytes | Unbounded

text \<open>The loop of \<open>get_upper_bound_option\<close> runs over the indices below its argument, downwards.\<close>

fun upper_bound_loop :: "bytes \<Rightarrow> nat \<Rightarrow> bytes option" where
  "upper_bound_loop key_prefix 0 = None"
| "upper_bound_loop key_prefix (Suc i) =
     (let val = key_prefix ! i in
      if val < - 1 then Some ((take (i + 1) key_prefix)[i := val + 1])
      else upper_bound_loop key_prefix i)"

definition get_upper_bound_option :: "bytes \<Rightarrow> bytes option" where
  "get_upper_bound_option key_prefix = upper_bound_loop key_prefix (length key_prefix)"

definition get_upper_bound :: "bytes \<Rightarrow> Bound" where
  "get_upper_bound key_prefix =
     (case get_upper_bound_option key_prefix of None \<Rightarrow> Unbounded | Some upper_bound \<Rightarrow> Excluded upper_bound)"

definition get_interval :: "bytes \<Rightarrow> Bound \<times> Bound" where
  "get_interval key_prefix = (Included key_prefix, get_upper_bound key_prefix)"

text \<open>Membership in a range of the standard library.\<close>

definition in_range :: "Bound \<times> Bound \<Rightarrow> bytes \<Rightarrow> bool" where
  "in_range r k \<longleftrightarrow>
     (case fst r of Included a \<Rightarrow> a \<le> k | Excluded a \<Rightarrow> a < k | Unbounded \<Rightarrow> True)
     \<and> (case snd r of Included b \<Rightarrow> k \<le> b | Excluded b \<Rightarrow> k < b | Unbounded \<Rightarrow> True)"

section \<open>Sets of prefixes\<close>

record SuffixClosedSetIterator =
  sc_prefix_len :: nat
  sc_previous :: "bytes option"
  sc_current :: "bytes option"
  sc_iter :: "bytes list"

definition SuffixClosedSetIterator_new :: "nat \<Rightarrow> bytes list \<Rightarrow> SuffixClosedSetIterator" where
  "SuffixClosedSetIterator_new prefix_len iter =
     (case iter of
        [] \<Rightarrow> \<lparr>sc_prefix_len = prefix_len, sc_previous = None, sc_current = None, sc_iter = []\<rparr>
      | x # rest \<Rightarrow> \<lparr>sc_prefix_len = prefix_len, sc_previous = None, sc_current = Some x, sc_iter = rest\<rparr>)"

fun lower_bound_loop ::
  "nat \<Rightarrow> bytes \<Rightarrow> bytes option \<Rightarrow> bytes option \<Rightarrow> bytes list \<Rightarrow> bytes option \<times> bytes option \<times> bytes list" where
  "lower_bound_loop prefix_len val previous None iter = (previous, None, iter)"
| "lower_bound_loop prefix_len val previous (Some x) iter =
     (if drop prefix_len x > val then (previous, Some x, iter)
      else case iter of
        [] \<Rightarrow> (Some x, None, [])
      | y # rest \<Rightarrow> lower_bound_loop prefix_len val (Some x) (Some y) rest)"

definition find_lower_bound ::
  "SuffixClosedSetIterator \<Rightarrow> bytes \<Rightarrow> bytes option \<times> SuffixClosedSetIterator" where
  "find_lower_bound self val =
     (let (previous, current, iter) =
        lower_bound_loop (sc_prefix_len self) val (sc_previous self) (sc_current self) (sc_iter self)
      in (previous, self\<lparr>sc_previous := previous, sc_current := current, sc_iter := iter\<rparr>))"

definition find_key :: "SuffixClosedSetIterator \<Rightarrow> bytes \<Rightarrow> bool \<times> SuffixClosedSetIterator" where
  "find_key self index =
     (let (lower_bound, self) = find_lower_bound self index in
      (case lower_bound of
         None \<Rightarrow> False
       | Some key_prefix \<Rightarrow> prefix (drop (sc_prefix_len self) key_prefix) index, self))"

definition contains_prefix_of :: "bytes list \<Rightarrow> bytes \<Rightarrow> bool" where
  "contains_prefix_of pres key = fst (find_key (SuffixClosedSetIterator_new 0 pres) key)"

definition insert_key_prefix :: "bytes list \<Rightarrow> bytes \<Rightarrow> bytes list" where
  "insert_key_prefix pres pre =
     (if \<not> contains_prefix_of pres pre
      then let key_prefix_list = filter (in_range (get_interval pre)) pres in
        insort_insert pre (fold removeAll key_prefix_list pres)
      else pres)"

record DeletionSet =
  delete_storage_first :: bool
  deleted_prefixes :: "bytes list"

definition DeletionSet_new :: DeletionSet where
  "DeletionSet_new = \<lparr>delete_storage_first = False, deleted_prefixes = []\<rparr>"

definition ds_clear :: "DeletionSet \<Rightarrow> DeletionSet" where
  "ds_clear self = self\<lparr>delete_storage_first := True, deleted_prefixes := []\<rparr>"

definition ds_rollback :: "DeletionSet \<Rightarrow> DeletionSet" where
  "ds_rollback self = self\<lparr>delete_storage_first := False, deleted_prefixes := []\<rparr>"

definition ds_contains_prefix_of :: "DeletionSet \<Rightarrow> bytes \<Rightarrow> bool" where
  "ds_contains_prefix_of self index \<longleftrightarrow>
     delete_storage_first self \<or> contains_prefix_of (deleted_prefixes self) index"

definition ds_has_pending_changes :: "DeletionSet \<Rightarrow> bool" where
  "ds_has_pending_changes self \<longleftrightarrow> delete_storage_first self \<or> deleted_prefixes self \<noteq> []"

definition ds_insert_key_prefix :: "DeletionSet \<Rightarrow> bytes \<Rightarrow> DeletionSet" where
  "ds_insert_key_prefix self key_prefix =
     (if \<not> delete_storage_first self
      then self\<lparr>deleted_prefixes := insert_key_prefix (deleted_prefixes self) key_prefix\<rparr>
      else self)"

section \<open>Sizes of serialized lengths\<close>

text \<open>The loop starts with a positive \<open>pow\<close>, which stays positive; the test makes it total.\<close>

function uleb128_loop :: "nat \<Rightarrow> nat \<Rightarrow> nat \<Rightarrow> nat" where
  "uleb128_loop len pow expo =
     (if 0 < pow \<and> pow \<le> len then uleb128_loop len (pow * 128) (expo + 1) else expo)"
  by pat_completeness auto
termination
  by (relation "measure (\<lambda>(len, pow, expo). Suc len - pow)") auto

declare uleb128_loop.simps [simp del]

definition get_uleb128_size :: "nat \<Rightarrow> nat" where
  "get_uleb128_size len = uleb128_loop len 128 1"

section \<open>A prefix is an interval\<close>

lemma upper_bound_loop_Cons:
  "i \<le> length p \<Longrightarrow> upper_bound_loop (x # p) (Suc i) =
     (case upper_bound_loop p i of Some u \<Rightarrow> Some (x # u) | None \<Rightarrow> if x < - 1 then Some [x + 1] else None)"
proof (induction i)
  case (Suc i)
  have "upper_bound_loop (x # p) (Suc (Suc i)) =
      (if p ! i < - 1 then Some (x # (take (i + 1) p)[i := p ! i + 1]) else upper_bound_loop (x # p) (Suc i))"
    by (simp del: upper_bound_loop.simps add: upper_bound_loop.simps(2) [of _ "Suc i"])
  then show ?case using Suc by (simp del: upper_bound_loop.simps add: upper_bound_loop.simps(2) [of p])
qed simp

lemma upper_bound_Cons:
  "get_upper_bound_option (x # p) =
     (case get_upper_bound_option p of Some u \<Rightarrow> Some (x # u) | None \<Rightarrow> if x < - 1 then Some [x + 1] else None)"
  using upper_bound_loop_Cons [of "length p" p x] by (simp add: get_upper_bound_option_def del: upper_bound_loop.simps)

lemma less_succ_word: "x < - 1 \<Longrightarrow> y < x + 1 \<longleftrightarrow> y \<le> (x :: 'a::len word)"
proof -
  assume "x < - 1"
  then have "1 + x \<noteq> 0" by (metis add.inverse_unique less_irrefl)
  then have "unat (x + 1) = Suc (unat x)" using unatSuc [of x] by (simp add: add.commute)
  then show ?thesis by (simp add: word_less_nat_alt word_le_nat_alt less_Suc_eq_le)
qed

lemma upper_bound_prefix:
  "(p \<le> v \<and> (case get_upper_bound_option p of None \<Rightarrow> True | Some u \<Rightarrow> v < u)) \<longleftrightarrow> prefix p v"
proof (induction p arbitrary: v)
  case Nil
  then show ?case by (simp add: get_upper_bound_option_def)
next
  case (Cons x p)
  show ?case
  proof (cases v)
    case Nil
    then show ?thesis by simp
  next
    case (Cons y w)
    show ?thesis
    proof (cases "get_upper_bound_option p")
      case None
      have "x = - 1 \<Longrightarrow> \<not> x < y" using word_order.extremum [of y] by simp
      then show ?thesis
        using None Cons.IH [of w] word_order.not_eq_extremum [of x]
        by (auto simp: Cons upper_bound_Cons less_succ_word)
    next
      case (Some u)
      then show ?thesis using Cons.IH [of w] by (auto simp: Cons upper_bound_Cons)
    qed
  qed
qed

lemma in_interval [simp]: "in_range (get_interval p) v \<longleftrightarrow> prefix p v"
  using upper_bound_prefix [of p v]
  by (auto simp: in_range_def get_interval_def get_upper_bound_def split: option.splits)

lemma prefix_le: "prefix p k \<Longrightarrow> p \<le> (k :: bytes)"
  using upper_bound_prefix [of p k] by simp

lemma prefix_between:
  assumes "prefix p k" and "p \<le> q" and "q \<le> (k :: bytes)"
  shows "prefix p q"
proof -
  have "case get_upper_bound_option p of None \<Rightarrow> True | Some u \<Rightarrow> k < u" using upper_bound_prefix [of p k] assms(1) by simp
  then have "case get_upper_bound_option p of None \<Rightarrow> True | Some u \<Rightarrow> q < u"
    using assms(3) by (auto split: option.splits)
  then show ?thesis using upper_bound_prefix [of p q] assms(2) by simp
qed

section \<open>Searching a set of prefixes\<close>

text \<open>A minimal set of prefixes: strictly increasing, and no element is a prefix of another.\<close>

definition prefix_free :: "(bytes \<Rightarrow> bytes) \<Rightarrow> bytes list \<Rightarrow> bool" where
  "prefix_free f ps \<longleftrightarrow> sorted_wrt (\<lambda>p q. f p < f q) ps
     \<and> (\<forall>p \<in> set ps. \<forall>q \<in> set ps. prefix (f p) (f q) \<longrightarrow> p = q)"

definition sc_pending :: "SuffixClosedSetIterator \<Rightarrow> bytes list" where
  "sc_pending it = (case sc_current it of None \<Rightarrow> [] | Some x \<Rightarrow> x # sc_iter it)"

text \<open>The iterator has passed the elements up to the last query.\<close>

definition sc_inv :: "nat \<Rightarrow> bytes list \<Rightarrow> bytes \<Rightarrow> SuffixClosedSetIterator \<Rightarrow> bool" where
  "sc_inv n S val it \<longleftrightarrow> sc_prefix_len it = n \<and> (\<exists>passed. S = passed @ sc_pending it
     \<and> sc_previous it = (if passed = [] then None else Some (last passed)) \<and> (\<forall>x \<in> set passed. drop n x \<le> val))"

lemma lower_bound_loop_spec:
  assumes "lower_bound_loop n val prev cur iter = (prev', cur', iter')"
    and "sorted_wrt (\<lambda>p q. drop n p < drop n q) (case cur of None \<Rightarrow> [] | Some x \<Rightarrow> x # iter)"
  shows "\<exists>passed. (case cur of None \<Rightarrow> [] | Some x \<Rightarrow> x # iter) = passed @ (case cur' of None \<Rightarrow> [] | Some x \<Rightarrow> x # iter')
    \<and> prev' = (if passed = [] then prev else Some (last passed)) \<and> (\<forall>x \<in> set passed. drop n x \<le> val)
    \<and> (\<forall>x \<in> set (case cur' of None \<Rightarrow> [] | Some x \<Rightarrow> x # iter'). val < drop n x)"
  using assms
proof (induction n val prev cur iter rule: lower_bound_loop.induct)
  case (1 n val prev iter)
  then show ?case by (intro exI [of _ "[]"]) simp
next
  case (2 n val prev x iter)
  show ?case
  proof (cases "drop n x > val")
    case True
    then have "\<forall>y \<in> set iter. val < drop n y" using 2(3) by (auto intro: less_trans)
    then show ?thesis using 2(2) True by (intro exI [of _ "[]"]) auto
  next
    case gt: False
    show ?thesis
    proof (cases iter)
      case Nil
      then show ?thesis using 2(2) gt by (intro exI [of _ "[x]"]) auto
    next
      case (Cons y rest)
      then obtain passed where "y # rest = passed @ (case cur' of None \<Rightarrow> [] | Some x \<Rightarrow> x # iter')"
          "prev' = (if passed = [] then Some x else Some (last passed))" "\<forall>x \<in> set passed. drop n x \<le> val"
          "\<forall>x \<in> set (case cur' of None \<Rightarrow> [] | Some x \<Rightarrow> x # iter'). val < drop n x"
        using 2(1) [OF gt Cons] 2(2,3) gt by auto
      then show ?thesis using Cons gt by (intro exI [of _ "x # passed"]) auto
    qed
  qed
qed

lemma sc_inv_new [simp]: "sc_inv n S val (SuffixClosedSetIterator_new n S)"
  by (cases S) (simp_all add: sc_inv_def SuffixClosedSetIterator_new_def sc_pending_def)

text \<open>Queries in increasing order: each answers whether some element is a prefix of the key.\<close>

lemma find_key_spec:
  assumes inv: "sc_inv n S val0 it" and ok: "prefix_free (drop n) S" and le: "val0 \<le> val"
    and f: "find_key it val = (found, it')"
  shows "found \<longleftrightarrow> (\<exists>p \<in> set S. prefix (drop n p) val)" and "sc_inv n S val it'"
proof -
  obtain done0 where d0: "S = done0 @ sc_pending it" "sc_previous it = (if done0 = [] then None else Some (last done0))"
      "\<forall>x \<in> set done0. drop n x \<le> val0" and n: "sc_prefix_len it = n"
    using inv by (auto simp: sc_inv_def)
  obtain prev cur iter where l: "lower_bound_loop n val (sc_previous it) (sc_current it) (sc_iter it) = (prev, cur, iter)"
    by (cases "lower_bound_loop n val (sc_previous it) (sc_current it) (sc_iter it)")
  have it': "it' = it\<lparr>sc_previous := prev, sc_current := cur, sc_iter := iter\<rparr>"
    and found: "found \<longleftrightarrow> (case prev of None \<Rightarrow> False | Some p \<Rightarrow> prefix (drop n p) val)"
    using f l n by (auto simp: find_key_def find_lower_bound_def split: option.splits)
  have "sorted_wrt (\<lambda>p q. drop n p < drop n q) (sc_pending it)"
    using ok unfolding d0(1) by (simp add: prefix_free_def sorted_wrt_append)
  moreover have p': "sc_pending it' = (case cur of None \<Rightarrow> [] | Some x \<Rightarrow> x # iter)"
    by (simp add: sc_pending_def it' split: option.split)
  ultimately obtain done1 where d1: "sc_pending it = done1 @ sc_pending it'"
      "prev = (if done1 = [] then sc_previous it else Some (last done1))" "\<forall>x \<in> set done1. drop n x \<le> val"
      and gt: "\<forall>x \<in> set (sc_pending it'). val < drop n x"
    using lower_bound_loop_spec [OF l, folded sc_pending_def p'] by blast
  let ?done = "done0 @ done1"
  have S: "S = ?done @ sc_pending it'" and prev: "prev = (if ?done = [] then None else Some (last ?done))"
    using d0 d1 by auto
  have dle: "drop n x \<le> val" if "x \<in> set ?done" for x
    using that d0(3) d1(3) le by auto
  show "sc_inv n S val it'" using S prev dle n by (auto simp: sc_inv_def it')
  show "found \<longleftrightarrow> (\<exists>p \<in> set S. prefix (drop n p) val)"
  proof
    assume "found"
    then have ne: "?done \<noteq> []" and "prefix (drop n (last ?done)) val" by (auto simp: found prev split: if_splits)
    moreover have "last ?done \<in> set S" using last_in_set [OF ne] unfolding S by auto
    ultimately show "\<exists>p \<in> set S. prefix (drop n p) val" by blast
  next
    assume "\<exists>p \<in> set S. prefix (drop n p) val"
    then obtain p where p: "p \<in> set S" "prefix (drop n p) val" by blast
    then have "p \<in> set ?done" using gt S prefix_le [OF p(2)] by auto
    then have ne: "?done \<noteq> []" by auto
    then have q: "last ?done \<in> set ?done" by (rule last_in_set)
    let ?q = "last ?done"
    have "drop n p \<le> drop n ?q"
    proof -
      have "sorted_wrt (\<lambda>p q. drop n p < drop n q) (butlast ?done @ [?q])"
        using ok ne unfolding prefix_free_def S by (simp add: sorted_wrt_append del: append_assoc)
      moreover have "p \<in> set (butlast ?done @ [?q])" using \<open>p \<in> set ?done\<close> ne by (simp del: append_assoc)
      ultimately show ?thesis by (auto simp: sorted_wrt_append simp del: append_assoc)
    qed
    then have "prefix (drop n p) (drop n ?q)" by (rule prefix_between [OF p(2) _ dle [OF q]])
    moreover have "?q \<in> set S" using q unfolding S by auto
    ultimately have "p = ?q" using ok p(1) by (simp add: prefix_free_def)
    then show "found" using p(2) ne by (simp add: found prev)
  qed
qed

abbreviation minimal :: "bytes list \<Rightarrow> bool" where
  "minimal ps \<equiv> prefix_free (\<lambda>p. p) ps"

lemma contains_prefix_of_iff:
  assumes "minimal ps"
  shows "contains_prefix_of ps key \<longleftrightarrow> (\<exists>p \<in> set ps. prefix p key)"
proof -
  obtain found it where "find_key (SuffixClosedSetIterator_new 0 ps) key = (found, it)" by fastforce
  then show ?thesis
    using find_key_spec(1) [OF sc_inv_new, of 0 ps key key found it] assms by (simp add: contains_prefix_of_def)
qed

lemma minimal_sorted: "minimal ps \<Longrightarrow> sorted ps \<and> distinct ps"
  by (simp add: prefix_free_def strict_sorted_iff)

lemma set_fold_removeAll [simp]: "set (fold removeAll ks xs) = set xs - set ks"
  by (induction ks arbitrary: xs) auto

lemma fold_removeAll_eq: "fold removeAll ks xs = filter (\<lambda>x. x \<notin> set ks) xs"
  by (induction ks arbitrary: xs) (auto simp: removeAll_filter_not_eq intro: filter_cong)

lemma minimal_insert:
  assumes m: "minimal ps" and n: "\<not> (\<exists>p \<in> set ps. prefix p q)"
  shows "minimal (insort_insert q (filter (\<lambda>p. \<not> prefix q p) ps))"
proof -
  let ?ps = "filter (\<lambda>p. \<not> prefix q p) ps"
  have sd: "sorted ?ps \<and> distinct ?ps" using minimal_sorted [OF m] by (simp add: sorted_wrt_filter)
  then have "sorted_wrt (<) (insort_insert q ?ps)"
    by (simp add: strict_sorted_iff sorted_insort_insert distinct_insort_insert)
  then show ?thesis using m n by (auto simp: prefix_free_def set_insort_insert)
qed

lemma insert_key_prefix_eq:
  assumes m: "minimal ps"
  shows "insert_key_prefix ps q =
    (if \<exists>p \<in> set ps. prefix p q then ps else insort_insert q (filter (\<lambda>p. \<not> prefix q p) ps))"
proof -
  have "fold removeAll (filter (in_range (get_interval q)) ps) ps = filter (\<lambda>p. \<not> prefix q p) ps"
    unfolding fold_removeAll_eq by (rule filter_cong) auto
  then show ?thesis by (simp add: insert_key_prefix_def contains_prefix_of_iff [OF m])
qed

text \<open>Inserting a prefix keeps the set minimal and adds the keys below the prefix to those it covers.\<close>

lemma insert_key_prefix_spec:
  assumes m: "minimal ps"
  shows "minimal (insert_key_prefix ps q)"
    and "(\<exists>p \<in> set (insert_key_prefix ps q). prefix p k) \<longleftrightarrow> prefix q k \<or> (\<exists>p \<in> set ps. prefix p k)"
  using m minimal_insert [OF m, of q]
  by (auto simp: insert_key_prefix_eq [OF m] set_insort_insert dest: prefix_order.trans)

section \<open>The size of a serialized length\<close>

lemma uleb128_loop_spec:
  assumes "0 < pow" and "pow = 128 ^ expo" and "expo = 0 \<or> 128 ^ (expo - 1) \<le> len \<or> expo = 1"
  shows "len < 128 ^ uleb128_loop len pow expo \<and> (uleb128_loop len pow expo = expo \<or>
    128 ^ (uleb128_loop len pow expo - 1) \<le> len)"
  using assms
proof (induction len pow expo rule: uleb128_loop.induct)
  case (1 len pow expo)
  show ?case
  proof (cases "pow \<le> len")
    case True
    have "len < 128 ^ uleb128_loop len (pow * 128) (expo + 1) \<and> (uleb128_loop len (pow * 128) (expo + 1) = expo + 1 \<or>
        128 ^ (uleb128_loop len (pow * 128) (expo + 1) - 1) \<le> len)"
      using 1(1) 1(2-) True by simp
    moreover have "uleb128_loop len pow expo = uleb128_loop len (pow * 128) (expo + 1)"
      using True 1(2) by (subst uleb128_loop.simps) simp
    ultimately show ?thesis using True 1(3) by auto
  next
    case False
    then have "uleb128_loop len pow expo = expo" by (subst uleb128_loop.simps) simp
    then show ?thesis using False 1(3) by simp
  qed
qed

text \<open>The number of seven-bit groups of the length.\<close>

lemma get_uleb128_size_spec:
  "1 \<le> get_uleb128_size len" "len < 128 ^ get_uleb128_size len"
  "get_uleb128_size len = 1 \<or> 128 ^ (get_uleb128_size len - 1) \<le> len"
proof -
  have "1 \<le> uleb128_loop len pow expo" if "1 \<le> expo" for pow expo
    using that by (induction len pow expo rule: uleb128_loop.induct) (subst uleb128_loop.simps, simp)
  then show "1 \<le> get_uleb128_size len" by (simp add: get_uleb128_size_def)
  show "len < 128 ^ get_uleb128_size len" "get_uleb128_size len = 1 \<or> 128 ^ (get_uleb128_size len - 1) \<le> len"
    using uleb128_loop_spec [of 128 1 len] by (auto simp: get_uleb128_size_def)
qed



end
