(* ===== verification/Kv_Batch.thy ===== *)
theory Kv_Batch
  imports Kv_Keys
begin

text \<open>
  Batches of write operations (\<^verbatim>\<open>linera-views/src/batch.rs\<close>): the operations, their
  simplification into an unordered batch, the expansion of prefix deletions for databases without
  them, and the iterators that cut a batch into blocks. The sizes that \<^verbatim>\<open>bcs\<close> computes and the
  database that lists the keys with a prefix are parameters.
\<close>

section \<open>Operations and batches\<close>

datatype WriteOperation = Delete bytes | DeletePrefix bytes | Put bytes bytes

type_synonym Batch = "WriteOperation list"

record SimpleUnorderedBatch =
  deletions :: "bytes list"
  insertions :: "(bytes \<times> bytes) list"

record UnorderedBatch =
  key_prefix_deletions :: "bytes list"
  simple_unordered_batch :: SimpleUnorderedBatch

definition SimpleUnorderedBatch_default :: SimpleUnorderedBatch where
  "SimpleUnorderedBatch_default = \<lparr>deletions = [], insertions = []\<rparr>"

definition UnorderedBatch_default :: UnorderedBatch where
  "UnorderedBatch_default = \<lparr>key_prefix_deletions = [], simple_unordered_batch = SimpleUnorderedBatch_default\<rparr>"

definition Batch_size :: "Batch \<Rightarrow> nat" where
  "Batch_size self = sum_list (map (\<lambda>operation. case operation of
     Delete key \<Rightarrow> length key | Put key value' \<Rightarrow> length key + length value' | DeletePrefix key_prefix \<Rightarrow> length key_prefix) self)"

fun check_value_size :: "Batch \<Rightarrow> nat \<Rightarrow> bool" where
  "check_value_size [] max_value_size = True"
| "check_value_size (Put key value' # operations) max_value_size =
     (if length value' > max_value_size then False else check_value_size operations max_value_size)"
| "check_value_size (_ # operations) max_value_size = check_value_size operations max_value_size"

definition put_key_value_bytes :: "bytes \<Rightarrow> bytes \<Rightarrow> Batch \<Rightarrow> Batch" where
  "put_key_value_bytes key value' self = self @ [Put key value']"

definition delete_key :: "bytes \<Rightarrow> Batch \<Rightarrow> Batch" where
  "delete_key key self = self @ [Delete key]"

definition delete_key_prefix :: "bytes \<Rightarrow> Batch \<Rightarrow> Batch" where
  "delete_key_prefix key_prefix self = self @ [DeletePrefix key_prefix]"

section \<open>Simplification\<close>

definition is_prefix_matched :: "bytes list \<Rightarrow> bytes \<Rightarrow> bool" where
  "is_prefix_matched key_prefix_set key =
     (case rev (filter (\<lambda>p. p \<le> key) key_prefix_set) of
        [] \<Rightarrow> False
      | value' # _ \<Rightarrow> if length value' > length key then False else value' = take (length value') key)"

fun simplify_step :: "WriteOperation \<Rightarrow> (bytes, bytes option) btree \<times> bytes list
    \<Rightarrow> (bytes, bytes option) btree \<times> bytes list" where
  "simplify_step (Delete key) (delete_and_insert_map, delete_prefix_set) =
     (if is_prefix_matched delete_prefix_set key
      then (bt_remove key delete_and_insert_map, delete_prefix_set)
      else (bt_insert key None delete_and_insert_map, delete_prefix_set))"
| "simplify_step (Put key value') (delete_and_insert_map, delete_prefix_set) =
     (bt_insert key (Some value') delete_and_insert_map, delete_prefix_set)"
| "simplify_step (DeletePrefix key_prefix) (delete_and_insert_map, delete_prefix_set) =
     (let keys = filter (in_range (get_interval key_prefix)) (map fst delete_and_insert_map);
          delete_and_insert_map = fold bt_remove keys delete_and_insert_map in
      if is_prefix_matched delete_prefix_set key_prefix then (delete_and_insert_map, delete_prefix_set)
      else let key_prefixes = filter (in_range (get_interval key_prefix)) delete_prefix_set in
        (delete_and_insert_map, insort_insert key_prefix (fold removeAll key_prefixes delete_prefix_set)))"

fun split_map :: "(bytes, bytes option) btree \<Rightarrow> SimpleUnorderedBatch" where
  "split_map [] = SimpleUnorderedBatch_default"
| "split_map ((key, val) # rest) =
     (let b = split_map rest in
      case val of Some value' \<Rightarrow> b\<lparr>insertions := (key, value') # insertions b\<rparr>
      | None \<Rightarrow> b\<lparr>deletions := key # deletions b\<rparr>)"

definition simplify :: "Batch \<Rightarrow> UnorderedBatch" where
  "simplify self =
     (let (delete_and_insert_map, delete_prefix_set) = fold simplify_step self ([], []) in
      \<lparr>key_prefix_deletions = delete_prefix_set, simple_unordered_batch = split_map delete_and_insert_map\<rparr>)"

section \<open>Expansion of prefix deletions\<close>

text \<open>\<open>expand\<close> is the \<^verbatim>\<open>DeletePrefixExpander\<close> of the database: the keys below a prefix, without it.\<close>

definition not_inserted :: "bytes list \<Rightarrow> bytes \<Rightarrow> bytes list \<Rightarrow> bytes list" where
  "not_inserted insert_set key_prefix short_keys =
     filter (\<lambda>key. key \<notin> set insert_set) (map (\<lambda>short_key. key_prefix @ short_key) short_keys)"

fun expand_all :: "(bytes \<Rightarrow> 'e + bytes list) \<Rightarrow> bytes list \<Rightarrow> bytes list \<Rightarrow> bytes list \<Rightarrow> 'e + bytes list" where
  "expand_all expand insert_set [] dels = Inr dels"
| "expand_all expand insert_set (key_prefix # rest) dels =
     bind_r (expand key_prefix) (\<lambda>short_keys.
     expand_all expand insert_set rest (dels @ not_inserted insert_set key_prefix short_keys))"

definition expand_delete_prefixes ::
  "(bytes \<Rightarrow> 'e + bytes list) \<Rightarrow> UnorderedBatch \<Rightarrow> 'e + SimpleUnorderedBatch" where
  "expand_delete_prefixes expand self =
     (let b = simple_unordered_batch self; insert_set = map fst (insertions b) in
      bind_r (expand_all expand insert_set (key_prefix_deletions self) (deletions b)) (\<lambda>dels.
      Inr \<lparr>deletions = dels, insertions = insertions b\<rparr>))"

fun expand_colliding :: "(bytes \<Rightarrow> 'e + bytes list) \<Rightarrow> bytes list \<Rightarrow> bytes list \<Rightarrow> bytes list \<Rightarrow> bytes list
    \<Rightarrow> 'e + bytes list \<times> bytes list" where
  "expand_colliding expand inserted_keys [] dels kept = Inr (dels, kept)"
| "expand_colliding expand inserted_keys (key_prefix # rest) dels kept =
     (if filter (in_range (get_interval key_prefix)) inserted_keys \<noteq> []
      then bind_r (expand key_prefix) (\<lambda>short_keys.
        expand_colliding expand inserted_keys rest (dels @ not_inserted inserted_keys key_prefix short_keys) kept)
      else expand_colliding expand inserted_keys rest dels (kept @ [key_prefix]))"

definition expand_colliding_prefix_deletions ::
  "(bytes \<Rightarrow> 'e + bytes list) \<Rightarrow> UnorderedBatch \<Rightarrow> 'e + UnorderedBatch" where
  "expand_colliding_prefix_deletions expand self =
     (let b = simple_unordered_batch self in
      bind_r (expand_colliding expand (map fst (insertions b)) (key_prefix_deletions self) (deletions b) [])
        (\<lambda>(dels, kept). Inr \<lparr>key_prefix_deletions = kept, simple_unordered_batch = b\<lparr>deletions := dels\<rparr>\<rparr>))"

definition SimpleUnorderedBatch_from_batch ::
  "(bytes \<Rightarrow> 'e + bytes list) \<Rightarrow> Batch \<Rightarrow> 'e + SimpleUnorderedBatch" where
  "SimpleUnorderedBatch_from_batch expand batch = expand_delete_prefixes expand (simplify batch)"

definition UnorderedBatch_from_batch :: "(bytes \<Rightarrow> 'e + bytes list) \<Rightarrow> Batch \<Rightarrow> 'e + UnorderedBatch" where
  "UnorderedBatch_from_batch expand batch = expand_colliding_prefix_deletions expand (simplify batch)"

section \<open>Sizes and iterators\<close>

definition simple_len :: "SimpleUnorderedBatch \<Rightarrow> nat" where
  "simple_len self = length (deletions self) + length (insertions self)"

definition simple_num_bytes :: "SimpleUnorderedBatch \<Rightarrow> nat" where
  "simple_num_bytes self =
     sum_list (map (\<lambda>(key, value'). length key + length value') (insertions self)) + sum_list (map length (deletions self))"

definition simple_overhead_size :: "SimpleUnorderedBatch \<Rightarrow> nat" where
  "simple_overhead_size self = get_uleb128_size (length (deletions self)) + get_uleb128_size (length (insertions self))"

definition simple_add_delete :: "bytes \<Rightarrow> SimpleUnorderedBatch \<Rightarrow> SimpleUnorderedBatch" where
  "simple_add_delete key self = self\<lparr>deletions := deletions self @ [key]\<rparr>"

definition simple_add_insert :: "bytes \<Rightarrow> bytes \<Rightarrow> SimpleUnorderedBatch \<Rightarrow> SimpleUnorderedBatch" where
  "simple_add_insert key value' self = self\<lparr>insertions := insertions self @ [(key, value')]\<rparr>"

definition ub_len :: "UnorderedBatch \<Rightarrow> nat" where
  "ub_len self = length (key_prefix_deletions self) + simple_len (simple_unordered_batch self)"

definition ub_num_bytes :: "UnorderedBatch \<Rightarrow> nat" where
  "ub_num_bytes self = simple_num_bytes (simple_unordered_batch self) + sum_list (map length (key_prefix_deletions self))"

definition ub_overhead_size :: "UnorderedBatch \<Rightarrow> nat" where
  "ub_overhead_size self =
     get_uleb128_size (length (key_prefix_deletions self)) + simple_overhead_size (simple_unordered_batch self)"

definition ub_add_delete :: "bytes \<Rightarrow> UnorderedBatch \<Rightarrow> UnorderedBatch" where
  "ub_add_delete key self = self\<lparr>simple_unordered_batch := simple_add_delete key (simple_unordered_batch self)\<rparr>"

definition ub_add_insert :: "bytes \<Rightarrow> bytes \<Rightarrow> UnorderedBatch \<Rightarrow> UnorderedBatch" where
  "ub_add_insert key value' self =
     self\<lparr>simple_unordered_batch := simple_add_insert key value' (simple_unordered_batch self)\<rparr>"

text \<open>An owning iterator is the batch of the values left. \<open>serialized_size\<close> is that of \<^verbatim>\<open>bcs\<close>.
  Writing the next value returns the iterator, the batch, its size and whether there was a value.\<close>

definition simple_iter_is_empty :: "SimpleUnorderedBatch \<Rightarrow> bool" where
  "simple_iter_is_empty self \<longleftrightarrow> length (deletions self) = 0 \<and> length (insertions self) = 0"

definition simple_write_next_value :: "(bytes \<Rightarrow> 'e + nat) \<Rightarrow> SimpleUnorderedBatch \<Rightarrow> SimpleUnorderedBatch \<Rightarrow> nat
    \<Rightarrow> 'e + bool \<times> SimpleUnorderedBatch \<times> SimpleUnorderedBatch \<times> nat" where
  "simple_write_next_value serialized_size self batch batch_size =
     (case deletions self of
        delete # rest \<Rightarrow>
          bind_r (serialized_size delete) (\<lambda>n.
          Inr (True, self\<lparr>deletions := rest\<rparr>, simple_add_delete delete batch, batch_size + n))
      | [] \<Rightarrow>
          (case insertions self of
             (key, value') # rest \<Rightarrow>
               bind_r (serialized_size key) (\<lambda>n. bind_r (serialized_size value') (\<lambda>n'.
               Inr (True, self\<lparr>insertions := rest\<rparr>, simple_add_insert key value' batch, batch_size + (n + n'))))
           | [] \<Rightarrow> Inr (False, self, batch, batch_size)))"

definition simple_next_batch_size ::
  "(bytes \<Rightarrow> 'e + nat) \<Rightarrow> SimpleUnorderedBatch \<Rightarrow> SimpleUnorderedBatch \<Rightarrow> nat \<Rightarrow> 'e + nat option" where
  "simple_next_batch_size serialized_size self batch batch_size =
     (case deletions self of
        delete # _ \<Rightarrow>
          bind_r (serialized_size delete) (\<lambda>next_size.
          Inr (Some (batch_size + next_size + get_uleb128_size (length (deletions batch) + 1)
            + get_uleb128_size (length (insertions batch)))))
      | [] \<Rightarrow>
          (case insertions self of
             (key, value') # _ \<Rightarrow>
               bind_r (serialized_size key) (\<lambda>n. bind_r (serialized_size value') (\<lambda>n'.
               Inr (Some (batch_size + (n + n') + get_uleb128_size (length (deletions batch))
                 + get_uleb128_size (length (insertions batch) + 1)))))
           | [] \<Rightarrow> Inr None))"

definition ub_iter_is_empty :: "UnorderedBatch \<Rightarrow> bool" where
  "ub_iter_is_empty self \<longleftrightarrow>
     length (key_prefix_deletions self) = 0 \<and> simple_iter_is_empty (simple_unordered_batch self)"

definition ub_write_next_value :: "(bytes \<Rightarrow> 'e + nat) \<Rightarrow> UnorderedBatch \<Rightarrow> UnorderedBatch \<Rightarrow> nat
    \<Rightarrow> 'e + bool \<times> UnorderedBatch \<times> UnorderedBatch \<times> nat" where
  "ub_write_next_value serialized_size self batch batch_size =
     (case key_prefix_deletions self of
        delete_prefix # rest \<Rightarrow>
          bind_r (serialized_size delete_prefix) (\<lambda>n.
          Inr (True, self\<lparr>key_prefix_deletions := rest\<rparr>,
            batch\<lparr>key_prefix_deletions := key_prefix_deletions batch @ [delete_prefix]\<rparr>, batch_size + n))
      | [] \<Rightarrow>
          bind_r (simple_write_next_value serialized_size (simple_unordered_batch self)
            (simple_unordered_batch batch) batch_size) (\<lambda>(more, iter, simple, batch_size).
          Inr (more, self\<lparr>simple_unordered_batch := iter\<rparr>, batch\<lparr>simple_unordered_batch := simple\<rparr>, batch_size)))"

definition ub_next_batch_size ::
  "(bytes \<Rightarrow> 'e + nat) \<Rightarrow> UnorderedBatch \<Rightarrow> UnorderedBatch \<Rightarrow> nat \<Rightarrow> 'e + nat option" where
  "ub_next_batch_size serialized_size self batch batch_size =
     (case key_prefix_deletions self of
        delete_prefix # _ \<Rightarrow>
          bind_r (serialized_size delete_prefix) (\<lambda>next_size.
          Inr (Some (batch_size + next_size + get_uleb128_size (length (key_prefix_deletions batch) + 1)
            + simple_overhead_size (simple_unordered_batch batch))))
      | [] \<Rightarrow>
          simple_next_batch_size serialized_size (simple_unordered_batch self) (simple_unordered_batch batch)
            (batch_size + get_uleb128_size (length (key_prefix_deletions batch))))"

section \<open>What a batch does\<close>

text \<open>The contents of a store as a map, and the effect of operations in sequence.\<close>

type_synonym contents = "bytes \<Rightarrow> bytes option"

fun apply_op :: "WriteOperation \<Rightarrow> contents \<Rightarrow> contents" where
  "apply_op (Delete key) st = st(key := None)"
| "apply_op (DeletePrefix key_prefix) st = (\<lambda>k. if prefix key_prefix k then None else st k)"
| "apply_op (Put key value') st = st(key := Some value')"

abbreviation apply_ops :: "Batch \<Rightarrow> contents \<Rightarrow> contents" where
  "apply_ops batch \<equiv> fold apply_op batch"

definition simple_ops :: "SimpleUnorderedBatch \<Rightarrow> WriteOperation list" where
  "simple_ops b = map Delete (deletions b) @ map (\<lambda>(key, value'). Put key value') (insertions b)"

definition ub_ops :: "UnorderedBatch \<Rightarrow> WriteOperation list" where
  "ub_ops b = map DeletePrefix (key_prefix_deletions b) @ simple_ops (simple_unordered_batch b)"

text \<open>Operations that may be executed in any order: no key is put twice with different values, or both
  put and deleted.\<close>

definition unordered :: "WriteOperation set \<Rightarrow> bool" where
  "unordered ops \<longleftrightarrow> (\<forall>k v. Put k v \<in> ops \<longrightarrow>
     (\<forall>v'. Put k v' \<in> ops \<longrightarrow> v' = v) \<and> Delete k \<notin> ops \<and> (\<forall>p. DeletePrefix p \<in> ops \<longrightarrow> \<not> prefix p k))"

definition effect :: "WriteOperation set \<Rightarrow> contents \<Rightarrow> contents" where
  "effect ops st k = (if \<exists>v. Put k v \<in> ops then Some (THE v. Put k v \<in> ops)
     else if Delete k \<in> ops \<or> (\<exists>p. DeletePrefix p \<in> ops \<and> prefix p k) then None else st k)"

lemma unordered_subset: "unordered ops \<Longrightarrow> ops' \<subseteq> ops \<Longrightarrow> unordered ops'"
  unfolding unordered_def by (meson subsetD)

lemma effect_put: "unordered ops \<Longrightarrow> Put k v \<in> ops \<Longrightarrow> effect ops st k = Some v"
  unfolding effect_def unordered_def by (metis (mono_tags, lifting) the_equality)

lemma apply_ops_effect: "unordered (set ops) \<Longrightarrow> apply_ops ops st = effect (set ops) st"
proof (induction ops rule: rev_induct)
  case Nil
  then show ?case by (simp add: effect_def fun_eq_iff)
next
  case (snoc op ops)
  have un: "unordered (set ops)" by (rule unordered_subset [OF snoc.prems]) auto
  have eq: "apply_ops ops st = effect (set ops) st" by (rule snoc.IH [OF un])
  show ?case
  proof
    fix k
    show "apply_ops (ops @ [op]) st k = effect (set (ops @ [op])) st k"
    proof (cases "\<exists>v. Put k v \<in> set (ops @ [op])")
      case True
      then obtain v where v: "Put k v \<in> set (ops @ [op])" by blast
      have "apply_ops (ops @ [op]) st k = Some v"
      proof (cases "op = Put k v")
        case False
        then have 1: "effect (set ops) st k = Some v" using v effect_put [OF un, of k v] by simp
        have "\<And>v'. op = Put k v' \<Longrightarrow> v' = v" "op \<noteq> Delete k" "\<And>p. op = DeletePrefix p \<Longrightarrow> \<not> prefix p k"
          using snoc.prems v unfolding unordered_def by auto
        then show ?thesis using 1 by (cases op) (auto simp: eq)
      qed simp
      then show ?thesis using effect_put [OF snoc.prems v] by simp
    next
      case False
      then show ?thesis by (cases op) (auto simp: eq effect_def)
    qed
  qed
qed

lemma apply_ops_any_order:
  "unordered (set ops) \<Longrightarrow> set ops' = set ops \<Longrightarrow> apply_ops ops' st = apply_ops ops st"
  by (simp add: apply_ops_effect)

lemma apply_prefixes:
  "apply_ops (map DeletePrefix ps) st = (\<lambda>k. if \<exists>p \<in> set ps. prefix p k then None else st k)"
  by (induction ps arbitrary: st) auto

section \<open>Simplification is sound\<close>

lemma is_prefix_matched_iff:
  assumes m: "minimal ps"
  shows "is_prefix_matched ps key \<longleftrightarrow> (\<exists>p \<in> set ps. prefix p key)"
proof (cases "filter (\<lambda>p. p \<le> key) ps" rule: rev_cases)
  case Nil
  then have "\<not> prefix p key" if "p \<in> set ps" for p
    using that prefix_le [of p key] by (auto simp: filter_empty_conv)
  then show ?thesis using Nil by (auto simp: is_prefix_matched_def)
next
  case (snoc low q)
  have q: "q \<in> set ps" "q \<le> key"
    using snoc by (metis (no_types, lifting) in_set_conv_decomp mem_Collect_eq set_filter)+
  have srt: "sorted_wrt (<) (low @ [q])"
    using m unfolding snoc [symmetric] by (simp add: prefix_free_def sorted_wrt_filter)
  have "(\<not> length key < length q \<and> q = take (length q) key) \<longleftrightarrow> prefix q key"
    by (metis append_eq_conv_conj not_less prefix_def prefix_length_le take_is_prefix)
  then have "is_prefix_matched ps key \<longleftrightarrow> prefix q key"
    using snoc by (auto simp: is_prefix_matched_def)
  also have "\<dots> \<longleftrightarrow> (\<exists>p \<in> set ps. prefix p key)"
  proof
    assume "\<exists>p \<in> set ps. prefix p key"
    then obtain p where p: "p \<in> set ps" "prefix p key" by blast
    then have "p \<in> set (low @ [q])" unfolding snoc [symmetric] using prefix_le by simp
    then have "p \<le> q" using srt by (auto simp: sorted_wrt_append)
    then have "prefix p q" by (rule prefix_between [OF p(2) _ q(2)])
    then show "prefix q key" using m p q(1) by (auto simp: prefix_free_def)
  qed (use q in blast)
  finally show ?thesis .
qed

text \<open>The state of the simplification and the contents it stands for.\<close>

definition simplify_inv :: "(bytes, bytes option) btree \<times> bytes list \<Rightarrow> bool" where
  "simplify_inv s \<longleftrightarrow> bt_ok (fst s) \<and> minimal (snd s)
     \<and> (\<forall>k. bt_get (fst s) k = Some None \<longrightarrow> \<not> (\<exists>p \<in> set (snd s). prefix p k))"

definition simplify_effect :: "(bytes, bytes option) btree \<times> bytes list \<Rightarrow> contents \<Rightarrow> contents" where
  "simplify_effect s st k = (case bt_get (fst s) k of Some v \<Rightarrow> v
     | None \<Rightarrow> if \<exists>p \<in> set (snd s). prefix p k then None else st k)"

lemma bt_get_fold_remove: "bt_get (fold bt_remove ks m) k = (if k \<in> set ks then None else bt_get m k)"
  by (induction ks arbitrary: m) auto

lemma bt_ok_fold_remove: "bt_ok m \<Longrightarrow> bt_ok (fold bt_remove ks m)"
  by (induction ks arbitrary: m) auto

lemma remove_covered:
  "bt_get (fold bt_remove (filter (in_range (get_interval p)) (map fst m)) m) k = (if prefix p k then None else bt_get m k)"
  by (auto simp: bt_get_fold_remove map_of_eq_None_iff)

lemma simplify_step_sound:
  assumes "simplify_inv s"
  shows "simplify_inv (simplify_step op s)" and "simplify_effect (simplify_step op s) st = apply_op op (simplify_effect s st)"
proof -
  obtain m ps where s: "s = (m, ps)" by fastforce
  have ok: "bt_ok m" "minimal ps" and del: "\<And>k p. bt_get m k = Some None \<Longrightarrow> p \<in> set ps \<Longrightarrow> \<not> prefix p k"
    using assms by (auto simp: simplify_inv_def s)
  note im = is_prefix_matched_iff [OF ok(2)]
  have "simplify_inv (simplify_step op s) \<and> simplify_effect (simplify_step op s) st = apply_op op (simplify_effect s st)"
  proof (cases op)
    case (Delete key)
    then show ?thesis using ok del by (auto simp: s simplify_inv_def simplify_effect_def im fun_eq_iff)
  next
    case (Put key v)
    then show ?thesis using ok del by (auto simp: s simplify_inv_def simplify_effect_def fun_eq_iff)
  next
    case (DeletePrefix p)
    let ?m = "fold bt_remove (filter (in_range (get_interval p)) (map fst m)) m"
    have step: "simplify_step op s = (?m, insert_key_prefix ps p)"
      using DeletePrefix im by (simp add: s insert_key_prefix_def contains_prefix_of_iff [OF ok(2)] Let_def del: in_interval)
    note ip = insert_key_prefix_spec [OF ok(2), of p]
    have "bt_ok ?m" by (rule bt_ok_fold_remove [OF ok(1)])
    then have "simplify_inv (simplify_step op s)"
      unfolding step using ip del by (auto simp: simplify_inv_def remove_covered split: if_splits)
    moreover have "simplify_effect (simplify_step op s) st = apply_op op (simplify_effect s st)"
      unfolding step by (auto simp: simplify_effect_def remove_covered ip(2) s DeletePrefix fun_eq_iff split: option.splits)
    ultimately show ?thesis ..
  qed
  then show "simplify_inv (simplify_step op s)" "simplify_effect (simplify_step op s) st = apply_op op (simplify_effect s st)"
    by simp_all
qed

lemma fold_simplify_sound:
  "simplify_inv s \<Longrightarrow> simplify_inv (fold simplify_step ops s)
     \<and> simplify_effect (fold simplify_step ops s) st = apply_ops ops (simplify_effect s st)"
proof (induction ops arbitrary: s)
  case (Cons op ops)
  then show ?case
    using simplify_step_sound(1) [OF Cons.prems, of op] simplify_step_sound(2) [OF Cons.prems, of op st] by simp
qed simp

lemma split_map_sets:
  "set (deletions (split_map m)) = {k. (k, None) \<in> set m}"
  "set (insertions (split_map m)) = {(k, v). (k, Some v) \<in> set m}"
  by (induction m rule: split_map.induct) (auto simp: SimpleUnorderedBatch_default_def Let_def split: option.splits)

lemma split_map_ops: "bt_ok m \<Longrightarrow> Put k v \<in> set (simple_ops (split_map m)) \<longleftrightarrow> bt_get m k = Some (Some v)"
  "bt_ok m \<Longrightarrow> Delete k \<in> set (simple_ops (split_map m)) \<longleftrightarrow> bt_get m k = Some None"
  "DeletePrefix k \<notin> set (simple_ops (split_map m))"
  using bt_ok_distinct [of m] by (force simp: simple_ops_def split_map_sets)+

lemma split_map_unordered: "bt_ok m \<Longrightarrow> unordered (set (simple_ops (split_map m)))"
  by (auto simp: unordered_def split_map_ops)

text \<open>What the simplified batch is made of: a minimal set of prefixes, and operations on distinct keys;
  a deleted key is not below a deleted prefix.\<close>

definition simplified :: "UnorderedBatch \<Rightarrow> bool" where
  "simplified u \<longleftrightarrow> minimal (key_prefix_deletions u) \<and> unordered (set (simple_ops (simple_unordered_batch u)))
     \<and> (\<forall>k \<in> set (deletions (simple_unordered_batch u)). \<not> (\<exists>p \<in> set (key_prefix_deletions u). prefix p k))"

lemma simplify_sound:
  shows "simplified (simplify batch)"
    and "apply_ops (ub_ops (simplify batch)) st = apply_ops batch st"
proof -
  obtain m ps where f: "fold simplify_step batch ([], []) = (m, ps)" by fastforce
  have init: "simplify_inv ([], [])" "simplify_effect ([], []) st = st"
    by (simp_all add: simplify_inv_def prefix_free_def simplify_effect_def fun_eq_iff)
  have inv: "simplify_inv (m, ps)" and eff: "simplify_effect (m, ps) st = apply_ops batch st"
    using fold_simplify_sound [OF init(1), of batch st] f init(2) by simp_all
  have ok: "bt_ok m" using inv by (simp add: simplify_inv_def)
  have u: "simplify batch = \<lparr>key_prefix_deletions = ps, simple_unordered_batch = split_map m\<rparr>"
    using f by (simp add: simplify_def)
  have "bt_get m k = Some None" if "k \<in> set (deletions (split_map m))" for k
    using that ok bt_ok_distinct [OF ok] by (simp add: split_map_sets)
  then show "simplified (simplify batch)"
    using inv split_map_unordered [OF ok] by (auto simp: simplified_def u simplify_inv_def)
  have "apply_ops (ub_ops (simplify batch)) st =
      effect (set (simple_ops (split_map m))) (\<lambda>k. if \<exists>p \<in> set ps. prefix p k then None else st k)"
    by (simp add: ub_ops_def u apply_prefixes apply_ops_effect split_map_unordered [OF ok])
  also have "\<dots> = simplify_effect (m, ps) st"
  proof
    fix k
    show "effect (set (simple_ops (split_map m))) (\<lambda>k. if \<exists>p \<in> set ps. prefix p k then None else st k) k
        = simplify_effect (m, ps) st k"
      by (cases "bt_get m k") (auto simp: effect_def simplify_effect_def split_map_ops(1,2) [OF ok] split_map_ops(3)
        split: option.splits)
  qed
  finally show "apply_ops (ub_ops (simplify batch)) st = apply_ops batch st" using eff by simp
qed

section \<open>Expansion is sound\<close>

text \<open>What the expansion of a prefix promises: when it succeeds, exactly the keys of the store below it.\<close>

definition expands :: "(bytes \<Rightarrow> 'e + bytes list) \<Rightarrow> contents \<Rightarrow> bool" where
  "expands expand st \<longleftrightarrow> (\<forall>p ks. expand p = Inr ks \<longrightarrow> set ks = {k. st (p @ k) \<noteq> None})"

lemma set_not_inserted:
  "set ks = {k. st (p @ k) \<noteq> None} \<Longrightarrow>
   set (not_inserted ins p ks) = {k. prefix p k \<and> st k \<noteq> None \<and> k \<notin> set ins}"
  by (auto simp: not_inserted_def prefix_def)

lemma expand_all_sound:
  assumes e: "expands expand st" and "expand_all expand ins ps dels = Inr dels'"
  shows "set dels' = set dels \<union> {k. (\<exists>p \<in> set ps. prefix p k) \<and> st k \<noteq> None \<and> k \<notin> set ins}"
  using assms(2)
proof (induction ps arbitrary: dels)
  case (Cons p ps)
  then obtain ks where ks: "expand p = Inr ks" and rest: "expand_all expand ins ps (dels @ not_inserted ins p ks) = Inr dels'"
    by (auto simp: result_simps)
  have "set ks = {k. st (p @ k) \<noteq> None}" using e ks unfolding expands_def by blast
  from Cons.IH [OF rest] set_not_inserted [OF this, of ins] show ?case by auto
qed simp

lemma covered_insert:
  "C p \<Longrightarrow> (A \<union> {k. prefix p k \<and> D k}) \<union> {k. (\<exists>q \<in> S. prefix q k \<and> C q) \<and> D k}
     = A \<union> {k. (\<exists>q \<in> insert p S. prefix q k \<and> C q) \<and> D k}"
  "\<not> C p \<Longrightarrow> {k. (\<exists>q \<in> insert p S. prefix q k \<and> C q) \<and> D k} = {k. (\<exists>q \<in> S. prefix q k \<and> C q) \<and> D k}"
  by blast+

lemma expand_colliding_sound:
  assumes e: "expands expand st" and "expand_colliding expand ins ps dels kept = Inr (dels', kept')"
  shows "set kept' = set kept \<union> {p \<in> set ps. \<not> (\<exists>k \<in> set ins. prefix p k)}
    \<and> set dels' = set dels \<union> {k. (\<exists>p \<in> set ps. prefix p k \<and> (\<exists>k' \<in> set ins. prefix p k')) \<and> st k \<noteq> None \<and> k \<notin> set ins}"
  using assms(2)
proof (induction ps arbitrary: dels kept)
  case (Cons p ps)
  have ne: "filter (in_range (get_interval p)) ins \<noteq> [] \<longleftrightarrow> (\<exists>k \<in> set ins. prefix p k)"
    by (auto simp: filter_empty_conv)
  show ?case
  proof (cases "\<exists>k \<in> set ins. prefix p k")
    case True
    then obtain ks where ks: "expand p = Inr ks"
        and rest: "expand_colliding expand ins ps (dels @ not_inserted ins p ks) kept = Inr (dels', kept')"
      using Cons.prems ne by (auto simp: result_simps simp del: in_interval)
    have "set ks = {k. st (p @ k) \<noteq> None}" using e ks unfolding expands_def by blast
    note ni = set_not_inserted [OF this, of ins]
    have "set dels' = set dels \<union> {k. (\<exists>q \<in> set (p # ps). prefix q k \<and> (\<exists>k' \<in> set ins. prefix q k'))
          \<and> st k \<noteq> None \<and> k \<notin> set ins}"
      unfolding conjunct2 [OF Cons.IH [OF rest]] set_append ni list.set by (rule covered_insert(1)) (rule True)
    moreover have "set kept' = set kept \<union> {q \<in> set (p # ps). \<not> (\<exists>k \<in> set ins. prefix q k)}"
      using conjunct1 [OF Cons.IH [OF rest]] True by auto
    ultimately show ?thesis by blast
  next
    case False
    then have rest: "expand_colliding expand ins ps dels (kept @ [p]) = Inr (dels', kept')"
      using Cons.prems ne by (simp del: in_interval)
    have "set dels' = set dels \<union> {k. (\<exists>q \<in> set (p # ps). prefix q k \<and> (\<exists>k' \<in> set ins. prefix q k'))
          \<and> st k \<noteq> None \<and> k \<notin> set ins}"
      unfolding conjunct2 [OF Cons.IH [OF rest]] list.set
      by (simp only: covered_insert(2) [where C = "\<lambda>q. \<exists>k' \<in> set ins. prefix q k'", OF False])
    moreover have "set kept' = set kept \<union> {q \<in> set (p # ps). \<not> (\<exists>k \<in> set ins. prefix q k)}"
      using conjunct1 [OF Cons.IH [OF rest]] False by auto
    ultimately show ?thesis by blast
  qed
qed simp

lemma in_simple_ops [simp]:
  "Put k v \<in> set (simple_ops b) \<longleftrightarrow> (k, v) \<in> set (insertions b)"
  "Delete k \<in> set (simple_ops b) \<longleftrightarrow> k \<in> set (deletions b)"
  "DeletePrefix k \<notin> set (simple_ops b)"
  by (force simp: simple_ops_def)+

lemma simplified_put: "simplified u \<Longrightarrow> (k, v) \<in> set (insertions (simple_unordered_batch u)) \<Longrightarrow>
    k \<notin> set (deletions (simple_unordered_batch u))
    \<and> (\<forall>v'. (k, v') \<in> set (insertions (simple_unordered_batch u)) \<longrightarrow> v' = v)"
  unfolding simplified_def unordered_def in_simple_ops by blast

lemma in_ub_ops [simp]:
  "Put k v \<in> set (ub_ops u) \<longleftrightarrow> (k, v) \<in> set (insertions (simple_unordered_batch u))"
  "Delete k \<in> set (ub_ops u) \<longleftrightarrow> k \<in> set (deletions (simple_unordered_batch u))"
  "DeletePrefix k \<in> set (ub_ops u) \<longleftrightarrow> k \<in> set (key_prefix_deletions u)"
  by (auto simp: ub_ops_def)

lemma simplified_effect:
  assumes "simplified u"
  shows "apply_ops (ub_ops u) st = effect (set (simple_ops (simple_unordered_batch u)))
    (\<lambda>k. if \<exists>p \<in> set (key_prefix_deletions u). prefix p k then None else st k)"
  using assms by (simp add: ub_ops_def apply_prefixes apply_ops_effect simplified_def)

lemma in_map_fst: "k \<in> fst ` set xs \<longleftrightarrow> (\<exists>v. (k, v) \<in> set xs)"
  by force

text \<open>Both kinds of batches can be executed in any order, with the effect of the original batch.\<close>

lemma SimpleUnorderedBatch_from_batch_sound:
  assumes e: "expands expand st" and b: "SimpleUnorderedBatch_from_batch expand batch = Inr b"
  shows "unordered (set (simple_ops b))" and "apply_ops (simple_ops b) st = apply_ops batch st"
proof -
  define u where "u = simplify batch"
  define ub where "ub = simple_unordered_batch u"
  have su: "simplified u" and eq: "apply_ops (ub_ops u) st = apply_ops batch st"
    using simplify_sound by (simp_all add: u_def)
  obtain dels where d: "expand_all expand (map fst (insertions ub)) (key_prefix_deletions u) (deletions ub) = Inr dels"
      and b': "b = \<lparr>deletions = dels, insertions = insertions ub\<rparr>"
    using b by (auto simp: SimpleUnorderedBatch_from_batch_def expand_delete_prefixes_def u_def [symmetric]
          ub_def [symmetric] result_simps)
  note sd = expand_all_sound [OF e d]
  show un: "unordered (set (simple_ops b))"
    using simplified_put [OF su] by (auto simp: unordered_def b' sd ub_def [symmetric] in_map_fst)
  have "effect (set (simple_ops b)) st k = apply_ops (ub_ops u) st k" for k
    unfolding simplified_effect [OF su] by (auto simp: effect_def b' sd ub_def in_map_fst)
  then show "apply_ops (simple_ops b) st = apply_ops batch st"
    unfolding apply_ops_effect [OF un] eq by auto
qed

lemma UnorderedBatch_from_batch_sound:
  assumes e: "expands expand st" and b: "UnorderedBatch_from_batch expand batch = Inr b"
  shows "unordered (set (ub_ops b))" and "apply_ops (ub_ops b) st = apply_ops batch st"
proof -
  define u where "u = simplify batch"
  define ub where "ub = simple_unordered_batch u"
  have su: "simplified u" and eq: "apply_ops (ub_ops u) st = apply_ops batch st"
    using simplify_sound by (simp_all add: u_def)
  let ?ins = "map fst (insertions ub)"
  obtain dels kept where
      d: "expand_colliding expand ?ins (key_prefix_deletions u) (deletions ub) [] = Inr (dels, kept)"
      and b': "b = \<lparr>key_prefix_deletions = kept, simple_unordered_batch = ub\<lparr>deletions := dels\<rparr>\<rparr>"
    using b by (auto simp: UnorderedBatch_from_batch_def expand_colliding_prefix_deletions_def u_def [symmetric]
          ub_def [symmetric] result_simps)
  note sk = conjunct1 [OF expand_colliding_sound [OF e d]] and sd = conjunct2 [OF expand_colliding_sound [OF e d]]
  show un: "unordered (set (ub_ops b))"
    using simplified_put [OF su] by (auto simp: unordered_def b' sd sk ub_def [symmetric] in_map_fst)
  have "effect (set (ub_ops b)) st k = apply_ops (ub_ops u) st k" for k
    unfolding simplified_effect [OF su] by (auto simp: effect_def b' sd sk ub_def in_map_fst)
  then show "apply_ops (ub_ops b) st = apply_ops batch st"
    unfolding apply_ops_effect [OF un] eq by auto
qed

lemma from_batch_total:
  assumes "\<And>p. \<exists>ks. expand p = Inr ks"
  shows "\<exists>b. SimpleUnorderedBatch_from_batch expand batch = Inr b" and "\<exists>b. UnorderedBatch_from_batch expand batch = Inr b"
proof -
  have 1: "\<exists>d. expand_all expand ins ps dels = Inr d" for ins ps dels
  proof (induction ps arbitrary: dels)
    case (Cons p ps)
    obtain ks where "expand p = Inr ks" using assms by blast
    then show ?case using Cons by simp
  qed simp
  have 2: "\<exists>d. expand_colliding expand ins ps dels kept = Inr d" for ins ps dels kept
  proof (induction ps arbitrary: dels kept)
    case (Cons p ps)
    obtain ks where "expand p = Inr ks" using assms by blast
    then show ?case using Cons by simp
  qed simp
  show "\<exists>b. SimpleUnorderedBatch_from_batch expand batch = Inr b"
    using 1 by (auto simp: SimpleUnorderedBatch_from_batch_def expand_delete_prefixes_def Let_def result_simps)
  show "\<exists>b. UnorderedBatch_from_batch expand batch = Inr b"
    using 2 by (auto simp: UnorderedBatch_from_batch_def expand_colliding_prefix_deletions_def Let_def result_simps
        split: prod.splits)
qed

text \<open>The keys an expanded batch touches are keys of the original batch or lie below its prefixes.\<close>

fun op_key :: "WriteOperation \<Rightarrow> bytes" where
  "op_key (Delete key) = key"
| "op_key (DeletePrefix key_prefix) = key_prefix"
| "op_key (Put key _) = key"

lemma set_fold_bt_remove: "set (fold bt_remove ks m) \<subseteq> set m"
proof (induction ks arbitrary: m)
  case (Cons k ks)
  have "set (fold bt_remove ks (bt_remove k m)) \<subseteq> set (bt_remove k m)" by (rule Cons)
  then show ?case by (auto simp: set_bt_remove)
qed simp

lemma simplify_step_keys:
  assumes "fst ` set (fst s) \<union> set (snd s) \<subseteq> K" and "op_key op \<in> K"
  shows "fst ` set (fst (simplify_step op s)) \<union> set (snd (simplify_step op s)) \<subseteq> K"
proof -
  obtain m ps where s: "s = (m, ps)" by fastforce
  have "fst ` set (fold bt_remove ks m) \<subseteq> K" for ks
    using assms set_fold_bt_remove [of ks m] by (auto simp: s)
  then show ?thesis
    using assms by (cases op) (auto simp: s Let_def set_bt_insert_keys set_bt_remove set_insort_insert)
qed

lemma fold_simplify_keys:
  assumes "fst ` set (fst s) \<union> set (snd s) \<subseteq> K" and "op_key ` set ops \<subseteq> K"
  shows "fst ` set (fst (fold simplify_step ops s)) \<union> set (snd (fold simplify_step ops s)) \<subseteq> K"
  using assms
proof (induction ops arbitrary: s)
  case (Cons op ops)
  have "fst ` set (fst (simplify_step op s)) \<union> set (snd (simplify_step op s)) \<subseteq> K"
    by (rule simplify_step_keys [OF Cons.prems(1)]) (use Cons.prems(2) in simp)
  then show ?case using Cons.IH Cons.prems(2) by simp
qed simp

lemma simplify_keys: "op_key ` set (ub_ops (simplify batch)) \<subseteq> op_key ` set batch"
proof -
  obtain m ps where f: "fold simplify_step batch ([], []) = (m, ps)" by fastforce
  have "fst ` set m \<union> set ps \<subseteq> op_key ` set batch"
    using fold_simplify_keys [of "([], [])" "op_key ` set batch" batch] f by simp
  moreover have "op_key op \<in> fst ` set m \<union> set ps" if "op \<in> set (ub_ops (simplify batch))" for op
    using that by (cases op rule: WriteOperation.exhaust) (auto simp: simplify_def f split_map_sets intro: rev_image_eqI)
  ultimately show ?thesis by blast
qed

lemma UnorderedBatch_from_batch_keys:
  assumes e: "expands expand st" and b: "UnorderedBatch_from_batch expand batch = Inr b" and "op \<in> set (ub_ops b)"
  shows "\<exists>op' \<in> set batch. prefix (op_key op') (op_key op)"
proof -
  define u where "u = simplify batch"
  define ub where "ub = simple_unordered_batch u"
  let ?ins = "map fst (insertions ub)"
  obtain dels kept where
      d: "expand_colliding expand ?ins (key_prefix_deletions u) (deletions ub) [] = Inr (dels, kept)"
      and b': "b = \<lparr>key_prefix_deletions = kept, simple_unordered_batch = ub\<lparr>deletions := dels\<rparr>\<rparr>"
    using b by (auto simp: UnorderedBatch_from_batch_def expand_colliding_prefix_deletions_def u_def [symmetric]
          ub_def [symmetric] result_simps)
  note sk = conjunct1 [OF expand_colliding_sound [OF e d]] and sd = conjunct2 [OF expand_colliding_sound [OF e d]]
  have keys: "op_key op \<in> op_key ` set batch" if "op \<in> set (ub_ops u)" for op
    using simplify_keys [of batch] that by (auto simp: u_def)
  have "\<exists>op' \<in> set (ub_ops u). prefix (op_key op') (op_key op)"
  proof (cases op)
    case (Delete k)
    then have "k \<in> set dels" using assms(3) by (simp add: b')
    then consider "k \<in> set (deletions ub)" | p where "p \<in> set (key_prefix_deletions u)" "prefix p k"
      unfolding sd by blast
    then show ?thesis
    proof cases
      case 1
      then show ?thesis by (intro bexI [of _ "Delete k"]) (simp_all add: Delete ub_def)
    next
      case 2
      then show ?thesis by (intro bexI [of _ "DeletePrefix p"]) (simp_all add: Delete)
    qed
  next
    case (DeletePrefix p)
    then show ?thesis using assms(3) sk by (intro bexI [of _ op]) (auto simp: b')
  next
    case (Put k v)
    then show ?thesis using assms(3) by (intro bexI [of _ op]) (auto simp: b' ub_def)
  qed
  then show ?thesis using keys by (metis imageE)
qed

end
