(* ===== verification/Kv_Memory.thy ===== *)
theory Kv_Memory
  imports Kv_Batch
begin

text \<open>
  The key-value store interface (\<^verbatim>\<open>linera-views/src/store.rs\<close>) as a locale, and the in-memory store
  (\<^verbatim>\<open>linera-views/src/backends/memory.rs\<close>), whose map is a \<^verbatim>\<open>BTreeMap\<close> of keys to values.
\<close>

section \<open>The interface\<close>

text \<open>
  What every store promises of its contents: reads return them, searches list the keys below a
  prefix in increasing order without the prefix, and a batch has the effect of its operations in
  sequence.
\<close>

locale kv_store =
  fixes valid :: "'s \<Rightarrow> bool" and contents_of :: "'s \<Rightarrow> contents"
    and read :: "'s \<Rightarrow> bytes \<Rightarrow> 'e + bytes option"
    and search :: "'s \<Rightarrow> bytes \<Rightarrow> 'e + (bytes \<times> bytes) list"
    and commit :: "Batch \<Rightarrow> 's \<Rightarrow> 'e + 's"
  assumes read_contents: "valid s \<Longrightarrow> read s k = Inr (contents_of s k)"
    and search_contents: "valid s \<Longrightarrow> \<exists>kvs. search s p = Inr kvs \<and> bt_ok kvs \<and> bt_get kvs = (\<lambda>k. contents_of s (p @ k))"
    and write_contents: "valid s \<Longrightarrow> \<exists>s'. commit b s = Inr s' \<and> valid s' \<and> contents_of s' = apply_ops b (contents_of s)"
begin

lemma write_append:
  assumes "valid s"
  shows "\<exists>s1 s2 s3. commit b1 s = Inr s1 \<and> commit b2 s1 = Inr s2 \<and> commit (b1 @ b2) s = Inr s3
    \<and> contents_of s2 = contents_of s3"
proof -
  obtain s1 where 1: "commit b1 s = Inr s1" "valid s1" "contents_of s1 = apply_ops b1 (contents_of s)"
    using write_contents [OF assms] by blast
  obtain s2 where 2: "commit b2 s1 = Inr s2" "contents_of s2 = apply_ops b2 (contents_of s1)"
    using write_contents [OF 1(2)] by blast
  obtain s3 where 3: "commit (b1 @ b2) s = Inr s3" "contents_of s3 = apply_ops (b1 @ b2) (contents_of s)"
    using write_contents [OF assms] by blast
  show ?thesis using 1 2 3 by auto
qed

text \<open>A search gives the expansion of a prefix that unordered batches need.\<close>

lemma search_expands:
  assumes "valid s"
  shows "expands (\<lambda>p. map_sum id (map fst) (search s p)) (contents_of s)"
  unfolding expands_def
proof (intro allI impI)
  fix p ks
  assume ks: "map_sum id (map fst) (search s p) = Inr ks"
  obtain kvs where k: "search s p = Inr kvs" "bt_get kvs = (\<lambda>k. contents_of s (p @ k))"
    using search_contents [OF assms] by blast
  have "set (map fst kvs) = {k. contents_of s (p @ k) \<noteq> None}"
    unfolding k(2) [symmetric, THEN fun_cong] using map_of_eq_None_iff [of kvs] by auto
  then show "set ks = {k. contents_of s (p @ k) \<noteq> None}" using k(1) ks by auto
qed

lemma read_after_write:
  assumes "valid s" and "commit b s = Inr s'"
  shows "read s' k = Inr (apply_ops b (contents_of s) k)"
  using write_contents [OF assms(1), of b] assms(2) read_contents by auto

end

section \<open>The store in memory\<close>

type_synonym MemoryStoreMap = "(bytes, bytes) btree"

definition mem_read_value_bytes :: "MemoryStoreMap \<Rightarrow> bytes \<Rightarrow> bytes option" where
  "mem_read_value_bytes m key = bt_get m key"

definition mem_contains_key :: "MemoryStoreMap \<Rightarrow> bytes \<Rightarrow> bool" where
  "mem_contains_key m key = bt_contains m key"

definition mem_contains_keys :: "MemoryStoreMap \<Rightarrow> bytes list \<Rightarrow> bool list" where
  "mem_contains_keys m keys = map (bt_contains m) keys"

definition mem_read_multi_values_bytes :: "MemoryStoreMap \<Rightarrow> bytes list \<Rightarrow> bytes option list" where
  "mem_read_multi_values_bytes m keys = map (bt_get m) keys"

definition mem_find_keys_by_prefix :: "MemoryStoreMap \<Rightarrow> bytes \<Rightarrow> bytes list" where
  "mem_find_keys_by_prefix m key_prefix =
     (let len = length key_prefix in
      map (\<lambda>(key, _). drop len key) (filter (\<lambda>(key, _). in_range (get_interval key_prefix) key) m))"

definition mem_find_key_values_by_prefix :: "MemoryStoreMap \<Rightarrow> bytes \<Rightarrow> (bytes \<times> bytes) list" where
  "mem_find_key_values_by_prefix m key_prefix =
     (let len = length key_prefix in
      map (\<lambda>(key, value'). (drop len key, value')) (filter (\<lambda>(key, _). in_range (get_interval key_prefix) key) m))"

fun mem_write_op :: "WriteOperation \<Rightarrow> MemoryStoreMap \<Rightarrow> MemoryStoreMap" where
  "mem_write_op (Put key value') m = bt_insert key value' m"
| "mem_write_op (Delete key) m = bt_remove key m"
| "mem_write_op (DeletePrefix key_prefix) m =
     (let key_list = filter (in_range (get_interval key_prefix)) (map fst m) in fold bt_remove key_list m)"

definition mem_write_batch :: "Batch \<Rightarrow> MemoryStoreMap \<Rightarrow> MemoryStoreMap" where
  "mem_write_batch batch m = fold mem_write_op batch m"

section \<open>The store in memory keeps the contract\<close>

lemma mem_write_op_ok: "bt_ok m \<Longrightarrow> bt_ok (mem_write_op op m) \<and> bt_get (mem_write_op op m) = apply_op op (bt_get m)"
  by (cases op) (auto simp: bt_ok_fold_remove remove_covered fun_eq_iff Let_def simp del: in_interval)

lemma mem_write_batch_ok:
  "bt_ok m \<Longrightarrow> bt_ok (mem_write_batch b m) \<and> bt_get (mem_write_batch b m) = apply_ops b (bt_get m)"
  unfolding mem_write_batch_def
proof (induction b arbitrary: m)
  case (Cons op b)
  then show ?case using mem_write_op_ok [OF Cons.prems, of op] by auto
qed simp

lemma append_less_append: "(p @ a < p @ b) = (a < (b :: bytes))"
  by (induction p) auto

lemma mem_find_key_values_ok:
  assumes "bt_ok m"
  shows "bt_ok (mem_find_key_values_by_prefix m p)" and "bt_get (mem_find_key_values_by_prefix m p) k = bt_get m (p @ k)"
proof -
  have "bt_ok (map (\<lambda>(key, value'). (drop (length p) key, value')) (filter (\<lambda>(key, _). prefix p key) m))
    \<and> map_of (map (\<lambda>(key, value'). (drop (length p) key, value')) (filter (\<lambda>(key, _). prefix p key) m)) k = map_of m (p @ k)"
    using assms
  proof (induction m)
    case (Cons kv m)
    obtain key v where kv: "kv = (key, v)" by fastforce
    have ok: "bt_ok m" and lt: "\<forall>k' \<in> fst ` set m. key < k'" using Cons.prems by (auto simp: kv bt_ok_Cons)
    show ?case
    proof (cases "prefix p key")
      case True
      then obtain a where a: "key = p @ a" by (auto simp: prefix_def)
      have "a < drop (length p) k'" if k': "k' \<in> fst ` set m" "prefix p k'" for k'
      proof -
        obtain b where "k' = p @ b" using k'(2) by (auto simp: prefix_def)
        then show ?thesis using lt k'(1) append_less_append [of p a b] by (auto simp: a)
      qed
      then show ?thesis using Cons.IH [OF ok] True by (force simp: kv a bt_ok_Cons)
    next
      case False
      then show ?thesis using Cons.IH [OF ok] by (auto simp: kv)
    qed
  qed simp
  then show "bt_ok (mem_find_key_values_by_prefix m p)" "bt_get (mem_find_key_values_by_prefix m p) k = bt_get m (p @ k)"
    by (simp_all add: mem_find_key_values_by_prefix_def)
qed

lemma mem_find_keys_eq: "mem_find_keys_by_prefix m p = map fst (mem_find_key_values_by_prefix m p)"
  by (induction m) (auto simp: mem_find_keys_by_prefix_def mem_find_key_values_by_prefix_def)

lemma mem_find_keys_ok:
  assumes "bt_ok m"
  shows "sorted_wrt (<) (mem_find_keys_by_prefix m p)"
    and "set (mem_find_keys_by_prefix m p) = {k. bt_get m (p @ k) \<noteq> None}"
proof -
  note ok = mem_find_key_values_ok [OF assms]
  show "sorted_wrt (<) (mem_find_keys_by_prefix m p)"
    using ok(1) by (simp add: mem_find_keys_eq bt_ok_def)
  show "set (mem_find_keys_by_prefix m p) = {k. bt_get m (p @ k) \<noteq> None}"
    unfolding ok(2) [symmetric] using map_of_eq_None_iff [of "mem_find_key_values_by_prefix m p"]
    by (auto simp: mem_find_keys_eq)
qed

interpretation memory: kv_store bt_ok bt_get "\<lambda>m k. Inr (mem_read_value_bytes m k)"
  "\<lambda>m p. Inr (mem_find_key_values_by_prefix m p)" "\<lambda>b m. Inr (mem_write_batch b m)"
  by unfold_locales
    (auto simp: mem_read_value_bytes_def mem_find_key_values_ok mem_write_batch_ok)

end
