(* ===== verification/Kv_Journal.thy ===== *)
theory Kv_Journal
  imports Kv_Memory State_Result
begin

text \<open>
  Journaling (\<^verbatim>\<open>linera-views/src/backends/journaling.rs\<close>): large batches written atomically through
  a store whose own atomic writes are limited. The inner store, any of whose calls may fail, and
  the \<^verbatim>\<open>bcs\<close> encodings are parameters; the batch type is the unordered batch. Sizes are natural
  numbers: the limits of the store are taken to be large enough for the key and the header of a
  journal, so that the subtractions of the code do not underflow.
\<close>

section \<open>The inner store and the encodings\<close>

record ('s, 'e) DirectStore =
  ds_read_value_bytes :: "'s \<Rightarrow> bytes \<Rightarrow> 'e + bytes option"
  ds_find_keys_by_prefix :: "'s \<Rightarrow> bytes \<Rightarrow> 'e + bytes list"
  ds_write_batch :: "UnorderedBatch \<Rightarrow> ('s, 'e, unit) sr"
  MAX_BATCH_SIZE :: nat
  MAX_BATCH_TOTAL_SIZE :: nat
  MAX_VALUE_SIZE :: nat

record 'e JournalBcs =
  jb_serialized_size :: "bytes \<Rightarrow> 'e + nat"
  jb_u32 :: "u32 \<Rightarrow> 'e + bytes"
  jb_header :: "u32 \<Rightarrow> 'e + bytes"
  jb_header_of :: "bytes \<Rightarrow> 'e + u32"
  jb_batch :: "UnorderedBatch \<Rightarrow> 'e + bytes"
  jb_batch_of :: "bytes \<Rightarrow> 'e + UnorderedBatch"
  jb_missing_block :: 'e
  jb_assertion_failed :: 'e

section \<open>Keys of the journal\<close>

definition JOURNAL_TAG :: u8 where
  "JOURNAL_TAG = 0"

definition MIN_VIEW_TAG :: u8 where
  "MIN_VIEW_TAG = 1"

definition KeyTag_Journal :: u8 where
  "KeyTag_Journal = 1"

definition KeyTag_Entry :: u8 where
  "KeyTag_Entry = 2"

definition get_journaling_key :: "'e JournalBcs \<Rightarrow> u8 \<Rightarrow> u32 \<Rightarrow> 'e + bytes" where
  "get_journaling_key bcs tag pos = bind_r (jb_u32 bcs pos) (\<lambda>bs. Inr ([JOURNAL_TAG] @ [tag] @ bs))"

section \<open>Resolving a journal\<close>

text \<open>One block: read it, execute it and delete it from the journal in one write.\<close>

definition resolve_block ::
  "('s, 'e) DirectStore \<Rightarrow> 'e JournalBcs \<Rightarrow> bytes \<Rightarrow> u32 \<Rightarrow> ('s, 'e, unit) sr" where
  "resolve_block K bcs header_key block_count =
     sr_bind (sr_lift (get_journaling_key bcs KeyTag_Entry (block_count - 1))) (\<lambda>block_key.
     sr_bind (\<lambda>s. (ds_read_value_bytes K s block_key, s)) (\<lambda>value'.
     sr_bind (sr_lift (ok_or value' (jb_missing_block bcs))) (\<lambda>bs.
     sr_bind (sr_lift (jb_batch_of bcs bs)) (\<lambda>batch.
     let batch = ub_add_delete block_key batch; block_count = block_count - 1 in
     sr_bind (if block_count > 0
       then sr_bind (sr_lift (jb_header bcs block_count)) (\<lambda>value'. sr_ok (ub_add_insert header_key value' batch))
       else sr_ok (ub_add_delete header_key batch)) (\<lambda>batch.
     ds_write_batch K batch)))))"

function resolve_loop ::
  "('s, 'e) DirectStore \<Rightarrow> 'e JournalBcs \<Rightarrow> bytes \<Rightarrow> u32 \<Rightarrow> ('s, 'e, unit) sr" where
  "resolve_loop K bcs header_key block_count s =
     (if block_count > 0
      then case resolve_block K bcs header_key block_count s of
          (Inl e, s) \<Rightarrow> (Inl e, s)
        | (Inr (), s) \<Rightarrow> resolve_loop K bcs header_key (block_count - 1) s
      else (Inr (), s))"
  by pat_completeness auto
termination
  by (relation "measure (\<lambda>(K, bcs, key, n, s). unat n)") (auto simp: word_gt_0 measure_unat)

declare resolve_loop.simps [simp del]

definition coherently_resolve_journal ::
  "('s, 'e) DirectStore \<Rightarrow> 'e JournalBcs \<Rightarrow> u32 \<Rightarrow> ('s, 'e, unit) sr" where
  "coherently_resolve_journal K bcs block_count =
     sr_bind (sr_lift (get_journaling_key bcs KeyTag_Journal 0)) (\<lambda>header_key.
     resolve_loop K bcs header_key block_count)"

section \<open>Writing a journal\<close>

record JournalState =
  js_block_batch :: UnorderedBatch
  js_block_size :: nat
  js_block_count :: u32
  js_transaction_batch :: UnorderedBatch
  js_transaction_size :: nat

text \<open>Whether to end the current block, and the current transaction, after a value was written.\<close>

definition flush_decision :: "('s, 'e) DirectStore \<Rightarrow> 'e JournalBcs \<Rightarrow> nat \<Rightarrow> nat \<Rightarrow> UnorderedBatch \<Rightarrow> JournalState
    \<Rightarrow> 'e + bool \<times> bool" where
  "flush_decision K bcs key_len max_block_size iter js =
     (if ub_iter_is_empty iter \<or> ub_len (js_transaction_batch js) = MAX_BATCH_SIZE K - 1 then Inr (True, True)
      else bind_r (ub_next_batch_size (jb_serialized_size bcs) iter (js_block_batch js) (js_block_size js)) (\<lambda>next.
        bind_r (ok_or next (jb_assertion_failed bcs)) (\<lambda>next_block_size.
        let next_transaction_size = js_transaction_size js + next_block_size + key_len;
            transaction_flush = next_transaction_size > MAX_BATCH_TOTAL_SIZE K;
            block_flush = transaction_flush \<or> ub_len (js_block_batch js) = MAX_BATCH_SIZE K - 2
              \<or> next_block_size > max_block_size
        in Inr (block_flush, transaction_flush))))"

definition flush_block :: "'e JournalBcs \<Rightarrow> nat \<Rightarrow> JournalState \<Rightarrow> 'e + JournalState" where
  "flush_block bcs key_len js =
     (let block_size = js_block_size js + ub_overhead_size (js_block_batch js) in
      bind_r (jb_batch bcs (js_block_batch js)) (\<lambda>value'.
      bind_r (ensure (length value' = block_size) (jb_assertion_failed bcs)) (\<lambda>_.
      bind_r (get_journaling_key bcs KeyTag_Entry (js_block_count js)) (\<lambda>key.
      Inr \<lparr>js_block_batch = UnorderedBatch_default, js_block_size = 0, js_block_count = js_block_count js + 1,
        js_transaction_batch = ub_add_insert key value' (js_transaction_batch js),
        js_transaction_size = js_transaction_size js + (block_size + key_len)\<rparr>))))"

definition flush_transaction :: "('s, 'e) DirectStore \<Rightarrow> JournalState \<Rightarrow> ('s, 'e, JournalState) sr" where
  "flush_transaction K js =
     sr_bind (ds_write_batch K (js_transaction_batch js)) (\<lambda>_.
     sr_ok (js\<lparr>js_transaction_batch := UnorderedBatch_default, js_transaction_size := 0\<rparr>))"

text \<open>The body of the loop after a value was written.\<close>

definition journal_body :: "('s, 'e) DirectStore \<Rightarrow> 'e JournalBcs \<Rightarrow> nat \<Rightarrow> nat \<Rightarrow> UnorderedBatch \<Rightarrow> JournalState
    \<Rightarrow> ('s, 'e, JournalState) sr" where
  "journal_body K bcs key_len max_block_size iter js =
     sr_bind (sr_lift (flush_decision K bcs key_len max_block_size iter js)) (\<lambda>(block_flush, transaction_flush).
     sr_bind (if block_flush then sr_lift (flush_block bcs key_len js) else sr_ok js) (\<lambda>js.
     if transaction_flush then flush_transaction K js else sr_ok js))"

lemma simple_write_next_shorter:
  "simple_write_next_value sz iter batch n = Inr (True, iter', batch', n') \<Longrightarrow> simple_len iter' < simple_len iter"
  by (auto simp: simple_write_next_value_def simple_len_def result_simps split: list.splits)

lemma ub_write_next_shorter:
  "ub_write_next_value sz iter batch n = Inr (True, iter', batch', n') \<Longrightarrow> ub_len iter' < ub_len iter"
  by (auto simp: ub_write_next_value_def ub_len_def result_simps dest: simple_write_next_shorter split: list.splits)

function journal_loop :: "('s, 'e) DirectStore \<Rightarrow> 'e JournalBcs \<Rightarrow> nat \<Rightarrow> nat \<Rightarrow> UnorderedBatch \<Rightarrow> JournalState
    \<Rightarrow> ('s, 'e, u32) sr" where
  "journal_loop K bcs key_len max_block_size iter js s =
     (case ub_write_next_value (jb_serialized_size bcs) iter (js_block_batch js) (js_block_size js) of
        Inl e \<Rightarrow> (Inl e, s)
      | Inr (written, iter', block_batch, block_size) \<Rightarrow>
          if written
          then case journal_body K bcs key_len max_block_size iter'
                (js\<lparr>js_block_batch := block_batch, js_block_size := block_size\<rparr>) s of
              (Inl e, s) \<Rightarrow> (Inl e, s)
            | (Inr js, s) \<Rightarrow> journal_loop K bcs key_len max_block_size iter' js s
          else (Inr (js_block_count js), s))"
  by pat_completeness auto
termination
  by (relation "measure (\<lambda>(K, bcs, n, m, iter, js, s). ub_len iter)") (auto dest: ub_write_next_shorter)

declare journal_loop.simps [simp del]

definition JournalState_new :: JournalState where
  "JournalState_new = \<lparr>js_block_batch = UnorderedBatch_default, js_block_size = 0, js_block_count = 0,
     js_transaction_batch = UnorderedBatch_default, js_transaction_size = 0\<rparr>"

definition write_journal ::
  "('s, 'e) DirectStore \<Rightarrow> 'e JournalBcs \<Rightarrow> UnorderedBatch \<Rightarrow> ('s, 'e, u32) sr" where
  "write_journal K bcs batch =
     sr_bind (sr_lift (get_journaling_key bcs KeyTag_Journal 0)) (\<lambda>header_key.
     sr_bind (sr_lift (jb_header bcs 0)) (\<lambda>default_header.
     let key_len = length header_key;
         journal_len_upper_bound = key_len + length default_header;
         max_block_size = min (MAX_VALUE_SIZE K) (MAX_BATCH_TOTAL_SIZE K - key_len - journal_len_upper_bound) in
     sr_bind (journal_loop K bcs key_len max_block_size batch JournalState_new) (\<lambda>block_count.
     sr_bind (if block_count > 0
       then sr_bind (sr_lift (jb_header bcs block_count)) (\<lambda>value'.
         ds_write_batch K (ub_add_insert header_key value' UnorderedBatch_default))
       else sr_ok ()) (\<lambda>_.
     sr_ok block_count))))"

section \<open>The journaling store\<close>

definition is_fastpath_feasible :: "('s, 'e) DirectStore \<Rightarrow> UnorderedBatch \<Rightarrow> bool" where
  "is_fastpath_feasible K batch \<longleftrightarrow>
     ub_len batch \<le> MAX_BATCH_SIZE K \<and> ub_num_bytes batch \<le> MAX_BATCH_TOTAL_SIZE K"

definition journal_write_batch :: "('s, 'e) DirectStore \<Rightarrow> 'e JournalBcs \<Rightarrow> Batch \<Rightarrow> ('s, 'e, unit) sr" where
  "journal_write_batch K bcs batch =
     sr_bind (\<lambda>s. (UnorderedBatch_from_batch (ds_find_keys_by_prefix K s) batch, s)) (\<lambda>batch.
     if is_fastpath_feasible K batch then ds_write_batch K batch
     else sr_bind (write_journal K bcs batch) (\<lambda>header. coherently_resolve_journal K bcs header))"

definition clear_journal :: "('s, 'e) DirectStore \<Rightarrow> 'e JournalBcs \<Rightarrow> ('s, 'e, unit) sr" where
  "clear_journal K bcs =
     sr_bind (sr_lift (get_journaling_key bcs KeyTag_Journal 0)) (\<lambda>key.
     sr_bind (\<lambda>s. (ds_read_value_bytes K s key, s)) (\<lambda>value'.
     case value' of
       None \<Rightarrow> sr_ok ()
     | Some bs \<Rightarrow> sr_bind (sr_lift (jb_header_of bcs bs)) (\<lambda>header. coherently_resolve_journal K bcs header)))"

section \<open>User keys and journal keys\<close>

text \<open>Views use keys whose first byte is at least \<open>MIN_VIEW_TAG\<close>; the rest belongs to the journal.\<close>

definition journal_key :: "bytes \<Rightarrow> bool" where
  "journal_key k \<longleftrightarrow> prefix [JOURNAL_TAG] k"

definition user_op :: "WriteOperation \<Rightarrow> bool" where
  "user_op op \<longleftrightarrow> op_key op \<noteq> [] \<and> MIN_VIEW_TAG \<le> hd (op_key op)"

definition journal_op :: "WriteOperation \<Rightarrow> bool" where
  "journal_op op \<longleftrightarrow> journal_key (op_key op) \<and> (\<forall>p. op \<noteq> DeletePrefix p)"

definition user_part :: "contents \<Rightarrow> contents" where
  "user_part c k = (if journal_key k then None else c k)"

lemma journal_key_Cons: "journal_key k \<longleftrightarrow> (\<exists>rest. k = 0 # rest)"
  by (auto simp: journal_key_def JOURNAL_TAG_def prefix_def)

lemma user_opE:
  assumes "user_op op"
  obtains a rest where "op_key op = a # rest" and "a \<noteq> 0"
proof (cases "op_key op")
  case Nil
  then show ?thesis using assms by (simp add: user_op_def)
next
  case (Cons a rest)
  then have "a \<noteq> 0" using assms by (auto simp: user_op_def MIN_VIEW_TAG_def)
  then show ?thesis by (rule that [OF Cons])
qed

lemma user_not_journal: "user_op op \<Longrightarrow> \<not> journal_op op"
  by (erule user_opE) (auto simp: journal_op_def journal_key_Cons)

lemma apply_user_op: "user_op op \<Longrightarrow> journal_key k \<Longrightarrow> apply_op op c k = c k"
  by (erule user_opE) (cases op; auto simp: journal_key_Cons)

lemma user_part_user_op: "user_op op \<Longrightarrow> user_part (apply_op op c) = apply_op op (user_part c)"
  by (erule user_opE) (cases op; auto simp: user_part_def journal_key_Cons fun_eq_iff)

lemma user_part_journal_op: "journal_op op \<Longrightarrow> user_part (apply_op op c) = user_part c"
  by (cases op) (auto simp: user_part_def journal_op_def fun_eq_iff)

lemma user_part_ops:
  assumes "\<forall>op \<in> set ops. user_op op \<or> journal_op op"
  shows "user_part (apply_ops ops c) = apply_ops (filter user_op ops) (user_part c)"
  using assms
proof (induction ops arbitrary: c)
  case (Cons op ops)
  then show ?case
    by (cases "user_op op") (auto simp: user_part_user_op user_part_journal_op)
qed simp

lemma journal_part_ops:
  assumes "\<forall>op \<in> set ops. user_op op \<or> journal_op op" and "journal_key k"
  shows "apply_ops ops c k = apply_ops (filter journal_op ops) c k"
  using assms
proof (induction ops rule: rev_induct)
  case (snoc op ops)
  show ?case
  proof (cases "journal_op op")
    case True
    then show ?thesis using snoc by (cases op) (auto simp: journal_op_def)
  next
    case False
    then have "user_op op" using snoc.prems by simp
    then show ?thesis using snoc False by (simp add: apply_user_op)
  qed
qed simp

lemma filter_user_ops: "\<forall>op \<in> set ops. user_op op \<Longrightarrow> filter user_op ops = ops \<and> filter journal_op ops = []"
  by (auto simp: filter_id_conv filter_empty_conv user_not_journal)

lemma ub_ops_add:
  "ub_ops (ub_add_delete k b) = map DeletePrefix (key_prefix_deletions b)
     @ map Delete (deletions (simple_unordered_batch b)) @ Delete k
     # map (\<lambda>(k, v). Put k v) (insertions (simple_unordered_batch b))"
  "ub_ops (ub_add_insert k v b) = ub_ops b @ [Put k v]"
  by (simp_all add: ub_ops_def simple_ops_def ub_add_delete_def ub_add_insert_def simple_add_delete_def
      simple_add_insert_def)

lemma ub_ops_default [simp]: "ub_ops UnorderedBatch_default = []"
  by (simp add: ub_ops_def simple_ops_def UnorderedBatch_default_def SimpleUnorderedBatch_default_def)

lemma set_ub_ops_add_delete: "set (ub_ops (ub_add_delete k b)) = insert (Delete k) (set (ub_ops b))"
  unfolding ub_ops_add unfolding ub_ops_def simple_ops_def by auto

lemma filter_add_delete:
  "filter P (ub_ops (ub_add_delete k b)) = filter P (map DeletePrefix (key_prefix_deletions b)
     @ map Delete (deletions (simple_unordered_batch b)))
     @ (if P (Delete k) then [Delete k] else []) @ filter P (map (\<lambda>(k, v). Put k v) (insertions (simple_unordered_batch b)))"
  by (simp add: ub_ops_add)

lemma add_delete_filters:
  assumes i: "\<forall>(k, v) \<in> set (insertions (simple_unordered_batch b)). user_op (Put k v)" and k: "journal_key k"
  shows "filter user_op (ub_ops (ub_add_delete k b)) = filter user_op (ub_ops b)"
    and "filter journal_op (ub_ops (ub_add_delete k b)) = filter journal_op (ub_ops b) @ [Delete k]"
proof -
  have j: "journal_op (Delete k)" using k by (simp add: journal_op_def)
  then have nu: "\<not> user_op (Delete k)" using user_not_journal by blast
  have "\<forall>op \<in> set (map (\<lambda>(k, v). Put k v) (insertions (simple_unordered_batch b))). user_op op" using i by auto
  note f = filter_user_ops [OF this]
  show "filter user_op (ub_ops (ub_add_delete k b)) = filter user_op (ub_ops b)"
      "filter journal_op (ub_ops (ub_add_delete k b)) = filter journal_op (ub_ops b) @ [Delete k]"
    unfolding filter_add_delete unfolding ub_ops_def simple_ops_def using f j nu by simp_all
qed

lemma insertions_add_delete [simp]:
  "insertions (simple_unordered_batch (ub_add_delete k b)) = insertions (simple_unordered_batch b)"
  by (simp add: ub_add_delete_def simple_add_delete_def)

text \<open>The write that executes a block \<open>B\<close> of the journal.\<close>

lemma block_write_effect:
  assumes u: "\<forall>op \<in> set (ub_ops B). user_op op" and k: "journal_key bk" "journal_key hk" "bk \<noteq> hk"
    and b: "b = ub_add_delete hk (ub_add_delete bk B) \<and> v = None \<or>
      (\<exists>bs. b = ub_add_insert hk bs (ub_add_delete bk B) \<and> v = Some bs)"
  shows "user_part (apply_ops (ub_ops b) c) = apply_ops (ub_ops B) (user_part c)"
    and "journal_key k \<Longrightarrow> apply_ops (ub_ops b) c k = (if k = hk then v else if k = bk then None else c k)"
proof -
  have i: "\<forall>(k, v) \<in> set (insertions (simple_unordered_batch B)). user_op (Put k v)" using u by (auto simp flip: in_ub_ops(1))
  have j: "journal_op (Delete hk)" "journal_op (Put hk bs)" "journal_op (Delete bk)" for bs
    using k by (simp_all add: journal_op_def)
  have nu: "\<not> user_op (Put hk bs)" for bs using j(2) user_not_journal by blast
  note f = filter_user_ops [OF u]
  have 1: "filter user_op (ub_ops b) = ub_ops B"
    using b f add_delete_filters(1) [OF i k(1)] add_delete_filters(1) [of "ub_add_delete bk B" hk] i k nu
    by (auto simp: ub_ops_add(2))
  have 2: "filter journal_op (ub_ops b) = [Delete bk, case v of None \<Rightarrow> Delete hk | Some bs \<Rightarrow> Put hk bs]"
    using b f add_delete_filters(2) [OF i k(1)] add_delete_filters(2) [of "ub_add_delete bk B" hk] i k j
    by (auto simp: ub_ops_add(2))
  have 3: "\<forall>op \<in> set (ub_ops b). user_op op \<or> journal_op op"
    using b u j by (auto simp: ub_ops_add(2) set_ub_ops_add_delete)
  show "user_part (apply_ops (ub_ops b) c) = apply_ops (ub_ops B) (user_part c)"
    using user_part_ops [OF 3] 1 by simp
  show "apply_ops (ub_ops b) c k = (if k = hk then v else if k = bk then None else c k)" if "journal_key k"
    using journal_part_ops [OF 3 that] 2 by (cases v) auto
qed

section \<open>States of the journal\<close>

text \<open>\<open>stored_blocks\<close>: the first blocks of the journal hold these batches. \<open>pending\<close>: the journal holds
  blocks whose execution, last block first, leads to the target. \<open>clean\<close>: the store holds the target
  and there is no journal.\<close>

definition stored_blocks :: "'e JournalBcs \<Rightarrow> contents \<Rightarrow> UnorderedBatch list \<Rightarrow> bool" where
  "stored_blocks bcs c Bs \<longleftrightarrow> (\<forall>i < length Bs. \<exists>key bs. get_journaling_key bcs KeyTag_Entry (of_nat i) = Inr key
     \<and> jb_batch bcs (Bs ! i) = Inr bs \<and> c key = Some bs)"

definition pending :: "'e JournalBcs \<Rightarrow> contents \<Rightarrow> contents \<Rightarrow> UnorderedBatch list \<Rightarrow> bool" where
  "pending bcs c target Bs \<longleftrightarrow> Bs \<noteq> [] \<and> length Bs < 2 ^ 32 \<and> stored_blocks bcs c Bs
     \<and> (\<exists>key bs. get_journaling_key bcs KeyTag_Journal 0 = Inr key \<and> jb_header bcs (of_nat (length Bs)) = Inr bs
          \<and> c key = Some bs)
     \<and> (\<forall>b \<in> set Bs. \<forall>op \<in> set (ub_ops b). user_op op)
     \<and> apply_ops (concat (map ub_ops (rev Bs))) (user_part c) = target"

definition clean :: "'e JournalBcs \<Rightarrow> contents \<Rightarrow> contents \<Rightarrow> bool" where
  "clean bcs c target \<longleftrightarrow> user_part c = target
     \<and> (\<forall>key. get_journaling_key bcs KeyTag_Journal 0 = Inr key \<longrightarrow> c key = None)"

definition recoverable :: "'e JournalBcs \<Rightarrow> contents \<Rightarrow> contents \<Rightarrow> bool" where
  "recoverable bcs c target \<longleftrightarrow> clean bcs c target \<or> (\<exists>Bs. pending bcs c target Bs)"

lemma journaling_key_journal: "get_journaling_key bcs tag n = Inr k \<Longrightarrow> journal_key k"
  by (auto simp: get_journaling_key_def result_simps journal_key_Cons JOURNAL_TAG_def)

lemma journaling_keys_differ:
  "get_journaling_key bcs KeyTag_Journal 0 = Inr k \<Longrightarrow> get_journaling_key bcs KeyTag_Entry n = Inr k' \<Longrightarrow> k \<noteq> k'"
  by (auto simp: get_journaling_key_def result_simps KeyTag_Journal_def KeyTag_Entry_def)

text \<open>\<open>entries\<close>: the keys and values of the blocks. \<open>journal_inv\<close>: the state of the loop that writes the
  journal, where the blocks \<open>Bs\<close> were cut off so far, the first entries of \<open>E\<close> are in the store and the
  others in the current transaction.\<close>

definition entries :: "'e JournalBcs \<Rightarrow> UnorderedBatch list \<Rightarrow> (bytes \<times> bytes) list \<Rightarrow> bool" where
  "entries bcs Bs E \<longleftrightarrow> length E = length Bs \<and> (\<forall>i < length Bs.
     get_journaling_key bcs KeyTag_Entry (of_nat i) = Inr (fst (E ! i)) \<and> jb_batch bcs (Bs ! i) = Inr (snd (E ! i)))"

definition journal_inv :: "'e JournalBcs \<Rightarrow> bytes \<Rightarrow> WriteOperation set \<Rightarrow> WriteOperation set \<Rightarrow> contents
    \<Rightarrow> JournalState \<Rightarrow> contents \<Rightarrow> UnorderedBatch list \<Rightarrow> (bytes \<times> bytes) list \<Rightarrow> nat \<Rightarrow> bool" where
  "journal_inv bcs hk ops rest u js c Bs E w \<longleftrightarrow> js_block_count js = of_nat (length Bs) \<and> length Bs < 2 ^ 32
     \<and> ops = set (concat (map ub_ops Bs)) \<union> set (ub_ops (js_block_batch js)) \<union> rest
     \<and> entries bcs Bs E \<and> ub_ops (js_transaction_batch js) = map (\<lambda>(k, v). Put k v) (drop w E)
     \<and> (\<forall>(k, v) \<in> set (take w E). c k = Some v) \<and> user_part c = u \<and> c hk = None"

lemma entries_stored:
  "entries bcs Bs E \<Longrightarrow> \<forall>(k, v) \<in> set E. c k = Some v \<Longrightarrow> stored_blocks bcs c Bs"
  unfolding entries_def stored_blocks_def by (metis (mono_tags, lifting) case_prod_beta nth_mem prod.collapse)

lemma entries_snoc:
  assumes "entries bcs Bs E" and "get_journaling_key bcs KeyTag_Entry (of_nat (length Bs)) = Inr k"
    and "jb_batch bcs B = Inr v"
  shows "entries bcs (Bs @ [B]) (E @ [(k, v)])"
  using assms by (auto simp: entries_def nth_append less_Suc_eq)

lemma apply_puts:
  "distinct (map fst E) \<Longrightarrow> apply_ops (map (\<lambda>(k, v). Put k v) E) c k = (case map_of E k of Some v \<Rightarrow> Some v | None \<Rightarrow> c k)"
proof (induction E arbitrary: c)
  case (Cons kv E)
  obtain k1 v1 where kv: "kv = (k1, v1)" by fastforce
  then have "map_of E k1 = None" using Cons.prems by (simp add: map_of_eq_None_iff)
  then show ?case using Cons by (auto simp: kv split: option.splits)
qed simp

lemma simple_write_next_ops:
  assumes w: "simple_write_next_value sz iter batch n = Inr (True, iter', batch', n')"
  shows "set (simple_ops batch') \<union> set (simple_ops iter') = set (simple_ops batch) \<union> set (simple_ops iter)
    \<and> simple_len iter' + 1 = simple_len iter"
proof (cases "deletions iter")
  case (Cons d ds)
  then have "iter' = iter\<lparr>deletions := ds\<rparr>" "batch' = simple_add_delete d batch"
    using w by (auto simp: simple_write_next_value_def result_simps)
  then show ?thesis using Cons by (auto simp: simple_ops_def simple_add_delete_def simple_len_def)
next
  case Nil
  show ?thesis
  proof (cases "insertions iter")
    case Nil
    then show ?thesis using w \<open>deletions iter = []\<close> by (simp add: simple_write_next_value_def)
  next
    case (Cons kv rest)
    then have "iter' = iter\<lparr>insertions := rest\<rparr>" "batch' = simple_add_insert (fst kv) (snd kv) batch"
      using w Nil by (auto simp: simple_write_next_value_def result_simps split: prod.splits)
    then show ?thesis using Cons Nil by (cases kv) (auto simp: simple_ops_def simple_add_insert_def simple_len_def)
  qed
qed

lemma write_next_ops:
  assumes w: "ub_write_next_value sz iter batch n = Inr (True, iter', batch', n')"
  shows "set (ub_ops batch') \<union> set (ub_ops iter') = set (ub_ops batch) \<union> set (ub_ops iter)
    \<and> ub_len iter' + 1 = ub_len iter"
proof (cases "key_prefix_deletions iter")
  case (Cons p ps)
  then have "iter' = iter\<lparr>key_prefix_deletions := ps\<rparr>"
      "batch' = batch\<lparr>key_prefix_deletions := key_prefix_deletions batch @ [p]\<rparr>"
    using w by (auto simp: ub_write_next_value_def result_simps)
  then show ?thesis using Cons by (auto simp: ub_ops_def ub_len_def)
next
  case Nil
  then obtain si sb where r: "simple_write_next_value sz (simple_unordered_batch iter) (simple_unordered_batch batch) n
        = Inr (True, si, sb, n')"
      and "iter' = iter\<lparr>simple_unordered_batch := si\<rparr>" "batch' = batch\<lparr>simple_unordered_batch := sb\<rparr>"
    using w by (auto simp: ub_write_next_value_def result_simps)
  then show ?thesis using simple_write_next_ops [OF r] Nil by (auto simp: ub_ops_def ub_len_def)
qed

lemma write_next_False:
  "ub_write_next_value sz iter batch n = Inr (False, iter', batch', n') \<Longrightarrow> ub_ops iter = [] \<and> ub_iter_is_empty iter"
  by (auto simp: ub_write_next_value_def simple_write_next_value_def result_simps ub_ops_def simple_ops_def
      ub_iter_is_empty_def simple_iter_is_empty_def split: list.splits)

text \<open>The inner store and the encodings: what the code relies on. Any call may fail; a failed write
  has no effect; what was encoded, if it can be decoded, is what was encoded.\<close>

locale journaled =
  fixes K :: "('s, 'e) DirectStore" and bcs :: "'e JournalBcs" and contents_of :: "'s \<Rightarrow> contents"
  assumes reads: "ds_read_value_bytes K s k = Inr v \<Longrightarrow> v = contents_of s k"
    and finds: "ds_find_keys_by_prefix K s p = Inr ks \<Longrightarrow> set ks = {k. contents_of s (p @ k) \<noteq> None}"
    and writes: "ds_write_batch K b s = (Inr (), s') \<Longrightarrow> contents_of s' = apply_ops (ub_ops b) (contents_of s)"
    and write_fails: "ds_write_batch K b s = (Inl e, s') \<Longrightarrow> contents_of s' = contents_of s"
    and u32_inj: "jb_u32 bcs m = Inr bs \<Longrightarrow> jb_u32 bcs n = Inr bs \<Longrightarrow> m = n"
    and header_rt: "jb_header bcs n = Inr bs \<Longrightarrow> jb_header_of bcs bs = Inr m \<Longrightarrow> m = n"
    and batch_rt: "jb_batch bcs b = Inr bs \<Longrightarrow> jb_batch_of bcs bs = Inr b' \<Longrightarrow> b' = b"
begin

lemma entry_keys_differ:
  "get_journaling_key bcs KeyTag_Entry m = Inr k \<Longrightarrow> get_journaling_key bcs KeyTag_Entry n = Inr k \<Longrightarrow> m = n"
  by (auto simp: get_journaling_key_def result_simps dest: u32_inj)

lemma stored_blocks_pop:
  assumes st: "stored_blocks bcs c (Bs @ [B])" and len: "length Bs < 2 ^ 32"
    and hk: "get_journaling_key bcs KeyTag_Journal 0 = Inr hk"
    and bk: "get_journaling_key bcs KeyTag_Entry (of_nat (length Bs)) = Inr bk"
    and c': "\<And>k. journal_key k \<Longrightarrow> k \<noteq> hk \<Longrightarrow> k \<noteq> bk \<Longrightarrow> c' k = c k"
  shows "stored_blocks bcs c' Bs"
  unfolding stored_blocks_def
proof (intro allI impI)
  fix i assume i: "i < length Bs"
  then obtain key bs where key: "get_journaling_key bcs KeyTag_Entry (of_nat i) = Inr key"
      "jb_batch bcs (Bs ! i) = Inr bs" "c key = Some bs"
    using st unfolding stored_blocks_def by (metis length_append_singleton less_SucI nth_append)
  have "key \<noteq> bk"
  proof
    assume "key = bk"
    then have "(of_nat i :: u32) = of_nat (length Bs)" using entry_keys_differ [OF key(1)] bk by simp
    then have "unat (of_nat i :: u32) = unat (of_nat (length Bs) :: u32)" by simp
    then show False using i len by (simp add: unat_of_nat_small)
  qed
  then have "c' key = Some bs"
    using c' [OF journaling_key_journal [OF key(1)]] key(3) journaling_keys_differ [OF hk key(1)] by auto
  then show "\<exists>key bs. get_journaling_key bcs KeyTag_Entry (of_nat i) = Inr key
      \<and> jb_batch bcs (Bs ! i) = Inr bs \<and> c' key = Some bs"
    using key by blast
qed

lemma resolve_block_step:
  assumes p: "pending bcs (contents_of s) target (Bs @ [B])" and hk: "get_journaling_key bcs KeyTag_Journal 0 = Inr hk"
    and r: "resolve_block K bcs hk (of_nat (Suc (length Bs))) s = (Inr (), s')"
  shows "if Bs = [] then clean bcs (contents_of s') target else pending bcs (contents_of s') target Bs"
proof -
  let ?c = "contents_of s" and ?c' = "contents_of s'"
  let ?n = "of_nat (length Bs) :: u32"
  have len: "length Bs < 2 ^ 32" and user: "\<forall>b \<in> set (Bs @ [B]). \<forall>op \<in> set (ub_ops b). user_op op"
      and tgt: "apply_ops (concat (map ub_ops (rev (Bs @ [B])))) (user_part ?c) = target"
      and st: "stored_blocks bcs ?c (Bs @ [B])"
    using p by (auto simp: pending_def)
  have n: "of_nat (Suc (length Bs)) - 1 = ?n" by simp
  have zero: "?n > 0 \<longleftrightarrow> Bs \<noteq> []"
    using len by (auto simp: word_gt_0 word_of_nat_eq_0_iff dest!: nat_dvd_not_less)
  obtain bk bs B' b' where bk: "get_journaling_key bcs KeyTag_Entry ?n = Inr bk"
      and rd: "ds_read_value_bytes K s bk = Inr (Some bs)" and dec: "jb_batch_of bcs bs = Inr B'"
      and b': "if Bs = [] then b' = ub_add_delete hk (ub_add_delete bk B')
        else \<exists>v. jb_header bcs ?n = Inr v \<and> b' = ub_add_insert hk v (ub_add_delete bk B')"
      and w: "ds_write_batch K b' s = (Inr (), s')"
    using r zero unfolding resolve_block_def n Let_def
    by (cases "Bs = []") (auto simp: run_simps result_simps)
  have "B' = B"
  proof -
    obtain bs' where "jb_batch bcs B = Inr bs'" "?c bk = Some bs'"
      using st bk unfolding stored_blocks_def by (metis (no_types, lifting) Inr_inject length_append_singleton lessI nth_append_length)
    then show ?thesis using reads [OF rd] dec batch_rt by auto
  qed
  note jbk = journaling_key_journal [OF bk] and jhk = journaling_key_journal [OF hk]
  have uB: "\<forall>op \<in> set (ub_ops B). user_op op" using user by simp
  have ne: "bk \<noteq> hk" using journaling_keys_differ [OF hk bk] by simp
  obtain v where v: "b' = ub_add_delete hk (ub_add_delete bk B) \<and> v = None \<or>
        (\<exists>bs. b' = ub_add_insert hk bs (ub_add_delete bk B) \<and> v = Some bs)"
      and v': "if Bs = [] then v = None else \<exists>bs. jb_header bcs ?n = Inr bs \<and> v = Some bs"
    using b' \<open>B' = B\<close> by (cases "Bs = []") auto
  note eff = block_write_effect [OF uB jbk jhk ne v, where c = ?c, folded writes [OF w]]
  have user': "apply_ops (concat (map ub_ops (rev Bs))) (user_part ?c') = target"
    using tgt eff(1) by simp
  show ?thesis
  proof (cases "Bs = []")
    case True
    then show ?thesis using user' v' eff(2) [OF jhk] hk by (simp add: clean_def)
  next
    case False
    have "stored_blocks bcs ?c' Bs"
      by (rule stored_blocks_pop [OF st len hk bk]) (simp add: eff(2))
    then show ?thesis using False user' v' eff(2) [OF jhk] hk len user by (auto simp: pending_def)
  qed
qed

lemma resolve_block_fails:
  "resolve_block K bcs hk n s = (Inl e, s') \<Longrightarrow> contents_of s' = contents_of s"
  unfolding resolve_block_def Let_def
  by (auto simp: sr_simps split: if_splits dest: write_fails)

lemma resolve_loop_recovers:
  assumes "pending bcs (contents_of s) target Bs" and hk: "get_journaling_key bcs KeyTag_Journal 0 = Inr hk"
    and "resolve_loop K bcs hk (of_nat (length Bs)) s = (r, s')"
  shows "recoverable bcs (contents_of s') target \<and> (r = Inr () \<longrightarrow> clean bcs (contents_of s') target)"
  using assms(1,3)
proof (induction Bs arbitrary: s rule: rev_induct)
  case Nil
  then show ?case by (simp add: pending_def)
next
  case (snoc B Bs)
  have len: "Suc (length Bs) < 2 ^ 32" using snoc.prems(1) by (simp add: pending_def)
  have "unat (of_nat (Suc (length Bs)) :: u32) = Suc (length Bs)" by (rule unat_of_nat_small) (use len in simp)
  then have pos: "(of_nat (length (Bs @ [B])) :: u32) > 0"
    unfolding word_less_nat_alt length_append_singleton by simp
  obtain r1 s1 where b: "resolve_block K bcs hk (of_nat (Suc (length Bs))) s = (r1, s1)" by fastforce
  have loop: "(case r1 of Inl e \<Rightarrow> (Inl e, s1) | Inr _ \<Rightarrow> resolve_loop K bcs hk (of_nat (length Bs)) s1) = (r, s')"
    using snoc.prems(2) pos b unfolding resolve_loop.simps [of K bcs hk "of_nat (length (Bs @ [B]))"]
    by (cases r1) (auto split: unit.splits)
  show ?case
  proof (cases r1)
    case (Inl e)
    then have "contents_of s' = contents_of s" and "r = Inl e"
      using loop b resolve_block_fails [of hk "of_nat (Suc (length Bs))" s e s1] by auto
    then show ?thesis using snoc.prems(1) by (auto simp: recoverable_def)
  next
    case (Inr u)
    have step: "if Bs = [] then clean bcs (contents_of s1) target else pending bcs (contents_of s1) target Bs"
      using resolve_block_step [OF snoc.prems(1) hk] b Inr by simp
    show ?thesis
    proof (cases "Bs = []")
      case True
      then have "s' = s1" "r = Inr ()" using loop Inr by (auto simp: resolve_loop.simps)
      then show ?thesis using step True by (simp add: recoverable_def)
    next
      case False
      then show ?thesis using snoc.IH [of s1] step loop Inr by simp
    qed
  qed
qed

lemma resolve_recovers:
  assumes p: "pending bcs (contents_of s) target Bs"
    and r: "coherently_resolve_journal K bcs (of_nat (length Bs)) s = (r, s')"
  shows "recoverable bcs (contents_of s') target \<and> (r = Inr () \<longrightarrow> clean bcs (contents_of s') target)"
proof -
  obtain hk where hk: "get_journaling_key bcs KeyTag_Journal 0 = Inr hk" using p by (auto simp: pending_def)
  have "resolve_loop K bcs hk (of_nat (length Bs)) s = (r, s')"
    using r by (simp add: coherently_resolve_journal_def hk sr_bind_def sr_lift_def)
  then show ?thesis by (rule resolve_loop_recovers [OF p hk])
qed

lemma clear_journal_recovers:
  assumes rec: "recoverable bcs (contents_of s) target" and r: "clear_journal K bcs s = (r, s')"
  shows "recoverable bcs (contents_of s') target \<and> (r = Inr () \<longrightarrow> clean bcs (contents_of s') target)"
proof (cases "\<exists>e. get_journaling_key bcs KeyTag_Journal 0 = Inl e")
  case True
  then show ?thesis using r rec by (auto simp: clear_journal_def sr_bind_def sr_lift_def)
next
  case False
  then obtain hk where hk: "get_journaling_key bcs KeyTag_Journal 0 = Inr hk"
    by (cases "get_journaling_key bcs KeyTag_Journal 0") auto
  show ?thesis
  proof (cases "ds_read_value_bytes K s hk")
    case (Inl e)
    then show ?thesis using r rec hk by (auto simp: clear_journal_def sr_bind_def sr_lift_def)
  next
    case (Inr v)
    have v: "v = contents_of s hk" by (rule reads [OF Inr])
    consider "clean bcs (contents_of s) target" | Bs where "pending bcs (contents_of s) target Bs"
      using rec by (auto simp: recoverable_def)
    then show ?thesis
    proof cases
      case 1
      then have "v = None" using v hk by (simp add: clean_def)
      then have "s' = s" using r Inr hk by (auto simp: clear_journal_def sr_bind_def sr_lift_def sr_ok_def)
      then show ?thesis using 1 rec by simp
    next
      case (2 Bs)
      then obtain bs where bs: "jb_header bcs (of_nat (length Bs)) = Inr bs" "v = Some bs"
        using hk v by (auto simp: pending_def)
      show ?thesis
      proof (cases "jb_header_of bcs bs")
        case (Inl e)
        then show ?thesis using r rec hk Inr bs by (auto simp: clear_journal_def sr_bind_def sr_lift_def)
      next
        case dec: (Inr n)
        then have "n = of_nat (length Bs)" using header_rt [OF bs(1)] by simp
        then have "coherently_resolve_journal K bcs (of_nat (length Bs)) s = (r, s')"
          using r hk Inr bs dec by (simp add: clear_journal_def sr_bind_def sr_lift_def)
        then show ?thesis by (rule resolve_recovers [OF 2])
      qed
    qed
  qed
qed

lemma entries_distinct:
  assumes e: "entries bcs Bs E" and len: "length Bs \<le> 2 ^ 32"
  shows "distinct (map fst E)"
  unfolding distinct_conv_nth
proof (intro allI impI)
  fix i j assume ij: "i < length (map fst E)" "j < length (map fst E)" "i \<noteq> j"
  have l: "length E = length Bs" using e by (simp add: entries_def)
  have k: "get_journaling_key bcs KeyTag_Entry (of_nat i) = Inr (fst (E ! i))"
      "get_journaling_key bcs KeyTag_Entry (of_nat j) = Inr (fst (E ! j))"
    using e ij(1,2) by (simp_all add: entries_def)
  show "map fst E ! i \<noteq> map fst E ! j"
  proof
    assume "map fst E ! i = map fst E ! j"
    then have "fst (E ! i) = fst (E ! j)" using ij by simp
    then have "(of_nat i :: u32) = of_nat j" using entry_keys_differ k by simp
    then have "unat (of_nat i :: u32) = unat (of_nat j :: u32)" by simp
    then show False using ij len l by (simp add: unat_of_nat_small)
  qed
qed

lemma flush_block_inv:
  assumes inv: "journal_inv bcs hk ops rest u js c Bs E w" and len: "Suc (length Bs) < 2 ^ 32" and w: "w \<le> length E"
    and f: "flush_block bcs n js = Inr js'"
  obtains E' where "journal_inv bcs hk ops rest u js' c (Bs @ [js_block_batch js]) E' w"
    and "js_block_batch js' = UnorderedBatch_default" and "w \<le> length E'"
proof -
  obtain key v where k: "get_journaling_key bcs KeyTag_Entry (js_block_count js) = Inr key"
      "jb_batch bcs (js_block_batch js) = Inr v"
      and js': "js_block_batch js' = UnorderedBatch_default" "js_block_count js' = js_block_count js + 1"
        "js_transaction_batch js' = ub_add_insert key v (js_transaction_batch js)"
    using f by (auto simp: flush_block_def result_simps Let_def)
  have cnt: "js_block_count js = of_nat (length Bs)" and e: "entries bcs Bs E"
      and tb: "ub_ops (js_transaction_batch js) = map (\<lambda>(k, v). Put k v) (drop w E)"
      and tk: "\<forall>(k, v) \<in> set (take w E). c k = Some v"
      and ops: "ops = set (concat (map ub_ops Bs)) \<union> set (ub_ops (js_block_batch js)) \<union> rest"
      and c: "user_part c = u" "c hk = None"
    using inv by (simp_all add: journal_inv_def)
  have e': "entries bcs (Bs @ [js_block_batch js]) (E @ [(key, v)])" by (rule entries_snoc [OF e]) (use k cnt in simp_all)
  have "ub_ops (js_transaction_batch js') = map (\<lambda>(k, v). Put k v) (drop w (E @ [(key, v)]))"
    using w tb by (simp add: js'(3) ub_ops_add)
  then have i: "journal_inv bcs hk ops rest u js' c (Bs @ [js_block_batch js]) (E @ [(key, v)]) w"
    using cnt len e' tk ops c w by (auto simp: journal_inv_def js')
  show thesis by (rule that [OF i js'(1)]) (use w in simp)
qed

lemma flush_transaction_inv:
  assumes inv: "journal_inv bcs hk ops rest u js (contents_of s) Bs E w" and w: "w \<le> length E"
    and hk: "get_journaling_key bcs KeyTag_Journal 0 = Inr hk"
    and f: "flush_transaction K js s = (Inr js', s')"
  shows "journal_inv bcs hk ops rest u js' (contents_of s') Bs E (length E)"
    and "js_block_batch js' = js_block_batch js"
proof -
  let ?c = "contents_of s" and ?c' = "contents_of s'"
  have wr: "ds_write_batch K (js_transaction_batch js) s = (Inr (), s')"
      and js': "js' = js\<lparr>js_transaction_batch := UnorderedBatch_default, js_transaction_size := 0\<rparr>"
    using f by (auto simp: flush_transaction_def run_simps)
  have e: "entries bcs Bs E" and len: "length Bs < 2 ^ 32"
      and tb: "ub_ops (js_transaction_batch js) = map (\<lambda>(k, v). Put k v) (drop w E)"
      and tk: "\<forall>(k, v) \<in> set (take w E). ?c k = Some v" and c: "user_part ?c = u" "?c hk = None"
    using inv by (simp_all add: journal_inv_def)
  have dist: "distinct (map fst E)" by (rule entries_distinct [OF e]) (use len in simp)
  have d: "distinct (map fst (drop w E))" using distinct_drop [OF dist, of w] by (simp add: drop_map)
  have c': "?c' k = (case map_of (drop w E) k of Some v \<Rightarrow> Some v | None \<Rightarrow> ?c k)" for k
    using writes [OF wr] tb apply_puts [OF d] by simp
  have jk: "journal_key k \<and> k \<noteq> hk" if kv: "(k, v) \<in> set E" for k v
  proof -
    obtain i where "i < length E" "E ! i = (k, v)" using kv by (auto simp: in_set_conv_nth)
    then have "get_journaling_key bcs KeyTag_Entry (of_nat i) = Inr k" using e by (auto simp: entries_def)
    then show ?thesis using journaling_key_journal journaling_keys_differ [OF hk] by blast
  qed
  have "map_of (drop w E) k = None" if "\<not> journal_key k \<or> k = hk" for k
    using that jk by (metis in_set_dropD map_of_SomeD not_None_eq)
  then have u: "user_part ?c' = u" "?c' hk = None"
    unfolding c(1) [symmetric] using c(2) by (auto simp: user_part_def c' fun_eq_iff)
  have all: "?c' k = Some v" if "(k, v) \<in> set E" for k v
  proof (cases "(k, v) \<in> set (drop w E)")
    case True
    then show ?thesis using d by (simp add: c')
  next
    case False
    have tw: "(k, v) \<in> set (take w E)" using that False by (metis Un_iff append_take_drop_id set_append)
    then have "k \<notin> fst ` set (drop w E)"
      using dist by (metis (no_types, lifting) append_take_drop_id disjoint_iff distinct_append fst_conv image_eqI map_append set_map)
    then have "map_of (drop w E) k = None" by (simp add: map_of_eq_None_iff)
    then show ?thesis using tk tw by (auto simp: c')
  qed
  show "journal_inv bcs hk ops rest u js' ?c' Bs E (length E)"
    using inv u all by (auto simp: journal_inv_def js')
  show "js_block_batch js' = js_block_batch js" by (simp add: js')
qed

lemma journal_body_fails:
  assumes "journal_body K bcs n m iter js s = (Inl e, s')"
  shows "contents_of s' = contents_of s"
  using assms unfolding journal_body_def flush_transaction_def
  by (auto simp: sr_simps split: prod.splits if_splits dest: write_fails)

lemma journal_body_inv:
  assumes inv: "journal_inv bcs hk ops rest u js (contents_of s) Bs E w" and len: "Suc (length Bs) < 2 ^ 32"
    and w: "w \<le> length E" and hk: "get_journaling_key bcs KeyTag_Journal 0 = Inr hk"
    and b: "journal_body K bcs n m iter js s = (Inr js', s')"
  obtains Bs' E' w' where "journal_inv bcs hk ops rest u js' (contents_of s') Bs' E' w'" and "w' \<le> length E'"
    and "length Bs' \<le> Suc (length Bs)" and "ub_iter_is_empty iter \<longrightarrow> ub_ops (js_block_batch js') = [] \<and> w' = length E'"
proof -
  obtain bf tf js1 where fd: "flush_decision K bcs n m iter js = Inr (bf, tf)"
      and fb: "if bf then flush_block bcs n js = Inr js1 else js1 = js"
      and ft: "if tf then flush_transaction K js1 s = (Inr js', s') else js' = js1 \<and> s' = s"
    using b unfolding journal_body_def by (auto simp: run_simps split: if_splits)
  have both: "bf \<and> tf" if "ub_iter_is_empty iter" using fd that by (simp add: flush_decision_def)
  obtain Bs' E' where inv1: "journal_inv bcs hk ops rest u js1 (contents_of s) Bs' E' w" and w1: "w \<le> length E'"
      and l1: "length Bs' \<le> Suc (length Bs)" and b1: "bf \<longrightarrow> ub_ops (js_block_batch js1) = []"
  proof (cases bf)
    case True
    then have "flush_block bcs n js = Inr js1" using fb by simp
    then obtain E' where "journal_inv bcs hk ops rest u js1 (contents_of s) (Bs @ [js_block_batch js]) E' w"
        "js_block_batch js1 = UnorderedBatch_default" "w \<le> length E'"
      using flush_block_inv [OF inv len w] by blast
    then show ?thesis using that by simp
  next
    case False
    then show ?thesis using that [of Bs E] inv w fb by simp
  qed
  show thesis
  proof (cases tf)
    case True
    then have f: "flush_transaction K js1 s = (Inr js', s')" using ft by simp
    note fi = flush_transaction_inv [OF inv1 w1 hk f]
    show thesis by (rule that [OF fi(1) _ l1]) (use both b1 fi(2) in auto)
  next
    case False
    then show thesis using that [of Bs' E' w] inv1 w1 l1 ft both by auto
  qed
qed

lemma journal_loop_blocks:
  assumes "journal_loop K bcs n m iter js s = (r, s')" and hk: "get_journaling_key bcs KeyTag_Journal 0 = Inr hk"
    and "journal_inv bcs hk ops (set (ub_ops iter)) u js (contents_of s) Bs E w" and "w \<le> length E"
    and "length Bs + ub_len iter < 2 ^ 32"
    and "ub_iter_is_empty iter \<longrightarrow> ub_ops (js_block_batch js) = [] \<and> w = length E"
  shows "user_part (contents_of s') = u \<and> contents_of s' hk = None \<and> (\<forall>k. r = Inr k \<longrightarrow>
    (\<exists>Bs. k = of_nat (length Bs) \<and> length Bs < 2 ^ 32 \<and> stored_blocks bcs (contents_of s') Bs
      \<and> ops = set (concat (map ub_ops Bs))))"
  using assms(1,3-)
proof (induction "ub_len iter" arbitrary: iter js s Bs E w rule: less_induct)
  case (less iter js s Bs E w)
  note inv = less.prems(2)
  have c: "user_part (contents_of s) = u" "contents_of s hk = None" using inv by (simp_all add: journal_inv_def)
  let ?next = "ub_write_next_value (jb_serialized_size bcs) iter (js_block_batch js) (js_block_size js)"
  note loop = less.prems(1) [unfolded journal_loop.simps [of K bcs n m iter]]
  show ?case
  proof (cases ?next)
    case (Inl e)
    then show ?thesis using loop c by auto
  next
    case (Inr x)
    obtain t iter' b' n' where x: "?next = Inr (t, iter', b', n')" using Inr by (cases x) auto
    show ?thesis
    proof (cases t)
      case False
      then have ne: "ub_ops iter = [] \<and> ub_iter_is_empty iter" using write_next_False x by fastforce
      have "ops = set (concat (map ub_ops Bs))" "stored_blocks bcs (contents_of s) Bs" "length Bs < 2 ^ 32"
          "js_block_count js = of_nat (length Bs)"
        using inv ne less.prems(5) entries_stored [of bcs Bs E "contents_of s"] by (auto simp: journal_inv_def)
      then show ?thesis using loop x False c by auto
    next
      case True
      have "?next = Inr (True, iter', b', n')" using x True by simp
      note wn = write_next_ops [OF this]
      let ?js = "js\<lparr>js_block_batch := b', js_block_size := n'\<rparr>"
      have inv1: "journal_inv bcs hk ops (set (ub_ops iter')) u ?js (contents_of s) Bs E w"
        using inv wn by (auto simp: journal_inv_def Un_assoc)
      have len: "Suc (length Bs) < 2 ^ 32" using less.prems(4) wn by linarith
      obtain r2 s2 where body: "journal_body K bcs n m iter' ?js s = (r2, s2)" by fastforce
      show ?thesis
      proof (cases r2)
        case (Inl e)
        then have "contents_of s2 = contents_of s" using body journal_body_fails by blast
        then show ?thesis using loop x True body Inl c by auto
      next
        case (Inr js2)
        obtain Bs' E' w' where i2: "journal_inv bcs hk ops (set (ub_ops iter')) u js2 (contents_of s2) Bs' E' w'"
            and w2: "w' \<le> length E'" and l: "length Bs' \<le> Suc (length Bs)"
            and e2: "ub_iter_is_empty iter' \<longrightarrow> ub_ops (js_block_batch js2) = [] \<and> w' = length E'"
          using journal_body_inv [OF inv1 len less.prems(3) hk body [unfolded Inr]] by blast
        have rest: "journal_loop K bcs n m iter' js2 s2 = (r, s')" using loop x True body Inr by simp
        have l2: "length Bs' + ub_len iter' < 2 ^ 32" using l less.prems(4) wn by linarith
        have "ub_len iter' < ub_len iter" using wn by linarith
        from less.hyps [OF this rest i2 w2 l2 e2] show ?thesis .
      qed
    qed
  qed
qed

text \<open>Writing the journal: before the header is written nothing has changed for the user, afterwards the
  batch is pending.\<close>

lemma header_written:
  assumes st: "stored_blocks bcs c Bs" and len: "length Bs < 2 ^ 32" and ne: "Bs \<noteq> []"
    and ops: "set (ub_ops b) = set (concat (map ub_ops Bs))" and un: "unordered (set (ub_ops b))"
    and uo: "\<forall>op \<in> set (ub_ops b). user_op op" and hk: "get_journaling_key bcs KeyTag_Journal 0 = Inr hk"
    and v: "jb_header bcs (of_nat (length Bs)) = Inr v"
  shows "pending bcs (c(hk \<mapsto> v)) (apply_ops (ub_ops b) (user_part c)) Bs"
proof -
  have "stored_blocks bcs (c(hk \<mapsto> v)) Bs"
    unfolding stored_blocks_def
  proof (intro allI impI)
    fix i assume "i < length Bs"
    then obtain key bs where k: "get_journaling_key bcs KeyTag_Entry (of_nat i) = Inr key"
        "jb_batch bcs (Bs ! i) = Inr bs" "c key = Some bs"
      using st unfolding stored_blocks_def by blast
    then show "\<exists>key bs. get_journaling_key bcs KeyTag_Entry (of_nat i) = Inr key \<and> jb_batch bcs (Bs ! i) = Inr bs
        \<and> (c(hk \<mapsto> v)) key = Some bs"
      using journaling_keys_differ [OF hk k(1)] by auto
  qed
  moreover have "user_part (c(hk \<mapsto> v)) = user_part c"
    using journaling_key_journal [OF hk] by (auto simp: user_part_def fun_eq_iff)
  moreover have "apply_ops (concat (map ub_ops (rev Bs))) (user_part c) = apply_ops (ub_ops b) (user_part c)"
    by (rule apply_ops_any_order [OF un]) (auto simp: ops)
  moreover have "\<forall>B \<in> set Bs. \<forall>op \<in> set (ub_ops B). user_op op" using uo unfolding ops by auto
  ultimately show ?thesis using len ne hk v by (simp add: pending_def)
qed

lemma finish_journal:
  assumes cl: "clean bcs (contents_of s) u" and un: "unordered (set (ub_ops b))" and uo: "\<forall>op \<in> set (ub_ops b). user_op op"
    and k: "k = of_nat (length Bs)" and len: "length Bs < 2 ^ 32" and st: "stored_blocks bcs (contents_of s) Bs"
    and ops: "set (ub_ops b) = set (concat (map ub_ops Bs))" and hk: "get_journaling_key bcs KeyTag_Journal 0 = Inr hk"
    and r: "sr_bind (if k > 0 then sr_bind (sr_lift (jb_header bcs k)) (\<lambda>value'.
        ds_write_batch K (ub_add_insert hk value' UnorderedBatch_default)) else sr_ok ()) (\<lambda>_. sr_ok k) s = (r, s')"
  shows "clean bcs (contents_of s') u \<and> (\<forall>n. r = Inr n \<longrightarrow> n = 0 \<and> apply_ops (ub_ops b) u = u) \<or>
    (\<exists>Bs. pending bcs (contents_of s') (apply_ops (ub_ops b) u) Bs \<and> r = Inr (of_nat (length Bs)))"
proof (cases "Bs = []")
  case True
  then have "s' = s" "r = Inr 0" using r k by (auto simp: sr_bind_def sr_ok_def)
  moreover have "ub_ops b = []" using ops True by simp
  ultimately show ?thesis using cl by simp
next
  case False
  have pos: "k > 0" unfolding k word_less_nat_alt using False len by (simp add: unat_of_nat_small)
  show ?thesis
  proof (cases "jb_header bcs k")
    case (Inl e)
    then have "s' = s" "r = Inl e" using r pos by (auto simp: sr_bind_def sr_lift_def)
    then show ?thesis using cl by auto
  next
    case v: (Inr v)
    obtain r2 s2 where w: "ds_write_batch K (ub_add_insert hk v UnorderedBatch_default) s = (r2, s2)" by fastforce
    have rs: "s' = s2" "r = (case r2 of Inl e \<Rightarrow> Inl e | Inr _ \<Rightarrow> Inr k)"
      using r pos v w by (auto simp: sr_bind_def sr_lift_def sr_ok_def split: sum.splits)
    show ?thesis
    proof (cases r2)
      case (Inl e)
      then show ?thesis using write_fails w rs cl by (auto simp: clean_def)
    next
      case (Inr x)
      have "ub_ops (ub_add_insert hk v UnorderedBatch_default) = [Put hk v]" by (simp add: ub_ops_add(2))
      then have "contents_of s2 = (contents_of s)(hk \<mapsto> v)" using writes [of _ s s2] w Inr by fastforce
      moreover have "user_part (contents_of s) = u" using cl by (simp add: clean_def)
      ultimately have "pending bcs (contents_of s') (apply_ops (ub_ops b) u) Bs"
        using header_written [OF st len False ops un uo hk v [unfolded k]] rs(1) by simp
      then show ?thesis using rs(2) Inr k by auto
    qed
  qed
qed

lemma write_journal_outcome:
  assumes cl: "clean bcs (contents_of s) u" and un: "unordered (set (ub_ops b))" and uo: "\<forall>op \<in> set (ub_ops b). user_op op"
    and len: "ub_len b < 2 ^ 32" and r: "write_journal K bcs b s = (r, s')"
  shows "clean bcs (contents_of s') u \<and> (\<forall>n. r = Inr n \<longrightarrow> n = 0 \<and> apply_ops (ub_ops b) u = u) \<or>
    (\<exists>Bs. pending bcs (contents_of s') (apply_ops (ub_ops b) u) Bs \<and> r = Inr (of_nat (length Bs)))"
proof (cases "(\<exists>e. get_journaling_key bcs KeyTag_Journal 0 = Inl e) \<or> (\<exists>e. jb_header bcs 0 = Inl e)")
  case True
  then have "s' = s \<and> (\<exists>e. r = Inl e)"
    using r by (cases "get_journaling_key bcs KeyTag_Journal 0")
      (auto simp: write_journal_def sr_bind_def sr_lift_def)
  then show ?thesis using cl by auto
next
  case False
  then obtain hk h0 where hk: "get_journaling_key bcs KeyTag_Journal 0 = Inr hk" and h0: "jb_header bcs 0 = Inr h0"
    by (metis sum.exhaust)
  define m where "m = min (MAX_VALUE_SIZE K) (MAX_BATCH_TOTAL_SIZE K - length hk - (length hk + length h0))"
  obtain r1 s1 where loop: "journal_loop K bcs (length hk) m b JournalState_new s = (r1, s1)" by fastforce
  have e0: "ub_ops (js_block_batch JournalState_new) = []" by (simp add: JournalState_new_def)
  have init: "journal_inv bcs hk (set (ub_ops b)) (set (ub_ops b)) u JournalState_new (contents_of s) [] [] 0"
    using cl hk by (simp add: journal_inv_def JournalState_new_def entries_def clean_def)
  have out: "user_part (contents_of s1) = u" "contents_of s1 hk = None"
      and blocks: "\<And>k. r1 = Inr k \<Longrightarrow> \<exists>Bs. k = of_nat (length Bs) \<and> length Bs < 2 ^ 32
        \<and> stored_blocks bcs (contents_of s1) Bs \<and> set (ub_ops b) = set (concat (map ub_ops Bs))"
    using journal_loop_blocks [OF loop hk init] len e0 by auto
  have cl1: "clean bcs (contents_of s1) u" using out hk by (simp add: clean_def)
  show ?thesis
  proof (cases r1)
    case (Inl e)
    then have "s' = s1" "r = Inl e"
      using r loop hk h0 by (auto simp: write_journal_def sr_bind_def sr_lift_def Let_def m_def)
    then show ?thesis using cl1 by auto
  next
    case (Inr k)
    then obtain Bs where Bs: "k = of_nat (length Bs)" "length Bs < 2 ^ 32" "stored_blocks bcs (contents_of s1) Bs"
        "set (ub_ops b) = set (concat (map ub_ops Bs))"
      using blocks by blast
    show ?thesis
      by (rule finish_journal [OF cl1 un uo Bs hk])
        (use r loop Inr hk h0 in \<open>simp add: write_journal_def sr_bind_def sr_lift_def Let_def m_def\<close>)
  qed
qed

end

end
