(* ===== verification/Kv_Bcs.thy ===== *)
theory Kv_Bcs
  imports Kv_Keys
begin

text \<open>
  A concrete instance of the \<^verbatim>\<open>bcs\<close> encodings that the storage layer takes as parameters: lengths
  as ULEB128, integers in little-endian order, sequences with their length first. It shows that
  the hypotheses on these parameters can be met.
\<close>

section \<open>Parsers\<close>

type_synonym 'a parser = "bytes \<Rightarrow> ('a \<times> bytes) option"

definition inverts :: "'a parser \<Rightarrow> ('a \<Rightarrow> bytes) \<Rightarrow> bool" where
  "inverts p enc \<longleftrightarrow> (\<forall>x rest. p (enc x @ rest) = Some (x, rest))"

definition parse_all :: "'a parser \<Rightarrow> bytes \<Rightarrow> 'a option" where
  "parse_all p bs = (case p bs of Some (x, []) \<Rightarrow> Some x | _ \<Rightarrow> None)"

lemma parse_all_inverts: "inverts p enc \<Longrightarrow> parse_all p (enc x) = Some x"
  unfolding inverts_def parse_all_def by (metis (no_types, lifting) append.right_neutral list.simps(4) old.prod.case option.simps(5))

section \<open>Lengths\<close>

fun uleb128 :: "nat \<Rightarrow> bytes" where
  "uleb128 n = (if n < 128 then [of_nat n] else of_nat (n mod 128 + 128) # uleb128 (n div 128))"

declare uleb128.simps [simp del]

fun uleb128_of :: "nat parser" where
  "uleb128_of [] = None"
| "uleb128_of (b # bs) =
     (if unat b < 128 then Some (unat b, bs)
      else case uleb128_of bs of None \<Rightarrow> None | Some (n, rest) \<Rightarrow> Some (unat b - 128 + 128 * n, rest))"

lemma unat_byte: "n < 256 \<Longrightarrow> unat (of_nat n :: u8) = n"
  by (rule unat_of_nat_small) simp

lemma uleb128_of_uleb128: "uleb128_of (uleb128 n @ rest) = Some (n, rest)"
proof (induction n rule: uleb128.induct)
  case (1 n)
  show ?case
  proof (cases "n < 128")
    case True
    then show ?thesis by (simp add: uleb128.simps [of n] unat_byte)
  next
    case False
    have b: "unat (of_nat (n mod 128 + 128) :: u8) = n mod 128 + 128" by (rule unat_byte) linarith
    show ?thesis using 1 False b by (simp add: uleb128.simps [of n] del: of_nat_add)
  qed
qed

lemma uleb128_loop_shift:
  "0 < pow \<Longrightarrow> uleb128_loop len (pow * 128) (Suc expo) = Suc (uleb128_loop (len div 128) pow expo)"
proof (induction "len div 128" pow expo rule: uleb128_loop.induct)
  case (1 pow expo)
  have "pow * 128 \<le> len \<longleftrightarrow> pow \<le> len div 128" by (simp add: less_eq_div_iff_mult_less_eq)
  then show ?case
    using 1 by (subst (1 2) uleb128_loop.simps) (simp add: mult.assoc)
qed

lemma length_uleb128: "length (uleb128 n) = get_uleb128_size n"
proof (induction n rule: uleb128.induct)
  case (1 n)
  show ?case
  proof (cases "n < 128")
    case True
    then show ?thesis by (simp add: uleb128.simps [of n] get_uleb128_size_def uleb128_loop.simps [of n])
  next
    case False
    then have "get_uleb128_size n = Suc (get_uleb128_size (n div 128))"
      using uleb128_loop_shift [of 128 n 1] by (simp add: get_uleb128_size_def uleb128_loop.simps [of n 128])
    then show ?thesis using 1 False by (simp add: uleb128.simps [of n])
  qed
qed

section \<open>Integers\<close>

primrec le_bytes :: "nat \<Rightarrow> nat \<Rightarrow> bytes" where
  "le_bytes 0 n = []"
| "le_bytes (Suc w) n = of_nat (n mod 256) # le_bytes w (n div 256)"

primrec le_nat :: "nat \<Rightarrow> nat parser" where
  "le_nat 0 bs = Some (0, bs)"
| "le_nat (Suc w) bs = (case bs of [] \<Rightarrow> None
     | b # rest \<Rightarrow> (case le_nat w rest of None \<Rightarrow> None | Some (n, rest) \<Rightarrow> Some (unat b + 256 * n, rest)))"

lemma le_nat_le_bytes: "n < 256 ^ w \<Longrightarrow> le_nat w (le_bytes w n @ rest) = Some (n, rest)"
proof (induction w arbitrary: n)
  case (Suc w)
  have "n div 256 < 256 ^ w" using Suc.prems by (simp add: less_mult_imp_div_less)
  then show ?case using Suc.IH by (simp add: unat_byte)
qed simp

lemma length_le_bytes [simp]: "length (le_bytes w n) = w"
  by (induction w arbitrary: n) auto

definition bcs_u32 :: "u32 \<Rightarrow> bytes" where
  "bcs_u32 x = le_bytes 4 (unat x)"

definition bcs_u32_of :: "u32 parser" where
  "bcs_u32_of bs = map_option (\<lambda>(n, rest). (of_nat n, rest)) (le_nat 4 bs)"

lemma bcs_u32_inverts: "inverts bcs_u32_of bcs_u32"
proof -
  have "unat x < 256 ^ 4" for x :: u32 using unsigned_less [where 'a = nat, of x] by simp
  then show ?thesis by (simp add: inverts_def bcs_u32_of_def bcs_u32_def le_nat_le_bytes)
qed

definition bcs_usize :: "nat \<Rightarrow> bytes" where
  "bcs_usize x = le_bytes 8 x"

section \<open>Sequences\<close>

definition bcs_bytes :: "bytes \<Rightarrow> bytes" where
  "bcs_bytes bs = uleb128 (length bs) @ bs"

definition bcs_bytes_of :: "bytes parser" where
  "bcs_bytes_of bs = (case uleb128_of bs of None \<Rightarrow> None
     | Some (n, rest) \<Rightarrow> if n \<le> length rest then Some (take n rest, drop n rest) else None)"

lemma bcs_bytes_inverts: "inverts bcs_bytes_of bcs_bytes"
  by (simp add: inverts_def bcs_bytes_of_def bcs_bytes_def uleb128_of_uleb128)

definition bcs_pair :: "('a \<Rightarrow> bytes) \<Rightarrow> ('b \<Rightarrow> bytes) \<Rightarrow> 'a \<times> 'b \<Rightarrow> bytes" where
  "bcs_pair f g p = f (fst p) @ g (snd p)"

definition bcs_pair_of :: "'a parser \<Rightarrow> 'b parser \<Rightarrow> ('a \<times> 'b) parser" where
  "bcs_pair_of p q bs = (case p bs of None \<Rightarrow> None
     | Some (x, rest) \<Rightarrow> (case q rest of None \<Rightarrow> None | Some (y, rest) \<Rightarrow> Some ((x, y), rest)))"

lemma bcs_pair_inverts: "inverts p f \<Longrightarrow> inverts q g \<Longrightarrow> inverts (bcs_pair_of p q) (bcs_pair f g)"
  by (simp add: inverts_def bcs_pair_of_def bcs_pair_def)

definition bcs_list :: "('a \<Rightarrow> bytes) \<Rightarrow> 'a list \<Rightarrow> bytes" where
  "bcs_list f xs = uleb128 (length xs) @ concat (map f xs)"

primrec parse_items :: "'a parser \<Rightarrow> nat \<Rightarrow> 'a list parser" where
  "parse_items p 0 bs = Some ([], bs)"
| "parse_items p (Suc n) bs = (case p bs of None \<Rightarrow> None
     | Some (x, rest) \<Rightarrow> (case parse_items p n rest of None \<Rightarrow> None | Some (xs, rest) \<Rightarrow> Some (x # xs, rest)))"

definition bcs_list_of :: "'a parser \<Rightarrow> 'a list parser" where
  "bcs_list_of p bs = (case uleb128_of bs of None \<Rightarrow> None | Some (n, rest) \<Rightarrow> parse_items p n rest)"

lemma bcs_list_inverts: "inverts p f \<Longrightarrow> inverts (bcs_list_of p) (bcs_list f)"
proof -
  assume p: "inverts p f"
  have "parse_items p (length xs) (concat (map f xs) @ rest) = Some (xs, rest)" for xs rest
    by (induction xs) (use p in \<open>auto simp: inverts_def\<close>)
  then show ?thesis by (simp add: inverts_def bcs_list_of_def bcs_list_def uleb128_of_uleb128)
qed

end
