(* ===== verification/Kv_Journal_Props.thy ===== *)
theory Kv_Journal_Props
  imports Kv_Journal Kv_Bcs
begin

text \<open>
  Properties of the journaling store: a batch is written entirely or not at all, whatever call of
  the inner store fails and however often the recovery is interrupted.
\<close>

section \<open>Outcomes\<close>

context journaled
begin

lemma find_expands: "expands (ds_find_keys_by_prefix K s) (contents_of s)"
  unfolding expands_def using finds by blast

lemma user_below: "user_op op \<Longrightarrow> prefix (op_key op) (op_key op') \<Longrightarrow> user_op op'"
  by (auto simp: user_op_def prefix_def)

lemma write_batch_outcome:
  assumes cl: "clean bcs (contents_of s) u" and uo: "\<forall>op \<in> set batch. user_op op"
    and len: "\<And>b. UnorderedBatch_from_batch (ds_find_keys_by_prefix K s) batch = Inr b \<Longrightarrow> ub_len b < 2 ^ 32"
    and r: "journal_write_batch K bcs batch s = (r, s')"
  shows "(clean bcs (contents_of s') u \<or> recoverable bcs (contents_of s') (apply_ops batch u))
    \<and> (r = Inr () \<longrightarrow> clean bcs (contents_of s') (apply_ops batch u))"
proof (cases "UnorderedBatch_from_batch (ds_find_keys_by_prefix K s) batch")
  case (Inl e)
  then have "s' = s" "r = Inl e" using r by (auto simp: journal_write_batch_def sr_bind_def)
  then show ?thesis using cl by auto
next
  case (Inr b)
  note un = UnorderedBatch_from_batch_sound(1) [OF find_expands Inr]
  have ub: "\<forall>op \<in> set (ub_ops b). user_op op"
    using UnorderedBatch_from_batch_keys [OF find_expands Inr] uo user_below by blast
  have u: "user_part (contents_of s) = u" using cl by (simp add: clean_def)
  have eq: "apply_ops (ub_ops b) u = apply_ops batch u"
    using UnorderedBatch_from_batch_sound(2) [OF find_expands Inr] filter_user_ops [OF ub] filter_user_ops [OF uo]
      user_part_ops [of "ub_ops b" "contents_of s"] user_part_ops [of batch "contents_of s"] ub uo u by simp
  show ?thesis
  proof (cases "is_fastpath_feasible K b")
    case True
    then have w: "ds_write_batch K b s = (r, s')" using r Inr by (simp add: journal_write_batch_def sr_bind_def)
    show ?thesis
    proof (cases r)
      case (Inl e)
      then show ?thesis using write_fails w cl by (auto simp: clean_def)
    next
      case (Inr x)
      then have c: "contents_of s' = apply_ops (ub_ops b) (contents_of s)" using writes w by simp
      then have up: "user_part (contents_of s') = apply_ops batch u"
        using user_part_ops [of "ub_ops b" "contents_of s"] filter_user_ops [OF ub] ub eq u by simp
      have jp: "contents_of s' k = contents_of s k" if "journal_key k" for k
        using journal_part_ops [of "ub_ops b" k "contents_of s"] filter_user_ops [OF ub] ub that c by simp
      have "clean bcs (contents_of s') (apply_ops batch u)"
        using cl up jp unfolding clean_def by (metis journaling_key_journal)
      then show ?thesis by (simp add: recoverable_def)
    qed
  next
    case False
    obtain r1 s1 where w: "write_journal K bcs b s = (r1, s1)" by fastforce
    have run: "(case r1 of Inl e \<Rightarrow> (Inl e, s1) | Inr n \<Rightarrow> coherently_resolve_journal K bcs n s1) = (r, s')"
      using r Inr False w by (auto simp: journal_write_batch_def sr_bind_def split: sum.splits)
    have out: "clean bcs (contents_of s1) u \<and> (\<forall>n. r1 = Inr n \<longrightarrow> n = 0 \<and> apply_ops batch u = u) \<or>
        (\<exists>Bs. pending bcs (contents_of s1) (apply_ops batch u) Bs \<and> r1 = Inr (of_nat (length Bs)))"
      using write_journal_outcome [OF cl un ub len [OF Inr] w] unfolding eq .
    then show ?thesis
    proof
      assume c: "clean bcs (contents_of s1) u \<and> (\<forall>n. r1 = Inr n \<longrightarrow> n = 0 \<and> apply_ops batch u = u)"
      have "s' = s1"
        using run c by (cases r1) (auto simp: coherently_resolve_journal_def sr_bind_def sr_lift_def resolve_loop.simps
            split: sum.splits)
      then show ?thesis using c run by (cases r1) auto
    next
      assume "\<exists>Bs. pending bcs (contents_of s1) (apply_ops batch u) Bs \<and> r1 = Inr (of_nat (length Bs))"
      then show ?thesis using run resolve_recovers by auto
    qed
  qed
qed

text \<open>Recovery may itself be interrupted any number of times.\<close>

lemma recovery_attempts:
  assumes "(\<lambda>s s'. \<exists>r. clear_journal K bcs s = (r, s'))\<^sup>*\<^sup>* s s'" and "recoverable bcs (contents_of s) target"
  shows "recoverable bcs (contents_of s') target"
  using assms by (induction rule: rtranclp_induct) (use clear_journal_recovers in blast)+

end

section \<open>The property\<close>

text \<open>The store in memory as the inner store, with limits on its writes and a schedule of the
  writes that fail; and the concrete encodings.\<close>

definition sound_map :: "MemoryStoreMap \<Rightarrow> MemoryStoreMap" where
  "sound_map m = (if bt_ok m then m else [])"

definition memory_direct :: "nat \<Rightarrow> nat \<Rightarrow> nat \<Rightarrow> (MemoryStoreMap \<times> bool list, string) DirectStore" where
  "memory_direct items max_total max_value =
     \<lparr>ds_read_value_bytes = (\<lambda>(m, _) key. Inr (mem_read_value_bytes (sound_map m) key)),
      ds_find_keys_by_prefix = (\<lambda>(m, _) key_prefix. Inr (mem_find_keys_by_prefix (sound_map m) key_prefix)),
      ds_write_batch = (\<lambda>b (m, failures). case failures of
          True # rest \<Rightarrow> (Inl ''write failed'', (m, rest))
        | _ \<Rightarrow> (Inr (), (mem_write_batch (ub_ops b) (sound_map m), tl failures))),
      MAX_BATCH_SIZE = items, MAX_BATCH_TOTAL_SIZE = max_total, MAX_VALUE_SIZE = max_value\<rparr>"

definition bcs_unordered_batch :: "UnorderedBatch \<Rightarrow> bytes" where
  "bcs_unordered_batch b = bcs_list bcs_bytes (key_prefix_deletions b)
     @ bcs_list bcs_bytes (deletions (simple_unordered_batch b))
     @ bcs_list (bcs_pair bcs_bytes bcs_bytes) (insertions (simple_unordered_batch b))"

definition bcs_unordered_batch_of :: "bytes \<Rightarrow> UnorderedBatch option" where
  "bcs_unordered_batch_of bs = map_option (\<lambda>(ps, ds, ins). \<lparr>key_prefix_deletions = ps,
       simple_unordered_batch = \<lparr>deletions = ds, insertions = ins\<rparr>\<rparr>)
     (parse_all (bcs_pair_of (bcs_list_of bcs_bytes_of)
       (bcs_pair_of (bcs_list_of bcs_bytes_of) (bcs_list_of (bcs_pair_of bcs_bytes_of bcs_bytes_of)))) bs)"

definition journal_bcs :: "string JournalBcs" where
  "journal_bcs =
     \<lparr>jb_serialized_size = (\<lambda>bs. Inr (length (bcs_bytes bs))), jb_u32 = (\<lambda>n. Inr (bcs_u32 n)),
      jb_header = (\<lambda>n. Inr (bcs_u32 n)), jb_header_of = (\<lambda>bs. ok_or (parse_all bcs_u32_of bs) ''bcs''),
      jb_batch = (\<lambda>b. Inr (bcs_unordered_batch b)),
      jb_batch_of = (\<lambda>bs. ok_or (bcs_unordered_batch_of bs) ''bcs''),
      jb_missing_block = ''missing block'', jb_assertion_failed = ''assertion failed''\<rparr>"

lemma bcs_unordered_batch_inverts: "bcs_unordered_batch_of (bcs_unordered_batch b) = Some b"
proof -
  let ?p = "bcs_pair_of (bcs_list_of bcs_bytes_of)
       (bcs_pair_of (bcs_list_of bcs_bytes_of) (bcs_list_of (bcs_pair_of bcs_bytes_of bcs_bytes_of)))"
  let ?f = "bcs_pair (bcs_list bcs_bytes) (bcs_pair (bcs_list bcs_bytes) (bcs_list (bcs_pair bcs_bytes bcs_bytes)))"
  have "inverts ?p ?f" by (intro bcs_pair_inverts bcs_list_inverts bcs_bytes_inverts)
  moreover have "bcs_unordered_batch b = ?f (key_prefix_deletions b, deletions (simple_unordered_batch b),
      insertions (simple_unordered_batch b))"
    by (simp add: bcs_unordered_batch_def bcs_pair_def)
  ultimately show ?thesis by (simp add: bcs_unordered_batch_of_def parse_all_inverts)
qed

lemma bcs_u32_inj: "bcs_u32 m = bcs_u32 n \<Longrightarrow> m = n"
  using parse_all_inverts [OF bcs_u32_inverts] by (metis option.inject)

lemma sound_map_ok [simp]: "bt_ok (sound_map m)"
  by (simp add: sound_map_def)

lemma sound_map_id [simp]: "bt_ok m \<Longrightarrow> sound_map m = m"
  by (simp add: sound_map_def)

interpretation memory_journal: journaled "memory_direct items max_total max_value" journal_bcs "\<lambda>(m, _). bt_get (sound_map m)"
  for items max_total max_value
proof unfold_locales
  fix b :: UnorderedBatch and s s' :: "MemoryStoreMap \<times> bool list"
  assume w: "ds_write_batch (memory_direct items max_total max_value) b s = (Inr (), s')"
  then show "(\<lambda>(m, _). bt_get (sound_map m)) s' = apply_ops (ub_ops b) ((\<lambda>(m, _). bt_get (sound_map m)) s)"
    using mem_write_batch_ok [OF sound_map_ok, of "ub_ops b"]
    by (cases s) (auto simp: memory_direct_def split: list.splits bool.splits)
qed (auto simp: memory_direct_def journal_bcs_def mem_read_value_bytes_def mem_find_keys_ok
    parse_all_inverts [OF bcs_u32_inverts] bcs_unordered_batch_inverts dest: bcs_u32_inj split: list.splits bool.splits)

text \<open>A batch too large for one write of the store. The write of its first block fails after the journal
  is complete, and so does the second write of the first recovery.\<close>

definition sample_store :: "(MemoryStoreMap \<times> bool list, string) DirectStore" where
  "sample_store = memory_direct 10 40 40"

definition sample_state :: "MemoryStoreMap \<times> bool list" where
  "sample_state = ([([7], [1])], [False, False, False, True, False, True])"

definition sample_batch :: "WriteOperation list" where
  "sample_batch = [Put [7, 1] (replicate 20 3), Delete [7], Put [7, 2] (replicate 20 4)]"

definition sample_failed :: "(string + unit) \<times> MemoryStoreMap \<times> bool list" where
  "sample_failed = journal_write_batch sample_store journal_bcs sample_batch sample_state"

definition sample_interrupted :: "(string + unit) \<times> MemoryStoreMap \<times> bool list" where
  "sample_interrupted = clear_journal sample_store journal_bcs (snd sample_failed)"

definition sample_recovered :: "(string + unit) \<times> MemoryStoreMap \<times> bool list" where
  "sample_recovered = clear_journal sample_store journal_bcs (snd sample_interrupted)"

lemma sample_outcomes:
  "fst sample_failed = Inl ''write failed''" "fst sample_interrupted = Inl ''write failed''" "fst sample_recovered = Inr ()"
  by code_simp+

lemma sample_batch_small:
  "case UnorderedBatch_from_batch (ds_find_keys_by_prefix sample_store sample_state) sample_batch of
     Inl _ \<Rightarrow> False | Inr b \<Rightarrow> ub_len b = 3"
  by code_simp

lemma sample_no_journal:
  "case get_journaling_key journal_bcs KeyTag_Journal 0 of Inl _ \<Rightarrow> False
     | Inr key \<Rightarrow> bt_get (sound_map (fst sample_state)) key = None"
  by code_simp

lemmas sample_journaled = memory_journal.journaled_axioms [of 10 40 40, folded sample_store_def]

lemma journal_sample_run:
  "\<forall>key. get_journaling_key journal_bcs KeyTag_Journal 0 = Inr key \<longrightarrow> (\<lambda>(m, _). bt_get (sound_map m)) sample_state key = None"
  "\<forall>op \<in> set sample_batch. user_op op"
  "UnorderedBatch_from_batch (ds_find_keys_by_prefix sample_store sample_state) sample_batch = Inr b \<Longrightarrow> ub_len b < 2 ^ 32"
  "journal_write_batch sample_store journal_bcs sample_batch sample_state = (fst sample_failed, snd sample_failed)"
  "(\<lambda>s s'. \<exists>r. clear_journal sample_store journal_bcs s = (r, s'))\<^sup>*\<^sup>* (snd sample_failed) (snd sample_interrupted)"
  using sample_no_journal sample_batch_small
  by (auto simp: case_prod_unfold sample_batch_def user_op_def journal_key_def MIN_VIEW_TAG_def sample_failed_def
      sample_interrupted_def prod_eq_iff split: sum.splits intro!: r_into_rtranclp)

text \<open>C11. A batch is written atomically. Start without a journal and write a batch whose keys are not those
  of the journal. Whatever call of the inner store fails, and after any number of interrupted
  recoveries, a recovery that succeeds leaves no journal and the contents are those before the batch
  or those after all its operations; if the write reported success, they are the latter.\<close>

theorem journal_atomic:
  assumes "journaled K bcs contents_of"
    and "\<forall>key. get_journaling_key bcs KeyTag_Journal 0 = Inr key \<longrightarrow> contents_of s key = None"
    and "\<forall>op \<in> set batch. user_op op"
    and "\<And>b. UnorderedBatch_from_batch (ds_find_keys_by_prefix K s) batch = Inr b \<Longrightarrow> ub_len b < 2 ^ 32"
    and "journal_write_batch K bcs batch s = (r, s1)"
    and "(\<lambda>s s'. \<exists>r. clear_journal K bcs s = (r, s'))\<^sup>*\<^sup>* s1 s2"
    and "clear_journal K bcs s2 = (Inr (), s3)"
  shows "(user_part (contents_of s3) = user_part (contents_of s)
      \<or> user_part (contents_of s3) = apply_ops batch (user_part (contents_of s)))
    \<and> (r = Inr () \<longrightarrow> user_part (contents_of s3) = apply_ops batch (user_part (contents_of s)))
    \<and> (\<forall>key. get_journaling_key bcs KeyTag_Journal 0 = Inr key \<longrightarrow> contents_of s3 key = None)"
proof -
  let ?u = "user_part (contents_of s)"
  have cl: "clean bcs (contents_of s) ?u" using assms(2) by (simp add: clean_def)
  note out = journaled.write_batch_outcome [OF assms(1) cl assms(3,4,5)]
  have fin: "clean bcs (contents_of s3) target" if "recoverable bcs (contents_of s1) target" for target
    using journaled.clear_journal_recovers [OF assms(1) journaled.recovery_attempts [OF assms(1) assms(6) that] assms(7)]
    by simp
  have "clean bcs (contents_of s3) ?u \<and> r \<noteq> Inr () \<or> clean bcs (contents_of s3) (apply_ops batch ?u)"
    using out fin [of ?u] fin [of "apply_ops batch ?u"] by (auto simp: recoverable_def)
  then show ?thesis by (auto simp: clean_def)
qed

theorem journal_atomic_witness:
  "let now = \<lambda>s. user_part (bt_get (sound_map (fst s))) in
   fst sample_failed = Inl ''write failed'' \<and> fst sample_interrupted = Inl ''write failed''
   \<and> fst sample_recovered = Inr ()
   \<and> (now (snd sample_recovered) = now sample_state
      \<or> now (snd sample_recovered) = apply_ops sample_batch (now sample_state))"
proof -
  have "clear_journal sample_store journal_bcs (snd sample_interrupted) = (Inr (), snd sample_recovered)"
    using sample_outcomes(3) by (simp add: sample_recovered_def prod_eq_iff)
  from journal_atomic [OF sample_journaled journal_sample_run this] show ?thesis
    by (simp add: sample_outcomes Let_def case_prod_unfold)
qed

end
