(* ===== verification/Kv_Props.thy ===== *)
theory Kv_Props
  imports Kv_Journal_Props
begin

text \<open>
  Properties of batches and of the stores that execute them.
\<close>

text \<open>C22. Batches can be executed out of order. The operations of a batch are meant one after the other.
  Turned into an unordered batch, or into one without deletions of prefixes, with the help of a store
  that lists its keys, any order of the resulting operations has the same effect on that store.\<close>

theorem unordered_batches_equivalent:
  assumes "\<forall>p. \<exists>ks. expand p = Inr ks \<and> set ks = {k. st (p @ k) \<noteq> None}"
  shows "(\<exists>b. UnorderedBatch_from_batch expand batch = Inr b
      \<and> (\<forall>ops. set ops = set (ub_ops b) \<longrightarrow> apply_ops ops st = apply_ops batch st))
    \<and> (\<exists>b. SimpleUnorderedBatch_from_batch expand batch = Inr b
      \<and> (\<forall>ops. set ops = set (simple_ops b) \<longrightarrow> apply_ops ops st = apply_ops batch st))"
proof -
  have e: "expands expand st" unfolding expands_def using assms by (metis sum.inject(2))
  have t: "\<exists>ks. expand p = Inr ks" for p using assms by blast
  obtain b c where b: "UnorderedBatch_from_batch expand batch = Inr b"
      and c: "SimpleUnorderedBatch_from_batch expand batch = Inr c"
    using from_batch_total [where expand = expand and batch = batch] t by blast
  note ub = UnorderedBatch_from_batch_sound [OF e b] and sb = SimpleUnorderedBatch_from_batch_sound [OF e c]
  show ?thesis
    by (intro conjI exI [of _ b] exI [of _ c] b c allI impI) (simp_all add: apply_ops_any_order [OF ub(1)] apply_ops_any_order [OF sb(1)] ub sb)
qed

theorem unordered_batches_equivalent_witness:
  "let m = [([1, 0], [5]), ([1, 1], [6])]; batch = [DeletePrefix [1], Put [1, 2] [7]] in
   (\<exists>b. UnorderedBatch_from_batch (\<lambda>p. Inr (mem_find_keys_by_prefix m p) :: string + bytes list) batch = Inr b
      \<and> apply_ops (rev (ub_ops b)) (bt_get m) = apply_ops batch (bt_get m))"
proof -
  let ?m = "[([1, 0], [5]), ([1, 1], [6])] :: MemoryStoreMap" and ?batch = "[DeletePrefix [1], Put [1, 2] [7]]"
  have ok: "bt_ok ?m" by (simp add: bt_ok_def)
  have 1: "\<forall>p. \<exists>ks. (Inr (mem_find_keys_by_prefix ?m p) :: string + bytes list) = Inr ks
      \<and> set ks = {k. bt_get ?m (p @ k) \<noteq> None}"
    using mem_find_keys_ok(2) [OF ok] by blast
  show ?thesis using unordered_batches_equivalent [OF 1, of ?batch] unfolding Let_def by (metis set_rev)
qed

end
