(* ===== verification/Kv_Recovery.thy ===== *)
theory Kv_Recovery
  imports Kv_Journal_Props
begin

text \<open>
  Recovery completes: once the inner store works again, one recovery is enough.
\<close>

section \<open>A store that works\<close>

locale reliable_journal = journaled +
  assumes read_works: "\<exists>v. ds_read_value_bytes K s k = Inr v"
    and write_works: "\<exists>s'. ds_write_batch K b s = (Inr (), s')"
    and u32_works: "\<exists>bs. jb_u32 bcs n = Inr bs"
    and header_works: "\<exists>bs. jb_header bcs n = Inr bs"
    and header_decodes: "jb_header bcs n = Inr bs \<Longrightarrow> \<exists>m. jb_header_of bcs bs = Inr m"
    and batch_decodes: "jb_batch bcs b = Inr bs \<Longrightarrow> \<exists>b'. jb_batch_of bcs bs = Inr b'"
begin

lemma key_works: "\<exists>k. get_journaling_key bcs tag n = Inr k"
  using u32_works [of n] by (auto simp: get_journaling_key_def)

lemma read_exact: "ds_read_value_bytes K s k = Inr (contents_of s k)"
  using read_works [of s k] reads by blast

lemma resolve_block_works:
  assumes p: "pending bcs (contents_of s) target (Bs @ [B])"
  shows "\<exists>s'. resolve_block K bcs hk (of_nat (Suc (length Bs))) s = (Inr (), s')"
proof -
  let ?n = "of_nat (length Bs) :: u32"
  obtain bk bs where bk: "get_journaling_key bcs KeyTag_Entry ?n = Inr bk" "jb_batch bcs B = Inr bs" "contents_of s bk = Some bs"
    using p unfolding pending_def stored_blocks_def by (metis length_append_singleton lessI nth_append_length)
  obtain B' where B': "jb_batch_of bcs bs = Inr B'" using batch_decodes [OF bk(2)] by blast
  obtain v where v: "jb_header bcs ?n = Inr v" using header_works by blast
  have n: "of_nat (Suc (length Bs)) - 1 = ?n" by simp
  show ?thesis
    unfolding resolve_block_def n Let_def
    using write_works by (simp add: sr_bind_def sr_lift_def sr_ok_def bk B' v read_exact)
qed

lemma resolve_loop_works:
  assumes "pending bcs (contents_of s) target Bs" and hk: "get_journaling_key bcs KeyTag_Journal 0 = Inr hk"
  shows "\<exists>s'. resolve_loop K bcs hk (of_nat (length Bs)) s = (Inr (), s')"
  using assms(1)
proof (induction Bs arbitrary: s rule: rev_induct)
  case (snoc B Bs)
  obtain s1 where b: "resolve_block K bcs hk (of_nat (Suc (length Bs))) s = (Inr (), s1)"
    using resolve_block_works [OF snoc.prems] by blast
  have "\<exists>s'. resolve_loop K bcs hk (of_nat (length Bs)) s1 = (Inr (), s')"
    using resolve_block_step [OF snoc.prems hk b] snoc.IH by (cases "Bs = []") (simp_all add: resolve_loop.simps)
  then show ?case using b unfolding resolve_loop.simps [of K bcs hk "of_nat (length (Bs @ [B]))"]
    by (auto split: unit.splits)
qed (simp add: pending_def)

lemma clear_journal_works:
  assumes "recoverable bcs (contents_of s) target"
  shows "\<exists>s'. clear_journal K bcs s = (Inr (), s')"
proof -
  obtain hk where hk: "get_journaling_key bcs KeyTag_Journal 0 = Inr hk" using key_works by blast
  consider "clean bcs (contents_of s) target" | Bs where "pending bcs (contents_of s) target Bs"
    using assms by (auto simp: recoverable_def)
  then show ?thesis
  proof cases
    case 1
    then have "contents_of s hk = None" using hk by (simp add: clean_def)
    then show ?thesis by (simp add: clear_journal_def sr_bind_def sr_lift_def sr_ok_def hk read_exact)
  next
    case (2 Bs)
    then obtain bs where bs: "jb_header bcs (of_nat (length Bs)) = Inr bs" "contents_of s hk = Some bs"
      using hk by (auto simp: pending_def)
    have "jb_header_of bcs bs = Inr (of_nat (length Bs))" using header_decodes [OF bs(1)] header_rt [OF bs(1)] by blast
    then show ?thesis using resolve_loop_works [OF 2 hk] bs hk
      by (simp add: clear_journal_def coherently_resolve_journal_def sr_bind_def sr_lift_def read_exact)
  qed
qed

end

text \<open>The store in memory when no write is refused.\<close>

definition memory_reliable :: "nat \<Rightarrow> nat \<Rightarrow> nat \<Rightarrow> (MemoryStoreMap \<times> bool list, string) DirectStore" where
  "memory_reliable items max_total max_value = (memory_direct items max_total max_value)
     \<lparr>ds_write_batch := (\<lambda>b (m, failures). (Inr (), (mem_write_batch (ub_ops b) (sound_map m), failures)))\<rparr>"

interpretation memory_works: reliable_journal "memory_reliable items max_total max_value" journal_bcs
    "\<lambda>(m, _). bt_get (sound_map m)"
  for items max_total max_value
proof unfold_locales
  fix b :: UnorderedBatch and s s' :: "MemoryStoreMap \<times> bool list"
  assume w: "ds_write_batch (memory_reliable items max_total max_value) b s = (Inr (), s')"
  then show "(\<lambda>(m, _). bt_get (sound_map m)) s' = apply_ops (ub_ops b) ((\<lambda>(m, _). bt_get (sound_map m)) s)"
    using mem_write_batch_ok [OF sound_map_ok, of "ub_ops b"]
    by (cases s) (auto simp: memory_reliable_def memory_direct_def)
next
  fix s :: "MemoryStoreMap \<times> bool list" and p ks
  assume "ds_find_keys_by_prefix (memory_reliable items max_total max_value) s p = Inr ks"
  then show "set ks = {k. (\<lambda>(m, _). bt_get (sound_map m)) s (p @ k) \<noteq> None}"
    using memory_journal.finds [of items max_total max_value s p ks] by (simp add: memory_reliable_def)
qed (auto simp: memory_reliable_def memory_direct_def journal_bcs_def mem_read_value_bytes_def
    parse_all_inverts [OF bcs_u32_inverts] bcs_unordered_batch_inverts dest: bcs_u32_inj)

section \<open>Recovery\<close>

text \<open>C12. Recovery completes. Write a batch through the journal, with any call of the inner store failing, and
  interrupt any number of recoveries. When the inner store works again, the next recovery returns, with the
  contents before the batch or those after all its operations.\<close>

theorem recovery_completes:
  assumes "journaled K bcs contents_of" and "reliable_journal K' bcs contents_of"
    and "\<forall>key. get_journaling_key bcs KeyTag_Journal 0 = Inr key \<longrightarrow> contents_of s key = None"
    and "\<forall>op \<in> set batch. user_op op"
    and "\<And>b. UnorderedBatch_from_batch (ds_find_keys_by_prefix K s) batch = Inr b \<Longrightarrow> ub_len b < 2 ^ 32"
    and "journal_write_batch K bcs batch s = (r, s1)"
    and "(\<lambda>s s'. \<exists>r. clear_journal K bcs s = (r, s'))\<^sup>*\<^sup>* s1 s2"
  shows "\<exists>s3. clear_journal K' bcs s2 = (Inr (), s3)
    \<and> (user_part (contents_of s3) = user_part (contents_of s)
       \<or> user_part (contents_of s3) = apply_ops batch (user_part (contents_of s)))"
proof -
  let ?u = "user_part (contents_of s)"
  have cl: "clean bcs (contents_of s) ?u" using assms(3) by (simp add: clean_def)
  have "recoverable bcs (contents_of s1) ?u \<or> recoverable bcs (contents_of s1) (apply_ops batch ?u)"
    using journaled.write_batch_outcome [OF assms(1) cl assms(4,5,6)] by (auto simp: recoverable_def)
  then obtain target where t: "target = ?u \<or> target = apply_ops batch ?u" "recoverable bcs (contents_of s2) target"
    using journaled.recovery_attempts [OF assms(1,7)] by blast
  obtain s3 where s3: "clear_journal K' bcs s2 = (Inr (), s3)"
    using reliable_journal.clear_journal_works [OF assms(2) t(2)] by blast
  have "journaled K' bcs contents_of" using assms(2) by (simp add: reliable_journal_def)
  from journaled.clear_journal_recovers [OF this t(2) s3] t(1) s3 show ?thesis by (auto simp: clean_def)
qed

theorem recovery_completes_witness:
  "\<exists>s3. clear_journal (memory_reliable 10 40 40) journal_bcs (snd sample_interrupted) = (Inr (), s3)
    \<and> (user_part (bt_get (sound_map (fst s3))) = user_part (bt_get (sound_map (fst sample_state)))
       \<or> user_part (bt_get (sound_map (fst s3))) = apply_ops sample_batch (user_part (bt_get (sound_map (fst sample_state)))))"
  using recovery_completes [OF sample_journaled memory_works.reliable_journal_axioms [of 10 40 40] journal_sample_run]
  by (simp add: case_prod_unfold)

end
