(* ===== verification/Chain_Worker.thy ===== *)
theory Chain_Worker
  imports Block_Execution
begin

text \<open>
  The worker of one chain (\<^verbatim>\<open>linera-core/src/chain_worker/state\<close>): it validates and votes for proposals,
  processes certificates, receives and acknowledges messages, and persists or rolls back the changes.
  The storage client, its clock and the value caches that all workers share are the parameter
  \<open>World\<close>, with their state as the type \<open>'w\<close>; any of its calls may fail. Collections that the code
  keeps in hash sets are sets.
\<close>

section \<open>Requests and responses\<close>

datatype WorkerError =
    Worker_CryptoError
  | Worker_ArithmeticError ArithmeticError
  | Worker_ViewError string
  | Worker_ChainError ChainError
  | InvalidOwner
  | Worker_InvalidSigner Owner
  | Worker_UnexpectedBlockHeight BlockHeight BlockHeight
  | Worker_MissingEarlierBlocks BlockHeight
  | InvalidEpoch ChainId Epoch Epoch
  | InvalidCrossChainRequest
  | InvalidBlockChaining
  | IncorrectOutcome BlockExecutionOutcome BlockExecutionOutcome
  | InvalidTimestamp
  | MissingCertificateValue
  | InvalidLiteCertificate
  | UnneededValue CryptoHash
  | UnneededBlob BlobId
  | MissingExecutedBlockInProposal
  | FastBlockUsingOracles
  | BlobsNotFound "BlobId set"
  | InvalidBlockProposal string
  | FullChainWorkerCache
  | JoinError
  | Worker_Panic string

datatype Reason =
    NewBlock BlockHeight CryptoHash
  | NewIncomingBundle Origin BlockHeight
  | NewRound BlockHeight Round

type_synonym Notification = "ChainId \<times> Reason"

datatype CrossChainRequest =
    UpdateRecipient ChainId ChainId "(Medium \<times> (Epoch \<times> MessageBundle) list) list"
  | ConfirmUpdatedRecipient ChainId ChainId "(Medium \<times> BlockHeight) list"

record NetworkActions =
  na_cross_chain_requests :: "CrossChainRequest list"
  na_notifications :: "Notification list"

record ChainInfoQuery =
  q_chain_id :: ChainId
  q_test_next_block_height :: "BlockHeight option"
  q_request_owner_balance :: "Owner option"
  q_request_committees :: bool
  q_request_pending_message_bundles :: bool
  q_request_sent_certificate_hashes_in_range :: "(BlockHeight \<times> u64 option) option"
  q_request_received_log_excluding_first_n :: "u64 option"
  q_request_manager_values :: bool
  q_request_leader_timeout :: bool
  q_request_fallback :: bool

record ChainInfo =
  ci_chain_id :: ChainId
  ci_epoch :: "Epoch option"
  ci_description :: "ChainDescription option"
  ci_manager :: ChainManagerInfo
  ci_chain_balance :: Amount
  ci_block_hash :: "CryptoHash option"
  ci_timestamp :: Timestamp
  ci_next_block_height :: BlockHeight
  ci_state_hash :: "CryptoHash option"
  ci_requested_owner_balance :: "Amount option"
  ci_requested_committees :: "(Epoch, Committee) btree option"
  ci_requested_pending_message_bundles :: "IncomingBundle list"
  ci_requested_sent_certificate_hashes :: "CryptoHash list"
  ci_count_received_log :: nat
  ci_requested_received_log :: "ChainAndHeight list"

record ChainInfoResponse =
  cr_info :: ChainInfo
  cr_signature :: "Signature option"

section \<open>State\<close>

record ChainWorkerConfig =
  wc_key_pair :: "KeyPair option"
  wc_allow_inactive_chains :: bool
  wc_allow_messages_from_deprecated_epochs :: bool
  wc_grace_period :: nat

record 'w World =
  w_current_time :: "'w \<Rightarrow> Timestamp \<times> 'w"
  w_sleep_until :: "Timestamp \<Rightarrow> 'w \<Rightarrow> 'w"
  w_save_chain :: "ChainStateView \<Rightarrow> ('w, WorkerError, unit) sr"
  w_read_certificate :: "'w \<Rightarrow> CryptoHash \<Rightarrow> WorkerError + Certificate"
  w_read_certificates :: "'w \<Rightarrow> CryptoHash list \<Rightarrow> WorkerError + Certificate list"
  w_missing_blobs :: "'w \<Rightarrow> BlobId set \<Rightarrow> WorkerError + BlobId set"
  w_read_blob :: "'w \<Rightarrow> BlobId \<Rightarrow> Blob option"
  w_write_blobs_and_certificate :: "Blob set \<Rightarrow> Certificate \<Rightarrow> ('w, WorkerError, unit) sr"
  w_maybe_write_blob_states :: "BlobId set \<Rightarrow> CryptoHash \<Rightarrow> Epoch \<Rightarrow> ('w, WorkerError, unit) sr"
  w_cache_value :: "HashedCertificateValue \<Rightarrow> 'w \<Rightarrow> 'w"
  w_cache_blob :: "Blob \<Rightarrow> 'w \<Rightarrow> 'w"
  w_has_cached_blob :: "'w \<Rightarrow> BlobId \<Rightarrow> bool"
  w_try_get_many :: "BlobId set \<Rightarrow> 'w \<Rightarrow> (BlobId \<rightharpoonup> Blob) \<times> 'w"

record 'w WorkerEnv =
  we_config :: ChainWorkerConfig
  we_chain :: ChainEnv
  we_world :: "'w World"
  we_sign_info :: "ChainInfo \<Rightarrow> KeyPair \<Rightarrow> Signature"

text \<open>The state of a worker. \<open>ws_chain\<close> is the view with its staged changes, \<open>ws_saved\<close> what it
  would be without them; \<open>ws_succeeded\<close> is the flag of the wrapper of attempted changes.\<close>

record 'w WorkerState =
  ws_chain :: ChainStateView
  ws_saved :: ChainStateView
  ws_world :: 'w
  ws_tracked_chains :: "ChainId set option"
  ws_knows_chain_is_active :: bool
  ws_succeeded :: bool

type_synonym ('w, 'a) worker = "('w WorkerState, WorkerError, 'a) sr"

definition on_world :: "('w, WorkerError, 'a) sr \<Rightarrow> ('w, 'a) worker" where
  "on_world m s = (let (r, w) = m (ws_world s) in (r, s\<lparr>ws_world := w\<rparr>))"

definition in_chain :: "'a chain \<Rightarrow> ('w, 'a) worker" where
  "in_chain m s = (let (r, c) = m (ws_chain s) in (map_err Worker_ChainError r, s\<lparr>ws_chain := c\<rparr>))"

definition current_time :: "'w WorkerEnv \<Rightarrow> ('w, Timestamp) worker" where
  "current_time env s = (let (t, w) = w_current_time (we_world env) (ws_world s) in (Inr t, s\<lparr>ws_world := w\<rparr>))"

definition tip :: "'w WorkerState \<Rightarrow> ChainTipState" where
  "tip s = cs_tip_state (ws_chain s)"

definition system_of :: "'w WorkerState \<Rightarrow> SystemExecutionStateView" where
  "system_of s = ex_system (cs_execution_state (ws_chain s))"

definition map_manager :: "(ChainManager \<Rightarrow> ChainManager) \<Rightarrow> ('w, unit) worker" where
  "map_manager f = sr_modify (\<lambda>s. s\<lparr>ws_chain := (ws_chain s)\<lparr>cs_manager := f (cs_manager (ws_chain s))\<rparr>\<rparr>)"

definition NetworkActions_default :: NetworkActions where
  "NetworkActions_default = \<lparr>na_cross_chain_requests = [], na_notifications = []\<rparr>"

section \<open>Saving and rolling back\<close>

text \<open>Persists the staged changes. When the write fails nothing was persisted.\<close>

definition save :: "'w WorkerEnv \<Rightarrow> ('w, unit) worker" where
  "save env =
     sr_bind (sr_get ws_chain) (\<lambda>c.
     sr_bind (on_world (w_save_chain (we_world env) c)) (\<lambda>_.
     sr_modify (\<lambda>s. s\<lparr>ws_saved := c, ws_succeeded := True\<rparr>)))"

definition rollback :: "'w WorkerState \<Rightarrow> 'w WorkerState" where
  "rollback s = s\<lparr>ws_chain := ws_saved s\<rparr>"

text \<open>The two wrappers: changes that are rolled back unless they were saved, and changes that are
  always rolled back. Both assert that nothing is staged when they start.\<close>

definition has_pending_changes :: "'w WorkerState \<Rightarrow> bool" where
  "has_pending_changes s \<longleftrightarrow> ws_chain s \<noteq> ws_saved s"

definition assert_no_pending_changes :: "('w, unit) worker" where
  "assert_no_pending_changes =
     sr_bind (sr_get has_pending_changes) (\<lambda>leftover.
     sr_ensure (\<not> leftover) (Worker_Panic ''`ChainStateView` has unexpected leftover changes''))"

definition with_attempted_changes :: "('w, 'a) worker \<Rightarrow> ('w, 'a) worker" where
  "with_attempted_changes m =
     sr_bind assert_no_pending_changes (\<lambda>_ s.
     let (r, s) = m (s\<lparr>ws_succeeded := False\<rparr>) in (r, if ws_succeeded s then s else rollback s))"

definition with_temporary_changes :: "('w, 'a) worker \<Rightarrow> ('w, 'a) worker" where
  "with_temporary_changes m =
     sr_bind assert_no_pending_changes (\<lambda>_ s. let (r, s) = m s in (r, rollback s))"

lemma wrappers_run:
  assumes "ws_chain s = ws_saved s"
  shows "with_attempted_changes m s =
      (let (r, s) = m (s\<lparr>ws_succeeded := False\<rparr>) in (r, if ws_succeeded s then s else rollback s))"
    and "with_temporary_changes m s = (let (r, s) = m s in (r, rollback s))"
  using assms
  by (simp_all add: with_attempted_changes_def with_temporary_changes_def assert_no_pending_changes_def has_pending_changes_def
      sr_bind_def sr_get_def sr_ensure_def)

section \<open>Information about a chain\<close>

definition ChainInfo_from :: "ChainEnv \<Rightarrow> ChainStateView \<Rightarrow> ChainInfo" where
  "ChainInfo_from env view =
     (let system_state = ex_system (cs_execution_state view); tip_state = cs_tip_state view in
      \<lparr>ci_chain_id = env_chain_id env, ci_epoch = sy_epoch system_state, ci_description = sy_description system_state,
       ci_manager = ChainManagerInfo_from (ce_sampler env) (cs_manager view), ci_chain_balance = sy_balance system_state,
       ci_block_hash = block_hash tip_state, ci_timestamp = sy_timestamp system_state,
       ci_next_block_height = next_block_height tip_state, ci_state_hash = cs_execution_state_hash view,
       ci_requested_owner_balance = None, ci_requested_committees = None, ci_requested_pending_message_bundles = [],
       ci_requested_sent_certificate_hashes = [], ci_count_received_log = length (cs_received_log view),
       ci_requested_received_log = []\<rparr>)"

definition ChainInfoResponse_new :: "'w WorkerEnv \<Rightarrow> ChainInfo \<Rightarrow> KeyPair option \<Rightarrow> ChainInfoResponse" where
  "ChainInfoResponse_new env info key_pair =
     \<lparr>cr_info = info, cr_signature = map_option (we_sign_info env info) key_pair\<rparr>"

definition current_info :: "'w WorkerEnv \<Rightarrow> 'w WorkerState \<Rightarrow> ChainInfoResponse" where
  "current_info env s =
     ChainInfoResponse_new env (ChainInfo_from (we_chain env) (ws_chain s)) (wc_key_pair (we_config env))"

section \<open>Checks\<close>

definition worker_ensure_is_active :: "'w WorkerEnv \<Rightarrow> ('w, unit) worker" where
  "worker_ensure_is_active env =
     sr_bind (sr_get ws_knows_chain_is_active) (\<lambda>known.
     if known then sr_ok ()
     else sr_bind (sr_get (\<lambda>s. ensure_is_active (we_chain env) (ws_chain s))) (\<lambda>r.
       sr_bind (sr_lift (map_err Worker_ChainError r)) (\<lambda>_.
       sr_modify (\<lambda>s. s\<lparr>ws_knows_chain_is_active := True\<rparr>))))"

definition expect_committee :: "('w, Epoch \<times> Committee) worker" where
  "expect_committee =
     sr_bind (sr_get (\<lambda>s. current_committee (system_of s))) (\<lambda>c.
     sr_lift (ok_or c (Worker_Panic ''chain is active'')))"

definition check_block_epoch :: "Epoch \<Rightarrow> Block \<Rightarrow> WorkerError + unit" where
  "check_block_epoch chain_epoch b = ensure (epoch b = chain_epoch) (InvalidEpoch (chain_id b) chain_epoch (epoch b))"

definition check_certificate :: "'w WorkerEnv \<Rightarrow> Certificate \<Rightarrow> Committee \<Rightarrow> WorkerError + HashedCertificateValue" where
  "check_certificate env cert committee =
     map_err Worker_ChainError (Certificate_check (ce_crypto (we_chain env)) cert committee)"

fun remove_provided :: "Blob list \<Rightarrow> BlobId set \<Rightarrow> WorkerError + BlobId set" where
  "remove_provided [] required = Inr required"
| "remove_provided (blob # blobs) required =
     bind_r (ensure (b_id blob \<in> required) (UnneededBlob (b_id blob))) (\<lambda>_.
     remove_provided blobs (required - {b_id blob}))"

definition get_missing_blobs :: "'w WorkerEnv \<Rightarrow> 'w WorkerState \<Rightarrow> BlobId set \<Rightarrow> Blob list \<Rightarrow> WorkerError + BlobId set" where
  "get_missing_blobs env s required blobs =
     bind_r (remove_provided blobs required) (\<lambda>required.
     let pending_blobs = m_pending_blobs (cs_manager (ws_chain s));
         blob_ids = {b \<in> required. \<not> w_has_cached_blob (we_world env) (ws_world s) b \<and> pending_blobs b = None}
     in w_missing_blobs (we_world env) (ws_world s) blob_ids)"

definition check_no_missing_blobs :: "'w WorkerEnv \<Rightarrow> BlobId set \<Rightarrow> Blob list \<Rightarrow> ('w, unit) worker" where
  "check_no_missing_blobs env blobs_in_block blobs =
     sr_bind (sr_get (\<lambda>s. get_missing_blobs env s blobs_in_block blobs)) (\<lambda>r.
     sr_bind (sr_lift r) (\<lambda>missing.
     sr_ensure (missing = {}) (BlobsNotFound missing)))"

definition get_blobs :: "'w WorkerEnv \<Rightarrow> BlobId set \<Rightarrow> ('w, Blob set) worker" where
  "get_blobs env blob_ids s =
     (let pending_blobs = m_pending_blobs (cs_manager (ws_chain s));
          (found, w) = w_try_get_many (we_world env) blob_ids (ws_world s);
          lookup = (\<lambda>b. case found b of Some blob \<Rightarrow> Some blob
                      | None \<Rightarrow> case pending_blobs b of Some blob \<Rightarrow> Some blob
                      | None \<Rightarrow> w_read_blob (we_world env) w b);
          missing = {b \<in> blob_ids. lookup b = None}
      in (if missing = {} then Inr ((\<lambda>b. the (lookup b)) ` blob_ids) else Inl (BlobsNotFound missing), s\<lparr>ws_world := w\<rparr>))"

definition cache_recent_blobs :: "'w WorkerEnv \<Rightarrow> Blob list \<Rightarrow> ('w, unit) worker" where
  "cache_recent_blobs env blobs = sr_modify (\<lambda>s. s\<lparr>ws_world := fold (w_cache_blob (we_world env)) blobs (ws_world s)\<rparr>)"

definition cache_value :: "'w WorkerEnv \<Rightarrow> HashedCertificateValue \<Rightarrow> ('w, unit) worker" where
  "cache_value env v = sr_modify (\<lambda>s. s\<lparr>ws_world := w_cache_value (we_world env) v (ws_world s)\<rparr>)"

section \<open>Cross-chain requests\<close>

text \<open>Within a request the media are in the order of the outboxes, which stands for the order of the code's map.\<close>

definition is_tracked_target :: "ChainId set option \<Rightarrow> Target \<Rightarrow> bool" where
  "is_tracked_target tracked target = (case tracked of None \<Rightarrow> True | Some tracked_chains \<Rightarrow> recipient target \<in> tracked_chains)"

definition heights_by_recipient ::
  "ChainId set option \<Rightarrow> (Target \<times> OutboxStateView) list \<Rightarrow> (ChainId, (Medium \<times> BlockHeight list) list) btree" where
  "heights_by_recipient tracked outboxes =
     fold (\<lambda>(target, outbox) m. bt_insert (recipient target)
         (AList.update (target_medium target) (outbox_queue outbox)
           (case bt_get m (recipient target) of Some hs \<Rightarrow> hs | None \<Rightarrow> [])) m)
       (filter (\<lambda>(target, _). is_tracked_target tracked target) outboxes) []"

fun collect_bundles ::
  "(BlockHeight \<times> Certificate) list \<Rightarrow> Medium \<Rightarrow> ChainId \<Rightarrow> BlockHeight list \<Rightarrow> WorkerError + (Epoch \<times> MessageBundle) list" where
  "collect_bundles certificates medium rcp [] = Inr []"
| "collect_bundles certificates medium rcp (h # hs) =
     bind_r (ok_or (map_of certificates h) (Worker_ChainError (InternalError ''missing certificates''))) (\<lambda>cert.
     bind_r (collect_bundles certificates medium rcp hs) (\<lambda>bundles.
     Inr (message_bundles_for cert medium rcp @ bundles)))"

fun collect_bundle_vecs ::
  "(BlockHeight \<times> Certificate) list \<Rightarrow> ChainId \<Rightarrow> (Medium \<times> BlockHeight list) list
    \<Rightarrow> WorkerError + (Medium \<times> (Epoch \<times> MessageBundle) list) list" where
  "collect_bundle_vecs certificates rcp [] = Inr []"
| "collect_bundle_vecs certificates rcp ((medium, hs) # rest) =
     bind_r (collect_bundles certificates medium rcp hs) (\<lambda>bundles.
     bind_r (collect_bundle_vecs certificates rcp rest) (\<lambda>vecs.
     Inr (if bundles \<noteq> [] then (medium, bundles) # vecs else vecs)))"

fun confirmed_hashes :: "CryptoHash list \<Rightarrow> BlockHeight list \<Rightarrow> WorkerError + CryptoHash list" where
  "confirmed_hashes log [] = Inr []"
| "confirmed_hashes log (h # hs) =
     bind_r (ok_or (nth_opt log (unat h)) (Worker_ViewError ''confirmed log entry'')) (\<lambda>hash'.
     bind_r (confirmed_hashes log hs) (\<lambda>hashes. Inr (hash' # hashes)))"

definition create_cross_chain_request ::
  "'w WorkerEnv \<Rightarrow> 'w WorkerState \<Rightarrow> (Medium \<times> BlockHeight list) list \<Rightarrow> ChainId \<Rightarrow> WorkerError + CrossChainRequest" where
  "create_cross_chain_request env s height_map rcp =
     (let heights = sort (remdups (concat (map snd height_map))) in
      bind_r (confirmed_hashes (cs_confirmed_log (ws_chain s)) heights) (\<lambda>hashes.
      bind_r (w_read_certificates (we_world env) (ws_world s) hashes) (\<lambda>certificates.
      bind_r (collect_bundle_vecs (zip heights certificates) rcp height_map) (\<lambda>bundle_vecs.
      Inr (UpdateRecipient (env_chain_id (we_chain env)) rcp bundle_vecs)))))"

fun create_requests ::
  "'w WorkerEnv \<Rightarrow> 'w WorkerState \<Rightarrow> (ChainId \<times> (Medium \<times> BlockHeight list) list) list \<Rightarrow> WorkerError + CrossChainRequest list" where
  "create_requests env s [] = Inr []"
| "create_requests env s ((rcp, height_map) # rest) =
     bind_r (create_cross_chain_request env s height_map rcp) (\<lambda>request.
     bind_r (create_requests env s rest) (\<lambda>requests. Inr (request # requests)))"

definition create_network_actions :: "'w WorkerEnv \<Rightarrow> ('w, NetworkActions) worker" where
  "create_network_actions env =
     sr_bind (sr_get (\<lambda>s. create_requests env s
       (heights_by_recipient (ws_tracked_chains s) (cs_outboxes (ws_chain s))))) (\<lambda>r.
     sr_bind (sr_lift r) (\<lambda>requests.
     sr_ok \<lparr>na_cross_chain_requests = requests, na_notifications = []\<rparr>))"

definition all_messages_to_tracked_chains_delivered_up_to :: "'w WorkerState \<Rightarrow> BlockHeight \<Rightarrow> bool" where
  "all_messages_to_tracked_chains_delivered_up_to s h =
     (if all_messages_delivered_up_to (ws_chain s) h then True
      else case ws_tracked_chains s of
          None \<Rightarrow> False
        | Some tracked_chains \<Rightarrow> list_all (\<lambda>(target, outbox).
            recipient target \<in> tracked_chains \<longrightarrow> (case outbox_queue outbox of front # _ \<Rightarrow> \<not> front \<le> h | [] \<Rightarrow> True))
            (cs_outboxes (ws_chain s)))"

definition new_chain_ids :: "'w WorkerEnv \<Rightarrow> ExecutedBlock \<Rightarrow> ChainId list" where
  "new_chain_ids env eb =
     (let msgs = concat (messages (outcome eb))
      in map (\<lambda>(index, _). child_chain (exec_sys (ce_exec (we_chain env))) (message_id eb index))
           (filter (\<lambda>(_, m). matches_open_chain (om_message m) \<noteq> None) (zip (map of_nat [0..<length msgs]) msgs)))"

definition track_newly_created_chains :: "'w WorkerEnv \<Rightarrow> ExecutedBlock \<Rightarrow> ('w, unit) worker" where
  "track_newly_created_chains env eb =
     sr_modify (\<lambda>s. s\<lparr>ws_tracked_chains := map_option (\<lambda>tracked_chains. tracked_chains \<union> set (new_chain_ids env eb)) (ws_tracked_chains s)\<rparr>)"

section \<open>Certificates\<close>

definition new_round_notification :: "ChainId \<Rightarrow> BlockHeight \<Rightarrow> Round \<Rightarrow> Round \<Rightarrow> NetworkActions" where
  "new_round_notification cid h old_round round =
     (if round > old_round then NetworkActions_default\<lparr>na_notifications := [(cid, NewRound h round)]\<rparr>
      else NetworkActions_default)"

definition try_process_timeout ::
  "'w WorkerEnv \<Rightarrow> Certificate \<Rightarrow> ('w, ChainInfoResponse \<times> NetworkActions) worker" where
  "try_process_timeout env cert =
     (case hv_value (cert_value cert) of
        Timeout cid h e \<Rightarrow>
          sr_bind (worker_ensure_is_active env) (\<lambda>_.
          sr_bind expect_committee (\<lambda>(chain_epoch, committee).
          sr_bind (sr_ensure (e = chain_epoch) (InvalidEpoch cid chain_epoch e)) (\<lambda>_.
          sr_bind (sr_lift (check_certificate env cert committee)) (\<lambda>_.
          sr_bind (sr_get (\<lambda>s. already_validated_block (tip s) h)) (\<lambda>r.
          sr_bind (sr_lift (map_err Worker_ChainError r)) (\<lambda>already.
          if already then sr_bind (sr_get (current_info env)) (\<lambda>info. sr_ok (info, NetworkActions_default))
          else
          sr_bind (sr_get (\<lambda>s. m_current_round (cs_manager (ws_chain s)))) (\<lambda>old_round.
          sr_bind (current_time env) (\<lambda>local_time.
          sr_bind (map_manager (\<lambda>m. handle_timeout_certificate m cert local_time)) (\<lambda>_.
          sr_bind (sr_get (\<lambda>s. m_current_round (cs_manager (ws_chain s)))) (\<lambda>round.
          sr_bind (sr_get (current_info env)) (\<lambda>info.
          sr_bind (save env) (\<lambda>_.
          sr_ok (info, new_round_notification cid h old_round round)))))))))))))
      | _ \<Rightarrow> sr_err (Worker_Panic ''Expecting a leader timeout certificate''))"

text \<open>A validated block: the worker votes to confirm it, unless it did already. The last component
  tells whether the certificate was a duplicate.\<close>

definition try_process_validated_block ::
  "'w WorkerEnv \<Rightarrow> Certificate \<Rightarrow> Blob list \<Rightarrow> ('w, ChainInfoResponse \<times> NetworkActions \<times> bool) worker" where
  "try_process_validated_block env cert blobs =
     (case hv_value (cert_value cert) of
        ValidatedBlock eb \<Rightarrow>
          sr_bind (worker_ensure_is_active env) (\<lambda>_.
          sr_bind expect_committee (\<lambda>(e, committee).
          sr_bind (sr_lift (check_block_epoch e (block eb))) (\<lambda>_.
          sr_bind (sr_lift (check_certificate env cert committee)) (\<lambda>_.
          sr_bind (sr_get (\<lambda>s. already_validated_block (tip s) (height (block eb)))) (\<lambda>r.
          sr_bind (sr_lift (map_err Worker_ChainError r)) (\<lambda>already.
          sr_bind (if already then sr_ok True
            else sr_bind (sr_get (\<lambda>s. check_validated_block (cs_manager (ws_chain s)) cert)) (\<lambda>r.
              sr_bind (sr_lift (map_err Worker_ChainError r)) (\<lambda>out. sr_ok (out = Outcome_Skip)))) (\<lambda>skip.
          if skip then sr_bind (sr_get (current_info env)) (\<lambda>info. sr_ok (info, NetworkActions_default, True))
          else
          sr_bind (cache_value env (cert_value cert)) (\<lambda>_.
          sr_bind (check_no_missing_blobs env (required_blob_ids eb) blobs) (\<lambda>_.
          sr_bind (sr_get (\<lambda>s. m_current_round (cs_manager (ws_chain s)))) (\<lambda>old_round.
          sr_bind (current_time env) (\<lambda>local_time.
          sr_bind (map_manager (\<lambda>m. create_final_vote (ce_crypto (we_chain env)) m cert
            (wc_key_pair (we_config env)) local_time)) (\<lambda>_.
          sr_bind (sr_get (current_info env)) (\<lambda>info.
          sr_bind (save env) (\<lambda>_.
          sr_bind (sr_get (\<lambda>s. m_current_round (cs_manager (ws_chain s)))) (\<lambda>round.
          sr_ok (info, new_round_notification (env_chain_id (we_chain env)) (height (block eb)) old_round round, False))))))))))))))))
      | _ \<Rightarrow> sr_err (Worker_Panic ''Expecting a validation certificate''))"

text \<open>The first block of an inactive chain may start with the message that opens it.\<close>

definition init_first_block :: "'w WorkerEnv \<Rightarrow> Block \<Rightarrow> ('w, unit) worker" where
  "init_first_block env b =
     sr_bind (sr_get (\<lambda>s. is_first_block (tip s) \<and> \<not> chain_is_active (ws_chain s))) (\<lambda>first.
     case (first, starts_with_open_chain_message b) of
       (True, Some (in_bundle, posted_message, config)) \<Rightarrow>
         sr_bind (current_time env) (\<lambda>local_time.
         sr_bind (in_chain (execute_init_message (we_chain env)
             \<lparr>mid_chain_id = sender (ib_origin in_bundle), mid_height = mb_height (ib_bundle in_bundle),
              mid_index = pm_index posted_message\<rparr> config (mb_timestamp (ib_bundle in_bundle)) local_time)) (\<lambda>_.
         sr_ok ()))
     | _ \<Rightarrow> sr_ok ())"

text \<open>Advances the tip and the log of confirmed blocks. The counters wrap around.\<close>

definition advance_tip :: "Certificate \<Rightarrow> ExecutedBlock \<Rightarrow> ('w, unit) worker" where
  "advance_tip cert eb =
     sr_bind (sr_modify (\<lambda>s. s\<lparr>ws_chain := (ws_chain s)\<lparr>cs_tip_state := (tip s)\<lparr>block_hash := Some (hv_hash (cert_value cert))\<rparr>\<rparr>\<rparr>)) (\<lambda>_.
     sr_bind (sr_get (\<lambda>s. try_add_one (next_block_height (tip s)))) (\<lambda>r.
     sr_bind (sr_lift (map_err Worker_ArithmeticError r)) (\<lambda>h.
     sr_modify (\<lambda>s. s\<lparr>ws_chain := (ws_chain s)\<lparr>
       cs_tip_state := (tip s)\<lparr>next_block_height := h,
         num_incoming_bundles := num_incoming_bundles (tip s) + of_nat (length (incoming_bundles (block eb))),
         num_operations := num_operations (tip s) + of_nat (length (operations (block eb))),
         num_outgoing_messages := num_outgoing_messages (tip s) + of_nat (length (messages (outcome eb)))\<rparr>,
       cs_confirmed_log := cs_confirmed_log (ws_chain s) @ [hv_hash (cert_value cert)]\<rparr>\<rparr>))))"

text \<open>The block of the certificate is the next one: verify, store, execute and advance.\<close>

definition confirm_next_block ::
  "'w WorkerEnv \<Rightarrow> Certificate \<Rightarrow> ExecutedBlock \<Rightarrow> Blob list \<Rightarrow> ChainTipState
    \<Rightarrow> ('w, ChainInfoResponse \<times> NetworkActions) worker" where
  "confirm_next_block env cert eb blobs tip_state =
     (let b = block eb in
      sr_bind (init_first_block env b) (\<lambda>_.
      sr_bind (worker_ensure_is_active env) (\<lambda>_.
      sr_bind expect_committee (\<lambda>(e, committee).
      sr_bind (sr_lift (check_block_epoch e b)) (\<lambda>_.
      sr_bind (sr_lift (check_certificate env cert committee)) (\<lambda>_.
      sr_bind (sr_ensure (block_hash tip_state = previous_block_hash b) InvalidBlockChaining) (\<lambda>_.
      sr_bind (check_no_missing_blobs env (required_blob_ids eb) blobs) (\<lambda>_.
      sr_bind (cache_recent_blobs env blobs) (\<lambda>_.
      sr_bind (get_blobs env (required_blob_ids eb)) (\<lambda>blobs_in_block.
      sr_bind (on_world (w_write_blobs_and_certificate (we_world env) blobs_in_block cert)) (\<lambda>_.
      sr_bind (on_world (w_maybe_write_blob_states (we_world env) (required_blob_ids eb) (hv_hash (cert_value cert))
        (value_epoch (hv_value (cert_value cert))))) (\<lambda>_.
      sr_bind (in_chain (remove_bundles_from_inboxes (we_chain env) b)) (\<lambda>_.
      sr_bind (current_time env) (\<lambda>local_time.
      sr_bind (in_chain (execute_block (we_chain env) b local_time (Some (oracle_responses (outcome eb))))) (\<lambda>verified_outcome.
      sr_bind (sr_ensure (outcome eb = verified_outcome) (IncorrectOutcome verified_outcome (outcome eb))) (\<lambda>_.
      sr_bind (advance_tip cert eb) (\<lambda>_.
      sr_bind (sr_get (current_info env)) (\<lambda>info.
      sr_bind (track_newly_created_chains env eb) (\<lambda>_.
      sr_bind (create_network_actions env) (\<lambda>actions.
      sr_bind (save env) (\<lambda>_.
      sr_bind (cache_value env (cert_value cert)) (\<lambda>_.
      sr_ok (info, actions\<lparr>na_notifications := na_notifications actions @
        [(chain_id b, NewBlock (height b) (hv_hash (cert_value cert)))]\<rparr>)))))))))))))))))))))))"

definition try_process_confirmed_block ::
  "'w WorkerEnv \<Rightarrow> Certificate \<Rightarrow> Blob list \<Rightarrow> ('w, ChainInfoResponse \<times> NetworkActions) worker" where
  "try_process_confirmed_block env cert blobs =
     (case hv_value (cert_value cert) of
        ConfirmedBlock eb \<Rightarrow>
          sr_bind (sr_get tip) (\<lambda>tip_state.
          if next_block_height tip_state < height (block eb)
          then sr_err (Worker_MissingEarlierBlocks (next_block_height tip_state))
          else if next_block_height tip_state > height (block eb)
          then sr_bind (sr_get (current_info env)) (\<lambda>info.
            sr_bind (create_network_actions env) (\<lambda>actions. sr_ok (info, actions)))
          else confirm_next_block env cert eb blobs tip_state)
      | _ \<Rightarrow> sr_err (Worker_Panic ''Expecting a confirmation certificate''))"

section \<open>Messages from other chains\<close>

record CrossChainUpdateHelper =
  h_allow_messages_from_deprecated_epochs :: bool
  h_current_epoch :: "Epoch option"
  h_committees :: "(Epoch, Committee) btree"

definition CrossChainUpdateHelper_new :: "ChainWorkerConfig \<Rightarrow> ChainStateView \<Rightarrow> CrossChainUpdateHelper" where
  "CrossChainUpdateHelper_new config c =
     \<lparr>h_allow_messages_from_deprecated_epochs = wc_allow_messages_from_deprecated_epochs config,
      h_current_epoch = sy_epoch (ex_system (cs_execution_state c)),
      h_committees = sy_committees (ex_system (cs_execution_state c))\<rparr>"

definition is_trusted :: "CrossChainUpdateHelper \<Rightarrow> BlockHeight option \<Rightarrow> Epoch \<times> MessageBundle \<Rightarrow> bool" where
  "is_trusted self last_anticipated = (\<lambda>(e, bundle).
     h_allow_messages_from_deprecated_epochs self
     \<or> (case last_anticipated of None \<Rightarrow> False | Some h \<Rightarrow> mb_height bundle \<le> h)
     \<or> (case h_current_epoch self of None \<Rightarrow> True | Some current \<Rightarrow> e \<ge> current)
     \<or> bt_contains (h_committees self) e)"

text \<open>The loop over the bundles: how many leading bundles are repeated, and up to where they are trusted.\<close>

fun select_loop ::
  "CrossChainUpdateHelper \<Rightarrow> BlockHeight \<Rightarrow> BlockHeight option \<Rightarrow> (Epoch \<times> MessageBundle) list \<Rightarrow> nat
    \<Rightarrow> BlockHeight option \<Rightarrow> nat \<Rightarrow> nat \<Rightarrow> WorkerError + nat \<times> nat" where
  "select_loop self next_height last_anticipated [] i latest skipped trusted = Inr (skipped, trusted)"
| "select_loop self next_height last_anticipated ((e, bundle) # rest) i latest skipped trusted =
     bind_r (ensure (case latest of None \<Rightarrow> True | Some h \<Rightarrow> h \<le> mb_height bundle) InvalidCrossChainRequest) (\<lambda>_.
     select_loop self next_height last_anticipated rest (i + 1) (Some (mb_height bundle))
       (if mb_height bundle < next_height then i + 1 else skipped)
       (if is_trusted self last_anticipated (e, bundle) then i + 1 else trusted))"

definition select_message_bundles ::
  "CrossChainUpdateHelper \<Rightarrow> BlockHeight \<Rightarrow> BlockHeight option \<Rightarrow> (Epoch \<times> MessageBundle) list
    \<Rightarrow> WorkerError + MessageBundle list" where
  "select_message_bundles self next_height last_anticipated bundles =
     bind_r (select_loop self next_height last_anticipated bundles 0 None 0 0) (\<lambda>(skipped, trusted).
     Inr (if skipped < trusted then map snd (drop skipped (take trusted bundles)) else []))"

fun receive_bundles ::
  "'w WorkerEnv \<Rightarrow> Origin \<Rightarrow> Timestamp \<Rightarrow> BlockHeight option \<Rightarrow> MessageBundle list \<Rightarrow> ('w, bool) worker" where
  "receive_bundles env origin local_time previous_height [] = sr_ok False"
| "receive_bundles env origin local_time previous_height (bundle # bundles) =
     sr_bind (in_chain (receive_message_bundle (we_chain env) origin bundle local_time
       (previous_height \<noteq> Some (mb_height bundle)))) (\<lambda>new.
     sr_bind (receive_bundles env origin local_time (Some (mb_height bundle)) bundles) (\<lambda>more.
     sr_ok (new \<or> more)))"

definition try_process_cross_chain_update ::
  "'w WorkerEnv \<Rightarrow> Origin \<Rightarrow> (Epoch \<times> MessageBundle) list \<Rightarrow> ('w, (BlockHeight \<times> NetworkActions) option) worker" where
  "try_process_cross_chain_update env origin bundles =
     sr_bind (sr_get (\<lambda>s. chain_next_block_height_to_receive (ws_chain s) origin)) (\<lambda>r.
     sr_bind (sr_lift (map_err Worker_ChainError r)) (\<lambda>next_height_to_receive.
     sr_bind (sr_get (\<lambda>s. last_anticipated_block_height (ws_chain s) origin)) (\<lambda>last_anticipated.
     sr_bind (sr_get (\<lambda>s. CrossChainUpdateHelper_new (we_config env) (ws_chain s))) (\<lambda>helper.
     sr_bind (sr_lift (select_message_bundles helper next_height_to_receive last_anticipated bundles)) (\<lambda>bundles.
     if bundles = [] then sr_ok None
     else
     sr_bind (current_time env) (\<lambda>local_time.
     sr_bind (receive_bundles env origin local_time None bundles) (\<lambda>new_outbox_entries.
     sr_bind (sr_get (\<lambda>s. chain_is_active (ws_chain s))) (\<lambda>active.
     if \<not> wc_allow_inactive_chains (we_config env) \<and> \<not> active then sr_ok None
     else
     sr_bind (if new_outbox_entries then create_network_actions env else sr_ok NetworkActions_default) (\<lambda>actions.
     sr_bind (save env) (\<lambda>_.
     sr_ok (Some (mb_height (last bundles), actions))))))))))))"

fun confirm_each :: "(Target \<times> BlockHeight) list \<Rightarrow> BlockHeight \<Rightarrow> ('w, BlockHeight) worker" where
  "confirm_each [] delivered = sr_ok delivered"
| "confirm_each ((target, h) # rest) delivered =
     sr_bind (in_chain (chain_mark_messages_as_received target h)) (\<lambda>marked.
     sr_bind (sr_get (\<lambda>s. marked \<and> all_messages_to_tracked_chains_delivered_up_to s h)) (\<lambda>fully_delivered.
     confirm_each rest (if fully_delivered \<and> h > delivered then h else delivered)))"

definition try_confirm_updated_recipient ::
  "'w WorkerEnv \<Rightarrow> (Target \<times> BlockHeight) list \<Rightarrow> ('w, BlockHeight) worker" where
  "try_confirm_updated_recipient env latest_heights =
     sr_bind (confirm_each latest_heights 0) (\<lambda>delivered.
     sr_bind (save env) (\<lambda>_. sr_ok delivered))"

section \<open>Votes for a timeout\<close>

definition vote_for_leader_timeout :: "'w WorkerEnv \<Rightarrow> ('w, unit) worker" where
  "vote_for_leader_timeout env =
     sr_bind (sr_get (\<lambda>s. sy_epoch (system_of s))) (\<lambda>e.
     case e of
       None \<Rightarrow> sr_ok ()
     | Some e \<Rightarrow>
         sr_bind (sr_get (\<lambda>s. next_block_height (tip s))) (\<lambda>h.
         sr_bind (current_time env) (\<lambda>local_time.
         sr_bind (sr_get (\<lambda>s. vote_timeout (ce_crypto (we_chain env)) (cs_manager (ws_chain s))
           (env_chain_id (we_chain env)) h e (wc_key_pair (we_config env)) local_time)) (\<lambda>(voted, manager).
         sr_bind (map_manager (\<lambda>_. manager)) (\<lambda>_.
         if voted then save env else sr_ok ())))))"

definition vote_for_fallback :: "'w WorkerEnv \<Rightarrow> ('w, unit) worker" where
  "vote_for_fallback env =
     sr_bind (sr_get (\<lambda>s. (sy_epoch (system_of s), cs_unskippable_bundles (ws_chain s)))) (\<lambda>p.
     case p of
       (Some e, entry # _) \<Rightarrow>
         sr_bind (current_time env) (\<lambda>local_time.
         sr_bind (sr_get (\<lambda>s. fallback_duration (timeout_config (sy_ownership (system_of s))))) (\<lambda>duration.
         if delta_since local_time (ts_seen entry) \<ge> duration
         then
           sr_bind (sr_get (\<lambda>s. vote_fallback (ce_crypto (we_chain env)) (cs_manager (ws_chain s))
             (env_chain_id (we_chain env)) (next_block_height (tip s)) e (wc_key_pair (we_config env)))) (\<lambda>(voted, manager).
           sr_bind (map_manager (\<lambda>_. manager)) (\<lambda>_.
           if voted then save env else sr_ok ()))
         else sr_ok ()))
     | _ \<Rightarrow> sr_ok ())"

section \<open>Proposals\<close>

text \<open>The checks before the block is executed. The result tells whether the proposal was seen before.\<close>

definition check_proposal :: "'w WorkerEnv \<Rightarrow> BlockProposal \<Rightarrow> ('w, bool) worker" where
  "check_proposal env proposal =
     (let b = pc_block (content proposal); cr = ce_crypto (we_chain env) in
      sr_bind (sr_ensure ((validated_block_certificate proposal \<noteq> None) = (pc_forced_oracle_responses (content proposal) \<noteq> None))
        (InvalidBlockProposal ''Must contain a validation certificate if and only if oracle responses are forced from a previous round'')) (\<lambda>_.
      sr_bind (worker_ensure_is_active env) (\<lambda>_.
      sr_bind expect_committee (\<lambda>(e, committee).
      sr_bind (sr_lift (check_block_epoch e b)) (\<lambda>_.
      sr_bind (sr_get (\<lambda>s. verify_owner (ce_sampler (we_chain env)) (cs_manager (ws_chain s)) proposal)) (\<lambda>k.
      sr_bind (sr_lift (ok_or k InvalidOwner)) (\<lambda>public_key.
      sr_bind (sr_lift (map_err (\<lambda>_. Worker_CryptoError) (check_signature cr proposal public_key))) (\<lambda>_.
      sr_bind (case validated_block_certificate proposal of
          Some lite \<Rightarrow> sr_bind (sr_lift (map_err Worker_ChainError (LiteCertificate_check cr lite committee))) (\<lambda>_. sr_ok ())
        | None \<Rightarrow> (case authenticated_signer b of
              Some signer' \<Rightarrow> sr_ensure (signer' = prop_owner proposal) (Worker_InvalidSigner signer')
            | None \<Rightarrow> sr_ok ())) (\<lambda>_.
      sr_bind (sr_get (\<lambda>s. verify_block_chaining (tip s) b)) (\<lambda>r.
      sr_bind (sr_lift (map_err Worker_ChainError r)) (\<lambda>_.
      sr_bind (sr_get (\<lambda>s. check_proposed_block (cs_manager (ws_chain s)) proposal)) (\<lambda>r.
      sr_bind (sr_lift (map_err Worker_ChainError r)) (\<lambda>out.
      sr_ok (out = Outcome_Skip))))))))))))))"

definition try_validate_block ::
  "'w WorkerEnv \<Rightarrow> BlockProposal \<Rightarrow> ('w, (BlockExecutionOutcome \<times> Timestamp) option) worker" where
  "try_validate_block env proposal =
     (let b = pc_block (content proposal) in
      sr_bind (check_proposal env proposal) (\<lambda>skip.
      if skip then sr_ok None
      else
      sr_bind (in_chain (remove_bundles_from_inboxes (we_chain env) b)) (\<lambda>_.
      sr_bind (check_no_missing_blobs env (published_blob_ids b) (prop_blobs proposal)) (\<lambda>_.
      sr_bind (cache_recent_blobs env (prop_blobs proposal)) (\<lambda>_.
      sr_bind (current_time env) (\<lambda>local_time.
      sr_bind (sr_ensure (duration_since (timestamp b) local_time \<le> wc_grace_period (we_config env)) InvalidTimestamp) (\<lambda>_.
      sr_bind (sr_modify (\<lambda>s. s\<lparr>ws_world := w_sleep_until (we_world env) (timestamp b) (ws_world s)\<rparr>)) (\<lambda>_.
      sr_bind (current_time env) (\<lambda>local_time.
      sr_bind (in_chain (execute_block (we_chain env) b local_time (pc_forced_oracle_responses (content proposal)))) (\<lambda>out.
      sr_bind (case validated_block_certificate proposal of
          Some lite \<Rightarrow> sr_ensure (LiteCertificate_with_value lite
              (new_validated (ce_crypto (we_chain env)) (outcome_with out b)) \<noteq> None) InvalidLiteCertificate
        | None \<Rightarrow> sr_ok ()) (\<lambda>_.
      sr_bind (sr_ensure (is_fast (pc_round (content proposal))
          \<longrightarrow> list_all is_permitted_in_fast_blocks (concat (oracle_responses out))) FastBlockUsingOracles) (\<lambda>_.
      sr_bind (sr_get (\<lambda>s. verify_counters (tip s) b out)) (\<lambda>r.
      sr_bind (sr_lift (map_err Worker_ChainError r)) (\<lambda>_.
      sr_bind (sr_get (\<lambda>s. validate_incoming_bundles (we_chain env) (ws_chain s))) (\<lambda>r.
      sr_bind (sr_lift (map_err Worker_ChainError r)) (\<lambda>_.
      sr_ok (Some (out, local_time))))))))))))))))))"

definition vote_for_block_proposal ::
  "'w WorkerEnv \<Rightarrow> BlockProposal \<Rightarrow> BlockExecutionOutcome \<Rightarrow> Timestamp \<Rightarrow> ('w, unit) worker" where
  "vote_for_block_proposal env proposal out local_time =
     sr_bind (map_manager (\<lambda>m. create_vote (ce_crypto (we_chain env)) m proposal out (wc_key_pair (we_config env)) local_time)) (\<lambda>_.
     sr_bind (sr_get (\<lambda>s. m_pending (cs_manager (ws_chain s)))) (\<lambda>pending_vote.
     sr_bind (case pending_vote of Some vote \<Rightarrow> cache_value env (vote_value vote) | None \<Rightarrow> sr_ok ()) (\<lambda>_.
     save env)))"

definition try_stage_block_execution :: "'w WorkerEnv \<Rightarrow> Block \<Rightarrow> ('w, ExecutedBlock \<times> ChainInfoResponse) worker" where
  "try_stage_block_execution env b =
     sr_bind (current_time env) (\<lambda>local_time.
     sr_bind (in_chain (execute_block (we_chain env) b local_time None)) (\<lambda>out.
     sr_bind (sr_get (\<lambda>s. ChainInfoResponse_new env (ChainInfo_from (we_chain env) (ws_chain s)) None)) (\<lambda>response.
     sr_bind (sr_get (\<lambda>s. case authenticated_signer b of
         Some signer' \<Rightarrow> response\<lparr>cr_info := (cr_info response)\<lparr>ci_requested_owner_balance := bt_get (sy_balances (system_of s)) signer'\<rparr>\<rparr>
       | None \<Rightarrow> response)) (\<lambda>response.
     sr_ok (outcome_with out b, response)))))"

section \<open>Queries\<close>

text \<open>The bundles waiting in the inboxes, without those of system channels the chain left.\<close>

definition pending_bundles :: "ChainStateView \<Rightarrow> IncomingBundle list" where
  "pending_bundles c =
     (let sys = ex_system (cs_execution_state c); action = (if sy_closed sys then Reject else Accept) in
      concat (map (\<lambda>(origin, inbox).
        if (case origin_medium origin of
              Channel full \<Rightarrow> cfn_application_id full = App_System
                \<and> \<lparr>sub_chain_id = sender origin, sub_name = cfn_name full\<rparr> \<notin> sy_subscriptions sys
            | Direct \<Rightarrow> False)
        then []
        else map (\<lambda>bundle. \<lparr>ib_origin = origin, ib_bundle = bundle, ib_action = action\<rparr>) (added_bundles inbox))
        (cs_inboxes c)))"

text \<open>The end of a range of a log: a limit that does not fit is an overflow.\<close>

definition range_end :: "nat \<Rightarrow> u64 option \<Rightarrow> nat \<Rightarrow> WorkerError + nat" where
  "range_end start limit count' =
     (case limit of
        None \<Rightarrow> Inr count'
      | Some n \<Rightarrow> if start + unat n < 2 ^ 64 then Inr (min (start + unat n) count')
          else Inl (Worker_ArithmeticError Overflow))"

definition log_read :: "'a list \<Rightarrow> nat \<Rightarrow> nat \<Rightarrow> 'a list" where
  "log_read log start finish = drop start (take finish log)"

definition try_prepare_chain_info_response :: "'w WorkerEnv \<Rightarrow> ChainInfoQuery \<Rightarrow> ('w, ChainInfoResponse) worker" where
  "try_prepare_chain_info_response env query =
     sr_bind (sr_get ws_chain) (\<lambda>c.
     let sys = ex_system (cs_execution_state c);
         info = ChainInfo_from (we_chain env) c;
         info = (if q_request_committees query then info\<lparr>ci_requested_committees := Some (sy_committees sys)\<rparr> else info);
         info = (case q_request_owner_balance query of
             Some owner \<Rightarrow> info\<lparr>ci_requested_owner_balance := bt_get (sy_balances sys) owner\<rparr> | None \<Rightarrow> info) in
     sr_bind (case q_test_next_block_height query of
         Some h \<Rightarrow> sr_ensure (next_block_height (cs_tip_state c) = h)
             (Worker_UnexpectedBlockHeight h (next_block_height (cs_tip_state c)))
       | None \<Rightarrow> sr_ok ()) (\<lambda>_.
     let info = (if q_request_pending_message_bundles query
           then info\<lparr>ci_requested_pending_message_bundles := pending_bundles c\<rparr> else info) in
     sr_bind (case q_request_sent_certificate_hashes_in_range query of
         Some (start, limit) \<Rightarrow>
           sr_bind (sr_lift (range_end (unat start) limit (length (cs_confirmed_log c)))) (\<lambda>finish.
           sr_ok (info\<lparr>ci_requested_sent_certificate_hashes := log_read (cs_confirmed_log c) (unat start) finish\<rparr>))
       | None \<Rightarrow> sr_ok info) (\<lambda>info.
     let info = (case q_request_received_log_excluding_first_n query of
             Some start \<Rightarrow> info\<lparr>ci_requested_received_log := drop (unat start) (cs_received_log c)\<rparr> | None \<Rightarrow> info);
         info = (if q_request_manager_values query
           then info\<lparr>ci_manager := add_values (ci_manager info) (cs_manager c)\<rparr> else info) in
     sr_ok (ChainInfoResponse_new env info (wc_key_pair (we_config env))))))"

section \<open>Requests that only read\<close>

definition try_read_certificate :: "'w WorkerEnv \<Rightarrow> BlockHeight \<Rightarrow> ('w, Certificate option) worker" where
  "try_read_certificate env h =
     sr_bind (worker_ensure_is_active env) (\<lambda>_.
     sr_bind (sr_get (\<lambda>s. nth_opt (cs_confirmed_log (ws_chain s)) (unat h))) (\<lambda>entry.
     case entry of
       None \<Rightarrow> sr_ok None
     | Some certificate_hash \<Rightarrow>
         sr_bind (sr_get (\<lambda>s. w_read_certificate (we_world env) (ws_world s) certificate_hash)) (\<lambda>r.
         sr_bind (sr_lift r) (\<lambda>cert. sr_ok (Some cert)))))"

definition try_find_bundle_in_inbox ::
  "'w WorkerEnv \<Rightarrow> Origin \<Rightarrow> CryptoHash \<Rightarrow> BlockHeight \<Rightarrow> u32 \<Rightarrow> ('w, MessageBundle option) worker" where
  "try_find_bundle_in_inbox env inbox_id certificate_hash h index =
     sr_bind (worker_ensure_is_active env) (\<lambda>_.
     sr_bind (in_chain (sr_modify (\<lambda>c. c\<lparr>cs_inboxes := load_entry InboxStateView_new inbox_id (cs_inboxes c)\<rparr>))) (\<lambda>_.
     sr_get (\<lambda>s. List.find (\<lambda>b. mb_certificate_hash b = certificate_hash \<and> mb_height b = h
         \<and> (\<exists>msg \<in> set (mb_messages b). pm_index msg = index))
       (added_bundles (entry_or InboxStateView_new (cs_inboxes (ws_chain s)) inbox_id)))))"

definition try_describe_application :: "'w WorkerEnv \<Rightarrow> ApplicationId \<Rightarrow> ('w, UserApplicationDescription) worker" where
  "try_describe_application env app_id =
     sr_bind (worker_ensure_is_active env) (\<lambda>_.
     sr_bind (sr_get (\<lambda>s. describe_application (sy_registry (system_of s)) app_id)) (\<lambda>r.
     sr_lift (map_err (\<lambda>e. Worker_ChainError (Chain_ExecutionError (SystemError e) Ctx_DescribeApplication)) r)))"

section \<open>The requests of a worker\<close>

definition stage_block_execution :: "'w WorkerEnv \<Rightarrow> Block \<Rightarrow> ('w, ExecutedBlock \<times> ChainInfoResponse) worker" where
  "stage_block_execution env b = with_temporary_changes (try_stage_block_execution env b)"

definition process_timeout :: "'w WorkerEnv \<Rightarrow> Certificate \<Rightarrow> ('w, ChainInfoResponse \<times> NetworkActions) worker" where
  "process_timeout env cert = with_attempted_changes (try_process_timeout env cert)"

definition handle_block_proposal :: "'w WorkerEnv \<Rightarrow> BlockProposal \<Rightarrow> ('w, ChainInfoResponse \<times> NetworkActions) worker" where
  "handle_block_proposal env proposal =
     sr_bind (with_temporary_changes (try_validate_block env proposal)) (\<lambda>validation_outcome.
     sr_bind (case validation_outcome of
         Some (out, local_time) \<Rightarrow>
           sr_bind (with_attempted_changes (vote_for_block_proposal env proposal out local_time)) (\<lambda>_.
           create_network_actions env)
       | None \<Rightarrow> sr_ok NetworkActions_default) (\<lambda>actions.
     sr_bind (sr_get (current_info env)) (\<lambda>info.
     sr_ok (info, actions))))"

definition process_validated_block ::
  "'w WorkerEnv \<Rightarrow> Certificate \<Rightarrow> Blob list \<Rightarrow> ('w, ChainInfoResponse \<times> NetworkActions \<times> bool) worker" where
  "process_validated_block env cert blobs = with_attempted_changes (try_process_validated_block env cert blobs)"

definition process_confirmed_block ::
  "'w WorkerEnv \<Rightarrow> Certificate \<Rightarrow> Blob list \<Rightarrow> ('w, ChainInfoResponse \<times> NetworkActions) worker" where
  "process_confirmed_block env cert blobs = with_attempted_changes (try_process_confirmed_block env cert blobs)"

definition process_cross_chain_update ::
  "'w WorkerEnv \<Rightarrow> Origin \<Rightarrow> (Epoch \<times> MessageBundle) list \<Rightarrow> ('w, (BlockHeight \<times> NetworkActions) option) worker" where
  "process_cross_chain_update env origin bundles = with_attempted_changes (try_process_cross_chain_update env origin bundles)"

definition confirm_updated_recipient :: "'w WorkerEnv \<Rightarrow> (Target \<times> BlockHeight) list \<Rightarrow> ('w, BlockHeight) worker" where
  "confirm_updated_recipient env latest_heights = with_attempted_changes (try_confirm_updated_recipient env latest_heights)"

definition handle_chain_info_query :: "'w WorkerEnv \<Rightarrow> ChainInfoQuery \<Rightarrow> ('w, ChainInfoResponse \<times> NetworkActions) worker" where
  "handle_chain_info_query env query =
     sr_bind (if q_request_leader_timeout query then with_attempted_changes (vote_for_leader_timeout env) else sr_ok ()) (\<lambda>_.
     sr_bind (if q_request_fallback query then with_attempted_changes (vote_for_fallback env) else sr_ok ()) (\<lambda>_.
     sr_bind (with_temporary_changes (try_prepare_chain_info_response env query)) (\<lambda>response.
     sr_bind (create_network_actions env) (\<lambda>actions.
     sr_ok (response, actions)))))"

datatype ChainWorkerRequest =
    ReadCertificate BlockHeight
  | FindBundleInInbox Origin CryptoHash BlockHeight u32
  | DescribeApplication ApplicationId
  | StageBlockExecution Block
  | ProcessTimeout Certificate
  | HandleBlockProposal BlockProposal
  | ProcessValidatedBlock Certificate "Blob list"
  | ProcessConfirmedBlock Certificate "Blob list"
  | ProcessCrossChainUpdate Origin "(Epoch \<times> MessageBundle) list"
  | ConfirmUpdatedRecipient_request "(Target \<times> BlockHeight) list"
  | HandleChainInfoQuery ChainInfoQuery

text \<open>One turn of the actor: the request is handled; what is sent back is reduced to whether it is an error.\<close>

definition run_request :: "'w WorkerEnv \<Rightarrow> ChainWorkerRequest \<Rightarrow> ('w, unit) worker" where
  "run_request env request =
     (case request of
        ReadCertificate h \<Rightarrow> sr_bind (with_temporary_changes (try_read_certificate env h)) (\<lambda>_. sr_ok ())
      | FindBundleInInbox inbox_id certificate_hash h index \<Rightarrow>
          sr_bind (with_temporary_changes (try_find_bundle_in_inbox env inbox_id certificate_hash h index)) (\<lambda>_. sr_ok ())
      | DescribeApplication app_id \<Rightarrow> sr_bind (with_temporary_changes (try_describe_application env app_id)) (\<lambda>_. sr_ok ())
      | StageBlockExecution b \<Rightarrow> sr_bind (stage_block_execution env b) (\<lambda>_. sr_ok ())
      | ProcessTimeout cert \<Rightarrow> sr_bind (process_timeout env cert) (\<lambda>_. sr_ok ())
      | HandleBlockProposal proposal \<Rightarrow> sr_bind (handle_block_proposal env proposal) (\<lambda>_. sr_ok ())
      | ProcessValidatedBlock cert blobs \<Rightarrow> sr_bind (process_validated_block env cert blobs) (\<lambda>_. sr_ok ())
      | ProcessConfirmedBlock cert blobs \<Rightarrow> sr_bind (process_confirmed_block env cert blobs) (\<lambda>_. sr_ok ())
      | ProcessCrossChainUpdate origin bundles \<Rightarrow> sr_bind (process_cross_chain_update env origin bundles) (\<lambda>_. sr_ok ())
      | ConfirmUpdatedRecipient_request latest_heights \<Rightarrow> sr_bind (confirm_updated_recipient env latest_heights) (\<lambda>_. sr_ok ())
      | HandleChainInfoQuery query \<Rightarrow> sr_bind (handle_chain_info_query env query) (\<lambda>_. sr_ok ()))"

end
