(* ===== verification/Worker_Requests.thy ===== *)
theory Worker_Requests
  imports Chain_Worker Chain_Inboxes
begin

text \<open>
  What the requests of a worker do to the state of its chain. Changes are staged, and either saved
  at the end of a request or rolled back: the rules below follow the structure of the code.
\<close>

section \<open>Staged changes\<close>

text \<open>\<open>quiet m\<close>: \<open>m\<close> only stages changes. \<open>settled m\<close>: \<open>m\<close> does not touch the chain and succeeds.
  \<open>saves_last m\<close>: if \<open>m\<close> saves, then it succeeds and nothing is staged after it.\<close>

definition quiet :: "('w, 'a) worker \<Rightarrow> bool" where
  "quiet m \<longleftrightarrow> (\<forall>s r s'. m s = (r, s') \<longrightarrow> ws_saved s' = ws_saved s \<and> ws_succeeded s' = ws_succeeded s)"

definition settled :: "('w, 'a) worker \<Rightarrow> bool" where
  "settled m \<longleftrightarrow> (\<forall>s r s'. m s = (r, s') \<longrightarrow> ws_chain s' = ws_chain s \<and> ws_saved s' = ws_saved s
     \<and> ws_succeeded s' = ws_succeeded s \<and> (\<exists>x. r = Inr x))"

definition saves_last :: "('w, 'a) worker \<Rightarrow> bool" where
  "saves_last m \<longleftrightarrow> (\<forall>s r s'. \<not> ws_succeeded s \<longrightarrow> m s = (r, s') \<longrightarrow>
     (if ws_succeeded s' then ws_chain s' = ws_saved s' \<and> (\<exists>x. r = Inr x) else ws_saved s' = ws_saved s))"

named_theorems quiet_rules \<open>code that only stages changes\<close>
named_theorems saves_rules \<open>code that saves at the end\<close>

lemma sr_bind_cases:
  assumes "sr_bind m f s = (r, s')"
  obtains (fails) e where "m s = (Inl e, s')" "r = Inl e"
  | (runs) x s1 where "m s = (Inr x, s1)" "f x s1 = (r, s')"
  using assms by (auto simp: sr_bind_def split: prod.splits sum.splits)

lemma quietD: "quiet m \<Longrightarrow> m s = (r, s') \<Longrightarrow> ws_saved s' = ws_saved s \<and> ws_succeeded s' = ws_succeeded s"
  by (auto simp: quiet_def)

lemma quiet_bind [quiet_rules]:
  assumes "quiet m" and "\<And>x. quiet (f x)"
  shows "quiet (sr_bind m f)"
  unfolding quiet_def
proof (intro allI impI)
  fix s r s'
  assume "sr_bind m f s = (r, s')"
  then show "ws_saved s' = ws_saved s \<and> ws_succeeded s' = ws_succeeded s"
  proof (cases rule: sr_bind_cases)
    case (fails e)
    then show ?thesis using quietD [OF assms(1)] by blast
  next
    case (runs x s1)
    then show ?thesis using quietD [OF assms(1)] quietD [OF assms(2)] by metis
  qed
qed

lemma quiet_simple [quiet_rules]:
  "quiet (sr_ok x)" "quiet (sr_err e)" "quiet (sr_get g)" "quiet (sr_lift q)" "quiet (sr_ensure b e)"
  by (simp_all add: quiet_def sr_ok_def sr_err_def sr_get_def sr_lift_def sr_ensure_def)

lemma quiet_modify [quiet_rules]:
  "(\<And>s. ws_saved (f s) = ws_saved s) \<Longrightarrow> (\<And>s. ws_succeeded (f s) = ws_succeeded s) \<Longrightarrow> quiet (sr_modify f)"
  by (simp add: quiet_def sr_modify_def)

lemma quiet_if [quiet_rules]: "quiet m \<Longrightarrow> quiet m' \<Longrightarrow> quiet (if b then m else m')"
  by simp

lemma quiet_option [quiet_rules]:
  "quiet m \<Longrightarrow> (\<And>x. quiet (f x)) \<Longrightarrow> quiet (case y of None \<Rightarrow> m | Some x \<Rightarrow> f x)"
  by (cases y) simp_all

lemma quiet_prod [quiet_rules]: "(\<And>x y. quiet (f x y)) \<Longrightarrow> quiet (case p of (x, y) \<Rightarrow> f x y)"
  by (cases p) simp

lemma quiet_on_world [quiet_rules]: "quiet (on_world m)"
  by (auto simp: quiet_def on_world_def split: prod.splits)

lemma quiet_in_chain [quiet_rules]: "quiet (in_chain m)"
  by (auto simp: quiet_def in_chain_def split: prod.splits)

lemma quiet_current_time [quiet_rules]: "quiet (current_time env)"
  by (auto simp: quiet_def current_time_def split: prod.splits)

lemma quiet_map_manager [quiet_rules]: "quiet (map_manager f)"
  by (simp add: quiet_def map_manager_def sr_modify_def)

lemma quiet_get_blobs [quiet_rules]: "quiet (get_blobs env ids)"
  unfolding quiet_def get_blobs_def Let_def case_prod_unfold by (simp only: prod.inject) auto

lemma quiet_helpers [quiet_rules]:
  "quiet (worker_ensure_is_active env)" "quiet expect_committee" "quiet (check_no_missing_blobs env ids blobs)"
  "quiet (cache_recent_blobs env blobs)" "quiet (cache_value env v)" "quiet (create_network_actions env)"
  "quiet (track_newly_created_chains env eb)" "quiet (advance_tip cert eb)"
  unfolding worker_ensure_is_active_def expect_committee_def check_no_missing_blobs_def cache_recent_blobs_def
    cache_value_def create_network_actions_def track_newly_created_chains_def advance_tip_def
  by (intro quiet_rules; simp)+

lemma saves_bind [saves_rules]:
  assumes "quiet m" and "\<And>x. saves_last (f x)"
  shows "saves_last (sr_bind m f)"
  unfolding saves_last_def
proof (intro allI impI)
  fix s r s'
  assume no: "\<not> ws_succeeded s" and run: "sr_bind m f s = (r, s')"
  from run show "if ws_succeeded s' then ws_chain s' = ws_saved s' \<and> (\<exists>x. r = Inr x) else ws_saved s' = ws_saved s"
  proof (cases rule: sr_bind_cases)
    case (fails e)
    then show ?thesis using no quietD [OF assms(1) fails(1)] by simp
  next
    case (runs x s1)
    then show ?thesis
      using no quietD [OF assms(1) runs(1)] assms(2) [of x] runs(2) unfolding saves_last_def by metis
  qed
qed

lemma saves_quiet: "quiet m \<Longrightarrow> saves_last m"
  by (auto simp: saves_last_def dest: quietD)

lemma saves_simple [saves_rules]: "saves_last (sr_ok x)" "saves_last (sr_err e)"
  by (simp_all add: saves_quiet quiet_simple)

lemma saves_if [saves_rules]: "saves_last m \<Longrightarrow> saves_last m' \<Longrightarrow> saves_last (if b then m else m')"
  by simp

lemma saves_option [saves_rules]:
  "saves_last m \<Longrightarrow> (\<And>x. saves_last (f x)) \<Longrightarrow> saves_last (case y of None \<Rightarrow> m | Some x \<Rightarrow> f x)"
  by (cases y) simp_all

lemma saves_prod [saves_rules]: "(\<And>x y. saves_last (f x y)) \<Longrightarrow> saves_last (case p of (x, y) \<Rightarrow> f x y)"
  by (cases p) simp

lemma save_run:
  "save env s = (r, s') \<Longrightarrow>
     (case r of Inl _ \<Rightarrow> ws_saved s' = ws_saved s \<and> ws_succeeded s' = ws_succeeded s
      | Inr _ \<Rightarrow> ws_saved s' = ws_chain s \<and> ws_succeeded s') \<and> ws_chain s' = ws_chain s"
  by (auto simp: save_def sr_bind_def sr_get_def on_world_def sr_modify_def split: prod.splits sum.splits)

lemma saves_save: "saves_last (save env)"
  unfolding saves_last_def by (auto dest!: save_run split: sum.splits)

lemma saves_save_then:
  assumes "\<And>x. settled (f x)"
  shows "saves_last (sr_bind (save env) f)"
  unfolding saves_last_def
proof (intro allI impI)
  fix s r s'
  assume no: "\<not> ws_succeeded s" and run: "sr_bind (save env) f s = (r, s')"
  from run show "if ws_succeeded s' then ws_chain s' = ws_saved s' \<and> (\<exists>x. r = Inr x) else ws_saved s' = ws_saved s"
  proof (cases rule: sr_bind_cases)
    case (fails e)
    then show ?thesis using no save_run [OF fails(1)] by simp
  next
    case (runs x s1)
    then show ?thesis using save_run [OF runs(1)] assms [of x] unfolding settled_def by fastforce
  qed
qed

lemma settled_bind [saves_rules]: "settled m \<Longrightarrow> (\<And>x. settled (f x)) \<Longrightarrow> settled (sr_bind m f)"
proof -
  assume m: "settled m" and f: "\<And>x. settled (f x)"
  show "settled (sr_bind m f)"
    unfolding settled_def
  proof (intro allI impI)
    fix s r s'
    assume "sr_bind m f s = (r, s')"
    then obtain x s1 where "m s = (Inr x, s1)" "f x s1 = (r, s')"
      using m by (cases rule: sr_bind_cases) (force simp: settled_def)+
    then show "ws_chain s' = ws_chain s \<and> ws_saved s' = ws_saved s \<and> ws_succeeded s' = ws_succeeded s \<and> (\<exists>x. r = Inr x)"
      using m f [of x] unfolding settled_def by fastforce
  qed
qed

lemma settled_simple [saves_rules]: "settled (sr_ok x)" "settled (sr_get g)" "settled (cache_value env v)"
  by (simp_all add: settled_def sr_ok_def sr_get_def cache_value_def sr_modify_def)

lemma quiet_receive_bundles [quiet_rules]: "quiet (receive_bundles env origin t prev bundles)"
  by (induction bundles arbitrary: prev) (auto intro!: quiet_rules)

lemma quiet_confirm_each [quiet_rules]: "quiet (confirm_each hs h)"
  by (induction hs h rule: confirm_each.induct) (auto intro!: quiet_rules)

lemma quiet_init_first_block [quiet_rules]: "quiet (init_first_block env b)"
  unfolding init_first_block_def by (auto intro!: quiet_rules split: bool.split option.split)

lemma quiet_validate_block: "quiet (try_validate_block env p)"
  unfolding try_validate_block_def check_proposal_def Let_def by (intro quiet_rules; simp)

lemma quiet_stage_block: "quiet (try_stage_block_execution env b)"
  unfolding try_stage_block_execution_def by (intro quiet_rules)

lemma quiet_reads:
  "quiet (try_read_certificate env h)" "quiet (try_find_bundle_in_inbox env inbox_id hash' h index)"
  "quiet (try_describe_application env app_id)"
  unfolding try_read_certificate_def try_find_bundle_in_inbox_def try_describe_application_def
  by (intro quiet_rules)+

lemma quiet_prepare_response: "quiet (try_prepare_chain_info_response env query)"
  unfolding try_prepare_chain_info_response_def Let_def by (intro quiet_rules)

lemma saves_timeout: "saves_last (try_process_timeout env cert)"
  unfolding try_process_timeout_def
  by (cases "hv_value (cert_value cert)"; simp;
      (rule saves_save_then saves_save | rule saves_rules quiet_rules)+)

lemma saves_validated: "saves_last (try_process_validated_block env cert blobs)"
  unfolding try_process_validated_block_def
  by (cases "hv_value (cert_value cert)"; simp;
      (rule saves_save_then saves_save | rule saves_rules quiet_rules)+)

lemma saves_confirmed: "saves_last (try_process_confirmed_block env cert blobs)"
  unfolding try_process_confirmed_block_def confirm_next_block_def Let_def
  by (cases "hv_value (cert_value cert)"; simp;
      (rule saves_save_then saves_save | rule saves_rules quiet_rules)+)

lemma saves_update: "saves_last (try_process_cross_chain_update env origin bundles)"
  unfolding try_process_cross_chain_update_def
  by ((rule saves_save_then saves_save | rule saves_rules quiet_rules)+)

lemma saves_confirm_recipient: "saves_last (try_confirm_updated_recipient env hs)"
  unfolding try_confirm_updated_recipient_def
  by ((rule saves_save_then saves_save | rule saves_rules quiet_rules)+)

lemma saves_votes:
  "saves_last (vote_for_block_proposal env p out t)" "saves_last (vote_for_leader_timeout env)"
  unfolding vote_for_block_proposal_def vote_for_leader_timeout_def
  by ((rule saves_save_then saves_save | rule saves_rules quiet_rules)+)

lemma saves_fallback: "saves_last (vote_for_fallback env)"
  unfolding vote_for_fallback_def
  by ((rule saves_save_then saves_save | rule saves_rules quiet_rules | simp split: option.split list.split; safe)+)

text \<open>A request either saves what a successful run staged, or leaves the chain as it was.\<close>

lemma attempted_cases:
  assumes "ws_chain s = ws_saved s" and "saves_last m" and "with_attempted_changes m s = (r, s')"
  obtains (saved) x where "r = Inr x" "m (s\<lparr>ws_succeeded := False\<rparr>) = (Inr x, s')" "ws_chain s' = ws_saved s'"
  | (undone) "ws_saved s' = ws_saved s" "ws_chain s' = ws_saved s"
proof -
  obtain s1 where run: "m (s\<lparr>ws_succeeded := False\<rparr>) = (r, s1)" and s': "s' = (if ws_succeeded s1 then s1 else rollback s1)"
    using assms(3) by (auto simp: wrappers_run(1) [OF assms(1)] split: prod.splits)
  have "if ws_succeeded s1 then ws_chain s1 = ws_saved s1 \<and> (\<exists>x. r = Inr x) else ws_saved s1 = ws_saved s"
    using assms(2) run unfolding saves_last_def by (metis (no_types, lifting) WorkerState.select_convs(2,6)
        WorkerState.surjective WorkerState.update_convs(6))
  then show ?thesis using that run s' by (auto simp: rollback_def split: if_splits)
qed

section \<open>Successful runs\<close>

text \<open>\<open>follows R m\<close>: a successful run of \<open>m\<close> relates the chain before and after it.\<close>

definition follows :: "(ChainStateView \<Rightarrow> ChainStateView \<Rightarrow> bool) \<Rightarrow> ('w, 'a) worker \<Rightarrow> bool" where
  "follows R m \<longleftrightarrow> (\<forall>s x s'. m s = (Inr x, s') \<longrightarrow> R (ws_chain s) (ws_chain s'))"

lemma followsD: "follows R m \<Longrightarrow> m s = (Inr x, s') \<Longrightarrow> R (ws_chain s) (ws_chain s')"
  by (auto simp: follows_def)

lemma follows_in_chain: "(\<And>c x c'. m c = (Inr x, c') \<Longrightarrow> R c c') \<Longrightarrow> follows R (in_chain m)"
  by (auto simp: follows_def in_chain_def split: prod.splits)

text \<open>\<open>serves R m\<close>: from a state without staged changes, \<open>m\<close> ends in one, whether it fails or not, and
  relates the chain before and after it.\<close>

definition serves :: "(ChainStateView \<Rightarrow> ChainStateView \<Rightarrow> bool) \<Rightarrow> ('w, 'a) worker \<Rightarrow> bool" where
  "serves R m \<longleftrightarrow> (\<forall>s r s'. ws_chain s = ws_saved s \<longrightarrow> m s = (r, s') \<longrightarrow>
     ws_chain s' = ws_saved s' \<and> R (ws_chain s) (ws_chain s'))"

lemma servesD:
  "serves R m \<Longrightarrow> ws_chain s = ws_saved s \<Longrightarrow> m s = (r, s') \<Longrightarrow> ws_chain s' = ws_saved s' \<and> R (ws_chain s) (ws_chain s')"
  unfolding serves_def by blast

text \<open>A reflexive and transitive relation between states of a chain that ignores the chain manager.\<close>

locale chain_relation =
  fixes R :: "ChainStateView \<Rightarrow> ChainStateView \<Rightarrow> bool"
  assumes same: "R c c" and step: "R a b \<Longrightarrow> R b c \<Longrightarrow> R a c" and manager: "R c (c\<lparr>cs_manager := m\<rparr>)"
begin

lemma follows_bind: "follows R m \<Longrightarrow> (\<And>x. follows R (f x)) \<Longrightarrow> follows R (sr_bind m f)"
  unfolding follows_def sr_bind_Inr using step by blast

lemma follows_simple:
  "follows R (sr_ok x)" "follows R (sr_err e)" "follows R (sr_get g)" "follows R (sr_lift q)" "follows R (sr_ensure b e)"
  by (simp_all add: follows_def sr_ok_def sr_err_def sr_get_def sr_lift_def sr_ensure_def same)

lemma follows_if: "follows R m \<Longrightarrow> follows R m' \<Longrightarrow> follows R (if b then m else m')"
  by simp

lemma follows_option: "follows R m \<Longrightarrow> (\<And>x. follows R (f x)) \<Longrightarrow> follows R (case y of None \<Rightarrow> m | Some x \<Rightarrow> f x)"
  by (cases y) simp_all

lemma follows_prod: "(\<And>x y. follows R (f x y)) \<Longrightarrow> follows R (case p of (x, y) \<Rightarrow> f x y)"
  by (cases p) simp

lemma follows_modify: "(\<And>s. ws_chain (f s) = ws_chain s) \<Longrightarrow> follows R (sr_modify f)"
  by (simp add: follows_def sr_modify_def same)

lemma follows_world: "follows R (on_world m')" "follows R (current_time env)" "follows R (get_blobs env ids)"
  by (auto simp: follows_def on_world_def current_time_def same split: prod.splits)
    (auto simp: get_blobs_def Let_def case_prod_unfold same split: if_splits)

lemmas follows_rules = follows_bind follows_simple follows_if follows_option follows_prod follows_modify follows_world

lemma follows_helpers:
  "follows R (worker_ensure_is_active env)" "follows R expect_committee" "follows R (check_no_missing_blobs env ids blobs)"
  "follows R (cache_recent_blobs env blobs)" "follows R (cache_value env v)" "follows R (create_network_actions env)"
  "follows R (track_newly_created_chains env eb)" "follows R (save env)"
  unfolding worker_ensure_is_active_def expect_committee_def check_no_missing_blobs_def cache_recent_blobs_def
    cache_value_def create_network_actions_def track_newly_created_chains_def save_def
  by (intro follows_rules; simp)+

lemma follows_map_manager: "follows R (map_manager f)"
  by (simp add: follows_def map_manager_def sr_modify_def manager)

lemma follows_votes:
  "follows R (vote_for_block_proposal env p out t)" "follows R (vote_for_leader_timeout env)"
  unfolding vote_for_block_proposal_def vote_for_leader_timeout_def
  by (intro follows_rules follows_helpers follows_map_manager)+

lemma follows_fallback: "follows R (vote_for_fallback env)"
  unfolding vote_for_fallback_def
  by (auto intro!: follows_rules follows_helpers follows_map_manager split: option.split list.split)

lemma follows_timeout: "follows R (try_process_timeout env cert)"
  unfolding try_process_timeout_def
  by (cases "hv_value (cert_value cert)"; simp; intro follows_rules follows_helpers follows_map_manager)

lemma follows_validated: "follows R (try_process_validated_block env cert blobs)"
  unfolding try_process_validated_block_def
  by (cases "hv_value (cert_value cert)"; simp; intro follows_rules follows_helpers follows_map_manager)

lemma serves_attempted:
  assumes "saves_last m" and "follows R m"
  shows "serves R (with_attempted_changes m)"
  unfolding serves_def
proof (intro allI impI)
  fix s r s'
  assume clean: "ws_chain s = ws_saved s" and run: "with_attempted_changes m s = (r, s')"
  from clean assms(1) run show "ws_chain s' = ws_saved s' \<and> R (ws_chain s) (ws_chain s')"
  proof (cases rule: attempted_cases)
    case (saved x)
    then show ?thesis using followsD [OF assms(2) saved(2)] by simp
  next
    case undone
    then show ?thesis using clean same by simp
  qed
qed

lemma serves_temporary:
  assumes "quiet m"
  shows "serves R (with_temporary_changes m)"
  unfolding serves_def
proof (intro allI impI)
  fix s r s'
  assume clean: "ws_chain s = ws_saved s" and "with_temporary_changes m s = (r, s')"
  then obtain s1 where "m s = (r, s1)" "s' = rollback s1" by (auto simp: wrappers_run(2) split: prod.splits)
  then show "ws_chain s' = ws_saved s' \<and> R (ws_chain s) (ws_chain s')"
    using quietD [OF assms] clean same by (simp add: rollback_def)
qed

lemma serves_bind:
  assumes "serves R m" and "\<And>x. serves R (f x)"
  shows "serves R (sr_bind m f)"
  unfolding serves_def
proof (intro allI impI)
  fix s r s'
  assume clean: "ws_chain s = ws_saved s" and "sr_bind m f s = (r, s')"
  from this(2) show "ws_chain s' = ws_saved s' \<and> R (ws_chain s) (ws_chain s')"
  proof (cases rule: sr_bind_cases)
    case (fails e)
    then show ?thesis using servesD [OF assms(1) clean] by blast
  next
    case (runs x s1)
    then show ?thesis using servesD [OF assms(1) clean runs(1)] servesD [OF assms(2) _ runs(2)] step by blast
  qed
qed

lemma serves_simple: "serves R (sr_ok x)" "serves R (sr_err e)" "serves R (sr_get g)" "serves R (sr_lift q)"
  by (simp_all add: serves_def sr_ok_def sr_err_def sr_get_def sr_lift_def same)

lemma serves_if: "serves R m \<Longrightarrow> serves R m' \<Longrightarrow> serves R (if b then m else m')"
  by simp

lemma serves_option: "serves R m \<Longrightarrow> (\<And>x. serves R (f x)) \<Longrightarrow> serves R (case y of None \<Rightarrow> m | Some x \<Rightarrow> f x)"
  by (cases y) simp_all

lemma serves_prod: "(\<And>x y. serves R (f x y)) \<Longrightarrow> serves R (case p of (x, y) \<Rightarrow> f x y)"
  by (cases p) simp

lemma serves_network_actions: "serves R (create_network_actions env)"
  unfolding create_network_actions_def by (intro serves_bind serves_simple)

lemmas serves_rules = serves_bind serves_simple serves_if serves_option serves_prod serves_network_actions

lemma serves_consensus:
  "serves R (stage_block_execution env b)" "serves R (process_timeout env cert)"
  "serves R (process_validated_block env cert blobs)"
  unfolding stage_block_execution_def process_timeout_def process_validated_block_def
  by (rule serves_temporary quiet_stage_block serves_attempted saves_timeout follows_timeout
      saves_validated follows_validated)+

lemma serves_proposal: "serves R (handle_block_proposal env p)"
  unfolding handle_block_proposal_def
  by (intro serves_rules serves_temporary serves_attempted quiet_validate_block saves_votes follows_votes)

lemma serves_query: "serves R (handle_chain_info_query env query)"
  unfolding handle_chain_info_query_def
  by (intro serves_rules serves_temporary serves_attempted quiet_prepare_response saves_votes follows_votes
      saves_fallback follows_fallback)

end

text \<open>A relation that holds when messages are received and acknowledged.\<close>

locale mailbox_relation = chain_relation R for R +
  fixes env :: "'w WorkerEnv"
  assumes receive: "receive_message_bundle (we_chain env) origin bundle t new_block c = (Inr b, c') \<Longrightarrow> R c c'"
    and mark: "chain_mark_messages_as_received target h c = (Inr b, c') \<Longrightarrow> R c c'"
    and init: "execute_init_message (we_chain env) mid config time t c = (Inr b, c') \<Longrightarrow> R c c'"
begin

lemma follows_chain:
  "follows R (in_chain (receive_message_bundle (we_chain env) origin bundle t new_block))"
  "follows R (in_chain (chain_mark_messages_as_received target h))"
  "follows R (in_chain (execute_init_message (we_chain env) mid config time t))"
  by (auto intro: follows_in_chain receive mark init)

lemma follows_receive_bundles: "follows R (receive_bundles env origin t prev bundles)"
  by (induction bundles arbitrary: prev) (auto intro!: follows_rules follows_chain)

lemma follows_confirm_each: "follows R (confirm_each hs h)"
  by (induction hs h rule: confirm_each.induct) (auto intro!: follows_rules follows_chain)

lemma follows_update: "follows R (try_process_cross_chain_update env origin bundles)"
  unfolding try_process_cross_chain_update_def
  by (intro follows_rules follows_helpers follows_receive_bundles)

lemma follows_confirm_recipient: "follows R (try_confirm_updated_recipient env hs)"
  unfolding try_confirm_updated_recipient_def
  by (intro follows_rules follows_helpers follows_confirm_each)

lemma serves_messages:
  "serves R (process_cross_chain_update env origin bundles)" "serves R (confirm_updated_recipient env hs)"
  unfolding process_cross_chain_update_def confirm_updated_recipient_def
  by (rule serves_attempted saves_update follows_update saves_confirm_recipient follows_confirm_recipient)+

lemma serves_request:
  assumes "\<And>cert blobs. request \<noteq> ProcessConfirmedBlock cert blobs"
  shows "serves R (run_request env request)"
  using assms unfolding run_request_def
  by (cases request; simp; intro serves_bind serves_simple serves_consensus serves_proposal serves_query serves_messages
      serves_temporary quiet_reads)

lemma follows_init_first_block: "follows R (init_first_block env b)"
  unfolding init_first_block_def
  by (auto intro!: follows_rules follows_chain split: bool.split option.split)

end

text \<open>It also holds when a block is executed.\<close>

locale block_relation = mailbox_relation R env for R env +
  assumes remove: "remove_bundles_from_inboxes (we_chain env) blk c = (Inr u, c') \<Longrightarrow> R c c'"
    and execute: "execute_block (we_chain env) blk t q c = (Inr out, c') \<Longrightarrow> R c c'"
begin

lemma follows_block:
  "follows R (in_chain (remove_bundles_from_inboxes (we_chain env) blk))"
  "follows R (in_chain (execute_block (we_chain env) blk t q))"
  by (auto intro: follows_in_chain remove execute)

end

section \<open>The relations\<close>

text \<open>The steps of a chain.\<close>

lemma chain_step_manager: "chain_step env c (c\<lparr>cs_manager := m\<rparr>)"
  by (rule step_consensus [where m = m and tip = "cs_tip_state c" and log = "cs_confirmed_log c"]) simp

interpretation steps: block_relation "(chain_step (we_chain env))\<^sup>*\<^sup>*" env for env
proof unfold_locales
  show "(chain_step (we_chain env))\<^sup>*\<^sup>* a c" if "(chain_step (we_chain env))\<^sup>*\<^sup>* a b" "(chain_step (we_chain env))\<^sup>*\<^sup>* b c"
    for a b c using that by (rule rtranclp_trans)
  show "(chain_step (we_chain env))\<^sup>*\<^sup>* c c'" if "remove_bundles_from_inboxes (we_chain env) blk c = (Inr u, c')"
    for blk c u c' using that step_remove [of "we_chain env" blk c c'] by auto
qed (rule rtranclp.rtrancl_refl | rule r_into_rtranclp, rule chain_step_manager
    | rule r_into_rtranclp, erule step_receive step_mark step_execute step_init)+

text \<open>The tip and the log of confirmed blocks stay the same.\<close>

definition ledger :: "ChainStateView \<Rightarrow> ChainTipState \<times> CryptoHash list" where
  "ledger c = (cs_tip_state c, cs_confirmed_log c)"

interpretation ledger_blind: mailbox_blind "\<lambda>c. ledger c = x" for x
  by unfold_locales (simp_all add: ledger_def)

lemma ledger_add_to_inbox: "keeps (\<lambda>c. ledger c = x) (add_to_inbox origin bundle t)"
  by (rule keepsI) (auto simp: add_to_inbox_def ledger_def Let_def split: prod.splits sum.splits if_splits)

lemma ledger_receive: "keeps (\<lambda>c. ledger c = x) (receive_message_bundle env origin bundle t new_block)"
  unfolding receive_message_bundle_def Let_def
  by (intro keeps_rules ledger_blind.keeps_handle_open_chain ledger_blind.blind_process_unsubscribes
      ledger_blind.blind_process_subscribes ledger_add_to_inbox) (simp add: ledger_def)

lemma ledger_remove_all: "keeps (\<lambda>c. ledger c = x) (remove_all_from_inbox cid bs)"
proof (induction cid bs rule: remove_all_from_inbox.induct)
  case (2 cid origin mb rest)
  have "keeps (\<lambda>c. ledger c = x) (remove_from_inbox cid origin mb)"
    by (rule keepsI) (auto simp: remove_from_inbox_def ledger_def Let_def split: prod.splits sum.splits)
  then show ?case unfolding remove_all_from_inbox.simps using 2 by (intro keeps_rules)
qed (simp add: keeps_simple)

lemma ledger_forget [simp]: "ledger (forget_unskippable removed c) = ledger c"
  by (simp add: forget_unskippable_def ledger_def Let_def case_prod_unfold)

lemma ledger_inboxes [simp]: "ledger (c\<lparr>cs_inboxes := i\<rparr>) = ledger c"
  by (simp add: ledger_def)

lemma ledger_remove: "keeps (\<lambda>c. ledger c = x) (remove_bundles_from_inboxes env blk)"
  unfolding remove_bundles_from_inboxes_def by (intro keeps_rules ledger_remove_all) simp_all

lemma keeps_ledger:
  assumes "\<And>x. keeps (\<lambda>c. ledger c = x) m" and "m c = (Inr y, c')"
  shows "ledger c' = ledger c"
  by (rule keepsD [OF assms]) (rule refl)

interpretation ledger: block_relation "\<lambda>c c'. ledger c' = ledger c" env for env
proof unfold_locales
  show "ledger (c\<lparr>cs_manager := m\<rparr>) = ledger c" for c m by (simp add: ledger_def)
  show "ledger c' = ledger c" if "receive_message_bundle (we_chain env) origin mb t new_block c = (Inr b, c')"
    for origin mb t new_block c b c' using that by (rule keeps_ledger [OF ledger_receive])
  show "ledger c' = ledger c" if "chain_mark_messages_as_received target h c = (Inr b, c')" for target h c b c'
    using that by (rule keeps_ledger [OF ledger_blind.blind_mark])
  show "ledger c' = ledger c" if "remove_bundles_from_inboxes (we_chain env) blk c = (Inr u, c')" for blk c u c'
    using that by (rule keeps_ledger [OF ledger_remove])
  show "ledger c' = ledger c" if "execute_block (we_chain env) blk t q c = (Inr out, c')" for blk t q c out c'
    using that by (rule keeps_ledger [OF ledger_blind.keeps_execute_block [OF refl]])
  show "ledger c' = ledger c" if "execute_init_message (we_chain env) mid config time t c = (Inr b, c')"
    for mid config time t c b c' using that by (rule keeps_ledger [OF ledger_blind.keeps_execute_init_message])
  show "ledger c = ledger a" if "ledger b = ledger a" "ledger c = ledger b" for a b c using that by simp
qed (rule refl)

text \<open>Only the chain manager changes.\<close>

definition same_but_manager :: "ChainStateView \<Rightarrow> ChainStateView \<Rightarrow> bool" where
  "same_but_manager c c' \<longleftrightarrow> (\<exists>m. c' = c\<lparr>cs_manager := m\<rparr>)"

interpretation consensus: chain_relation same_but_manager
proof unfold_locales
  show "same_but_manager c c" for c
    unfolding same_but_manager_def by (rule exI [of _ "cs_manager c"]) simp
  show "same_but_manager a c" if "same_but_manager a b" "same_but_manager b c" for a b c
    using that unfolding same_but_manager_def by (elim exE, intro exI) simp
  show "same_but_manager c (c\<lparr>cs_manager := m\<rparr>)" for c m
    unfolding same_but_manager_def by (rule exI) (rule refl)
qed

end
