(* ===== verification/Worker_Runs.thy ===== *)
theory Worker_Runs
  imports Worker_Requests
begin

text \<open>
  Sequences of requests to a worker, and what they do to its chain.
\<close>

section \<open>Confirming a block\<close>

lemma advance_tip_Inr:
  assumes "advance_tip cert eb s = (Inr u, s')"
  obtains h where "try_add_one (next_block_height (tip s)) = Inr h"
    "ws_chain s' = (ws_chain s)\<lparr>cs_tip_state :=
       \<lparr>block_hash = Some (hv_hash (cert_value cert)), next_block_height = h,
        num_incoming_bundles = num_incoming_bundles (tip s) + of_nat (length (incoming_bundles (block eb))),
        num_operations = num_operations (tip s) + of_nat (length (operations (block eb))),
        num_outgoing_messages = num_outgoing_messages (tip s) + of_nat (length (messages (outcome eb)))\<rparr>,
       cs_confirmed_log := cs_confirmed_log (ws_chain s) @ [hv_hash (cert_value cert)]\<rparr>"
  using assms unfolding advance_tip_def by (clarsimp simp: run_simps tip_def)

lemma confirm_next_block_Inr:
  assumes "confirm_next_block env cert eb blobs t s = (Inr x, s')"
  obtains s1 s2 e committee v s3 s4 s5 blobs_in_block s6 s7 s8 s9 s10 local_time s11 s12 s13 s14 actions s15 where
    "init_first_block env (block eb) s = (Inr (), s1)" "worker_ensure_is_active env s1 = (Inr (), s2)"
    "expect_committee s2 = (Inr (e, committee), s3)" "check_block_epoch e (block eb) = Inr ()"
    "check_certificate env cert committee = Inr v" "block_hash t = previous_block_hash (block eb)"
    "check_no_missing_blobs env (required_blob_ids eb) blobs s3 = (Inr (), s4)" "cache_recent_blobs env blobs s4 = (Inr (), s5)"
    "get_blobs env (required_blob_ids eb) s5 = (Inr blobs_in_block, s6)"
    "on_world (w_write_blobs_and_certificate (we_world env) blobs_in_block cert) s6 = (Inr (), s7)"
    "on_world (w_maybe_write_blob_states (we_world env) (required_blob_ids eb) (hv_hash (cert_value cert))
        (value_epoch (hv_value (cert_value cert)))) s7 = (Inr (), s8)"
    "in_chain (remove_bundles_from_inboxes (we_chain env) (block eb)) s8 = (Inr (), s9)"
    "current_time env s9 = (Inr local_time, s10)"
    "in_chain (execute_block (we_chain env) (block eb) local_time (Some (oracle_responses (outcome eb)))) s10
       = (Inr (outcome eb), s11)"
    "advance_tip cert eb s11 = (Inr (), s12)" "track_newly_created_chains env eb s12 = (Inr (), s13)"
    "create_network_actions env s13 = (Inr actions, s14)" "save env s14 = (Inr (), s15)"
    "cache_value env (cert_value cert) s15 = (Inr (), s')" "na_cross_chain_requests (snd x) = na_cross_chain_requests actions"
  using assms unfolding confirm_next_block_def Let_def
  by (clarsimp simp: run_simps)

text \<open>What a confirmed block does to the tip and the log: it extends them by its hash, at the next height.\<close>

definition extends :: "'w WorkerEnv \<Rightarrow> Certificate \<Rightarrow> ChainStateView \<Rightarrow> ChainStateView \<Rightarrow> bool" where
  "extends env cert c c' \<longleftrightarrow> (\<exists>eb. hv_value (cert_value cert) = ConfirmedBlock eb
     \<and> chain_id (block eb) = env_chain_id (we_chain env)
     \<and> height (block eb) = next_block_height (cs_tip_state c)
     \<and> previous_block_hash (block eb) = block_hash (cs_tip_state c)
     \<and> block_hash (cs_tip_state c') = Some (hv_hash (cert_value cert))
     \<and> try_add_one (next_block_height (cs_tip_state c)) = Inr (next_block_height (cs_tip_state c'))
     \<and> cs_confirmed_log c' = cs_confirmed_log c @ [hv_hash (cert_value cert)])"

lemma ledger_eq: "ledger c' = ledger c \<longleftrightarrow> cs_tip_state c' = cs_tip_state c \<and> cs_confirmed_log c' = cs_confirmed_log c"
  by (auto simp: ledger_def)

lemma confirm_extends:
  assumes run: "confirm_next_block env cert eb blobs (tip s) s = (Inr x, s')"
    and v: "hv_value (cert_value cert) = ConfirmedBlock eb" and h: "height (block eb) = next_block_height (tip s)"
  shows "extends env cert (ws_chain s) (ws_chain s')"
  using run
proof (cases rule: confirm_next_block_Inr)
  case (1 s1 s2 e committee v' s3 s4 s5 bs s6 s7 s8 s9 s10 t s11 s12 s13 s14 actions s15)
  note h = ledger.follows_helpers and w = ledger.follows_world and c = ledger.follows_block
  have "ledger (ws_chain s8) = ledger (ws_chain s)"
    using followsD [OF ledger.follows_init_first_block 1(1)] followsD [OF h(1) 1(2)] followsD [OF h(2) 1(3)]
      followsD [OF h(3) 1(7)] followsD [OF h(4) 1(8)] followsD [OF w(3) 1(9)] followsD [OF w(1) 1(10)]
      followsD [OF w(1) 1(11)] by simp
  then have before: "ledger (ws_chain s11) = ledger (ws_chain s)"
    using followsD [OF c(1) 1(12)] followsD [OF w(2) 1(13)] followsD [OF c(2) 1(14)] by simp
  have after: "ledger (ws_chain s') = ledger (ws_chain s12)"
    using followsD [OF h(7) 1(16)] followsD [OF h(6) 1(17)] followsD [OF h(8) 1(18)] followsD [OF h(5) 1(19)] by simp
  obtain c' where ex: "execute_block (we_chain env) (block eb) t (Some (oracle_responses (outcome eb))) (ws_chain s10)
      = (Inr (outcome eb), c')"
    using 1(14) by (auto simp: in_chain_def split: prod.splits)
  have "chain_id (block eb) = env_chain_id (we_chain env)"
    using ex by (rule execute_block_Inr)
  moreover obtain k where "try_add_one (next_block_height (tip s11)) = Inr k"
      "next_block_height (cs_tip_state (ws_chain s12)) = k"
      "block_hash (cs_tip_state (ws_chain s12)) = Some (hv_hash (cert_value cert))"
      "cs_confirmed_log (ws_chain s12) = cs_confirmed_log (ws_chain s11) @ [hv_hash (cert_value cert)]"
    using 1(15) by (rule advance_tip_Inr) simp
  ultimately show ?thesis
    using before after v assms(3) 1(6) unfolding extends_def ledger_eq tip_def by simp
qed

lemma try_confirmed_cases:
  assumes "try_process_confirmed_block env cert blobs s = (Inr x, s')"
  obtains (old) actions where "create_network_actions env s = (Inr actions, s')"
  | (new) eb where "hv_value (cert_value cert) = ConfirmedBlock eb" "height (block eb) = next_block_height (tip s)"
    "confirm_next_block env cert eb blobs (tip s) s = (Inr x, s')"
proof -
  obtain eb where v: "hv_value (cert_value cert) = ConfirmedBlock eb"
    using assms by (cases "hv_value (cert_value cert)") (auto simp: try_process_confirmed_block_def sr_err_def)
  consider "height (block eb) < next_block_height (tip s)" | "height (block eb) = next_block_height (tip s)"
    using assms v by (cases "next_block_height (tip s)" "height (block eb)" rule: linorder_cases)
      (auto simp: try_process_confirmed_block_def run_simps)
  then show ?thesis
  proof cases
    case 1
    then have "\<not> next_block_height (tip s) < height (block eb)" by simp
    then have "create_network_actions env s = (Inr (snd x), s')"
      using assms v 1 by (auto simp: try_process_confirmed_block_def run_simps)
    then show ?thesis by (rule old)
  next
    case 2
    then have "confirm_next_block env cert eb blobs (tip s) s = (Inr x, s')"
      using assms v by (simp add: try_process_confirmed_block_def sr_bind_def sr_get_def)
    then show ?thesis by (rule new [OF v 2])
  qed
qed

lemma try_confirmed_Inr:
  assumes "try_process_confirmed_block env cert blobs s = (Inr x, s')"
  shows "ledger (ws_chain s') = ledger (ws_chain s) \<or> extends env cert (ws_chain s) (ws_chain s')"
  using assms
proof (cases rule: try_confirmed_cases)
  case (old actions)
  then show ?thesis using followsD [OF ledger.follows_helpers(6)] by blast
next
  case (new eb)
  then show ?thesis using confirm_extends [OF new(3,1,2)] by blast
qed

section \<open>Requests\<close>

lemma process_confirmed_ledger:
  assumes "ws_chain s = ws_saved s" and "process_confirmed_block env cert blobs s = (r, s')"
  shows "ws_chain s' = ws_saved s'
    \<and> (ledger (ws_chain s') = ledger (ws_chain s) \<or> extends env cert (ws_chain s) (ws_chain s'))"
  using assms(1) saves_confirmed assms(2) [unfolded process_confirmed_block_def]
proof (cases rule: attempted_cases)
  case (saved x)
  then show ?thesis using try_confirmed_Inr [OF saved(2)] by simp
qed (simp add: assms(1))

lemma run_request_ignored: "sr_bind m (\<lambda>_. sr_ok ()) s = (r, s') \<Longrightarrow> \<exists>q. m s = (q, s')"
  by (auto simp: sr_bind_def sr_ok_def split: prod.splits sum.splits)

text \<open>Only a confirmed block moves the tip of the chain.\<close>

lemma request_ledger:
  assumes clean: "ws_chain s = ws_saved s" and run: "run_request env request s = (r, s')"
  shows "ws_chain s' = ws_saved s' \<and> (ledger (ws_chain s') = ledger (ws_chain s)
    \<or> (\<exists>cert blobs. request = ProcessConfirmedBlock cert blobs \<and> extends env cert (ws_chain s) (ws_chain s')))"
proof (cases "\<exists>cert blobs. request = ProcessConfirmedBlock cert blobs")
  case True
  then obtain cert blobs q where "request = ProcessConfirmedBlock cert blobs" "process_confirmed_block env cert blobs s = (q, s')"
    using run run_request_ignored by (fastforce simp: run_request_def)
  then show ?thesis using process_confirmed_ledger [OF clean] by blast
next
  case False
  then show ?thesis using servesD [OF ledger.serves_request clean run] by blast
qed

section \<open>Runs\<close>

text \<open>A run of a worker: requests in any order, with any outcome. Between them other workers change
  the storage, the caches and the set of tracked chains. The run collects the certificates whose
  blocks were appended to the log.\<close>

definition newly_confirmed :: "ChainWorkerRequest \<Rightarrow> 'w WorkerState \<Rightarrow> 'w WorkerState \<Rightarrow> Certificate list" where
  "newly_confirmed request s s' =
     (case request of
        ProcessConfirmedBlock cert _ \<Rightarrow> if cs_confirmed_log (ws_chain s') = cs_confirmed_log (ws_chain s) then [] else [cert]
      | _ \<Rightarrow> [])"

inductive worker_run :: "'w WorkerEnv \<Rightarrow> 'w WorkerState \<Rightarrow> Certificate list \<Rightarrow> 'w WorkerState \<Rightarrow> bool" for env s0 where
  run_start: "worker_run env s0 [] s0"
| run_step: "worker_run env s0 certs s \<Longrightarrow> run_request env request s = (r, s')
    \<Longrightarrow> worker_run env s0 (certs @ newly_confirmed request s s') s'"
| run_others: "worker_run env s0 certs s \<Longrightarrow> worker_run env s0 certs (s\<lparr>ws_world := w, ws_tracked_chains := tracked\<rparr>)"

lemma run_clean:
  assumes "worker_run env s0 certs s" and "ws_chain s0 = ws_saved s0"
  shows "ws_chain s = ws_saved s"
  using assms(1)
proof (induction rule: worker_run.induct)
  case (run_step certs s request r s')
  show ?case by (rule conjunct1 [OF request_ledger [OF run_step.IH run_step.hyps(2)]])
qed (simp_all add: assms(2))

text \<open>The certificates of a run, from the tip at its start.\<close>

definition chained :: "'w WorkerEnv \<Rightarrow> ChainTipState \<Rightarrow> Certificate list \<Rightarrow> bool" where
  "chained env t certs \<longleftrightarrow> (\<forall>i < length certs. \<exists>eb. hv_value (cert_value (certs ! i)) = ConfirmedBlock eb
     \<and> chain_id (block eb) = env_chain_id (we_chain env)
     \<and> unat (height (block eb)) = unat (next_block_height t) + i
     \<and> previous_block_hash (block eb) = (if i = 0 then block_hash t else Some (hv_hash (cert_value (certs ! (i - 1))))))"

definition run_inv :: "'w WorkerEnv \<Rightarrow> ChainStateView \<Rightarrow> Certificate list \<Rightarrow> ChainStateView \<Rightarrow> bool" where
  "run_inv env c0 certs c \<longleftrightarrow>
     cs_confirmed_log c = cs_confirmed_log c0 @ map (\<lambda>cert. hv_hash (cert_value cert)) certs
     \<and> unat (next_block_height (cs_tip_state c)) = unat (next_block_height (cs_tip_state c0)) + length certs
     \<and> block_hash (cs_tip_state c) = (if certs = [] then block_hash (cs_tip_state c0) else Some (hv_hash (cert_value (last certs))))
     \<and> chained env (cs_tip_state c0) certs"

lemma run_inv_ledger: "run_inv env c0 certs c \<Longrightarrow> ledger c' = ledger c \<Longrightarrow> run_inv env c0 certs c'"
  by (simp add: run_inv_def ledger_eq)

lemma run_inv_extends:
  assumes inv: "run_inv env c0 certs c" and ext: "extends env cert c c'"
  shows "run_inv env c0 (certs @ [cert]) c'"
proof -
  obtain eb where eb: "hv_value (cert_value cert) = ConfirmedBlock eb" "chain_id (block eb) = env_chain_id (we_chain env)"
      "height (block eb) = next_block_height (cs_tip_state c)" "previous_block_hash (block eb) = block_hash (cs_tip_state c)"
      and c': "block_hash (cs_tip_state c') = Some (hv_hash (cert_value cert))"
      "try_add_one (next_block_height (cs_tip_state c)) = Inr (next_block_height (cs_tip_state c'))"
      "cs_confirmed_log c' = cs_confirmed_log c @ [hv_hash (cert_value cert)]"
    using ext unfolding extends_def by blast
  have "unat (next_block_height (cs_tip_state c')) = unat (next_block_height (cs_tip_state c)) + 1"
    using c'(2) by (auto simp: try_add_one_def ok_or_def dest: checked_add_Some split: option.splits)
  moreover have "chained env (cs_tip_state c0) (certs @ [cert])"
    using inv eb by (auto simp: run_inv_def chained_def nth_append last_conv_nth less_Suc_eq)
  ultimately show ?thesis using inv c' by (simp add: run_inv_def)
qed

lemma worker_run_inv:
  assumes "worker_run env s0 certs s" and clean: "ws_chain s0 = ws_saved s0"
  shows "run_inv env (ws_chain s0) certs (ws_chain s)"
  using assms(1)
proof (induction rule: worker_run.induct)
  case run_start
  show ?case by (simp add: run_inv_def chained_def)
next
  case (run_step certs s request r s')
  have "ws_chain s = ws_saved s" using run_step.hyps(1) clean by (rule run_clean)
  from request_ledger [OF this run_step.hyps(2)]
  consider "ledger (ws_chain s') = ledger (ws_chain s)"
    | cert blobs where "request = ProcessConfirmedBlock cert blobs" "extends env cert (ws_chain s) (ws_chain s')"
    by blast
  then show ?case
  proof cases
    case 1
    then have "newly_confirmed request s s' = []" by (auto simp: newly_confirmed_def ledger_eq split: ChainWorkerRequest.split)
    then show ?thesis using run_inv_ledger [OF run_step.IH 1] by simp
  next
    case (2 cert blobs)
    then have "newly_confirmed request s s' = [cert]" by (auto simp: newly_confirmed_def extends_def)
    then show ?thesis using run_inv_extends [OF run_step.IH 2(2)] by simp
  qed
qed simp

section \<open>Steps of the chain\<close>

lemma follows_advance_tip: "follows (chain_step env)\<^sup>*\<^sup>* (advance_tip cert eb)"
  unfolding follows_def
proof (intro allI impI r_into_rtranclp)
  fix s x s'
  assume "advance_tip cert eb s = (Inr x, s')"
  then obtain t log where c: "ws_chain s' = (ws_chain s)\<lparr>cs_tip_state := t, cs_confirmed_log := log\<rparr>"
    by (rule advance_tip_Inr)
  show "chain_step env (ws_chain s) (ws_chain s')"
    by (rule step_consensus [where m = "cs_manager (ws_chain s)" and tip = t and log = log]) (simp add: c)
qed

lemma follows_confirmed: "follows (chain_step (we_chain env))\<^sup>*\<^sup>* (try_process_confirmed_block env cert blobs)"
  unfolding try_process_confirmed_block_def confirm_next_block_def Let_def
  by (cases "hv_value (cert_value cert)"; simp;
      intro steps.follows_bind steps.follows_simple steps.follows_if steps.follows_prod steps.follows_world
        steps.follows_helpers steps.follows_init_first_block steps.follows_block follows_advance_tip)

lemma serves_steps: "serves (chain_step (we_chain env))\<^sup>*\<^sup>* (run_request env request)"
proof (cases "\<exists>cert blobs. request = ProcessConfirmedBlock cert blobs")
  case True
  then show ?thesis
    unfolding run_request_def process_confirmed_block_def
    by (auto intro!: steps.serves_bind steps.serves_simple steps.serves_attempted saves_confirmed follows_confirmed)
next
  case False
  then show ?thesis by (intro steps.serves_request) blast
qed

lemma attempted_fails:
  "ws_chain s = ws_saved s \<Longrightarrow> saves_last m \<Longrightarrow> with_attempted_changes m s = (Inl e, s') \<Longrightarrow> ws_chain s' = ws_saved s"
  by (erule (2) attempted_cases) auto

lemma temporary_undone:
  "ws_chain s = ws_saved s \<Longrightarrow> quiet m \<Longrightarrow> with_temporary_changes m s = (r, s') \<Longrightarrow> ws_chain s' = ws_saved s"
  by (auto simp: wrappers_run(2) rollback_def dest: quietD split: prod.splits)

lemma ignored_Inl: "sr_bind m (\<lambda>_. sr_ok ()) s = (Inl e, s') \<longleftrightarrow> m s = (Inl e, s')"
  by (auto simp: sr_bind_def sr_ok_def split: prod.splits sum.splits)

lemma failed_request:
  assumes clean: "ws_chain s = ws_saved s" and run: "run_request env request s = (Inl e, s')"
    and "\<And>p. request \<noteq> HandleBlockProposal p" and "\<And>q. request \<noteq> HandleChainInfoQuery q"
  shows "ws_chain s' = ws_saved s"
  using run unfolding run_request_def
  by (cases request)
    (simp_all add: assms(3,4) ignored_Inl stage_block_execution_def process_timeout_def process_validated_block_def
      process_confirmed_block_def process_cross_chain_update_def confirm_updated_recipient_def
      temporary_undone [OF clean quiet_stage_block] temporary_undone [OF clean quiet_reads(1)] temporary_undone [OF clean quiet_reads(2)]
      temporary_undone [OF clean quiet_reads(3)] attempted_fails [OF clean saves_timeout] attempted_fails [OF clean saves_validated]
      attempted_fails [OF clean saves_confirmed] attempted_fails [OF clean saves_update] attempted_fails [OF clean saves_confirm_recipient])

lemma failed_vote:
  assumes clean: "ws_chain s = ws_saved s" and run: "run_request env request s = (Inl e, s')"
  shows "same_but_manager (ws_chain s) (ws_chain s')"
proof (cases "(\<exists>p. request = HandleBlockProposal p) \<or> (\<exists>q. request = HandleChainInfoQuery q)")
  case True
  then consider p where "handle_block_proposal env p s = (Inl e, s')" | q where "handle_chain_info_query env q s = (Inl e, s')"
    using run by (auto simp: run_request_def ignored_Inl)
  then show ?thesis
    using conjunct2 [OF servesD [OF consensus.serves_proposal clean]] conjunct2 [OF servesD [OF consensus.serves_query clean]]
    by cases blast+
next
  case False
  then have "ws_chain s' = ws_chain s" using failed_request [OF clean run] clean by auto
  then show ?thesis using consensus.same by simp
qed

end
