(* ===== verification/Worker_Samples.thy ===== *)
theory Worker_Samples
  imports Worker_Runs Chain_Samples
begin

text \<open>A concrete worker, whose chain confirms an empty block.\<close>

definition empty_block :: Block where
  "empty_block = transfer_block\<lparr>operations := []\<rparr>"

definition empty_result :: BlockExecutionOutcome where
  "empty_result = \<lparr>messages = [], state_hash = 77, oracle_responses = [], events = []\<rparr>"

definition empty_chain' :: ChainStateView where
  "empty_chain' = (sample_at (sample_exec 15 [(7, 3), (8, 50)]) [] [])\<lparr>cs_execution_state_hash := Some 77, cs_manager := sample_manager'\<rparr>"

lemma empty_block_simps [simp]:
  "chain_id empty_block = 4" "height empty_block = 3" "timestamp empty_block = 5" "epoch empty_block = 0"
  "authenticated_signer empty_block = Some 8" "incoming_bundles empty_block = []" "operations empty_block = []"
  "transactions empty_block = []" "previous_block_hash empty_block = Some 1"
  by (simp_all add: empty_block_def transfer_block_def transactions_def)

lemma empty_header:
  "on_controller Ctx_Block (track_block_header empty_block)
      (sample_br (sample_exec 20 [(7, 3), (8, 50)]) [] [] tracker_default txn) =
    (Inr (), sample_br (sample_exec 20 [(7, 3), (8, 50)]) [] [] (sample_tracker 91 0 0) txn)"
  by (simp add: on_controller_def sample_br_def track_block_header_def sr_bind_def track_executed_block_size_def
      tracker_default_def EMPTY_EXECUTED_BLOCK_SIZE_def checked_add_def sample_policy_def policy_default_def
      sr_ok_def sample_tracker_def)

lemma empty_track_block:
  "on_exec Ctx_Block (with_state (track_block sources_holder))
      (sample_br (sample_exec 20 [(7, 3), (8, 50)]) [] [] (sample_tracker 91 0 0) txn) =
    (Inr (), sample_br (sample_exec 15 [(7, 3), (8, 50)]) [] [] (sample_tracker 91 0 1) txn)"
  by (simp add: on_exec_def sample_br_def with_state_def tracking_def sr_bind_def with_state_and_grant_def
      funding_sources_def sample_exec_def track_block_def bump_def charge_def update_balance_def sources_holder_def
      try_sub_assign_cases checked_add_def sample_tracker_def tracker_default_def sample_policy_def policy_default_def
      word_le_nat_alt store_sources_def sr_ok_def Let_def)

lemma empty_permissions: "check_permissions sample_permissions empty_block = Inr ()"
  by (simp add: check_permissions_def sample_permissions_def incoming_messages_def)

lemma empty_run_block:
  "\<exists>br. run_block_body sample_chain_env empty_block 9 (Some [])
     (sample_br (sample_exec 20 [(7, 3), (8, 50)]) [] [] tracker_default txn) = (Inr empty_result, br)
     \<and> br_chain br = empty_chain'"
proof -
  have add: "try_add_one (3 :: u64) = Inr 4" by (simp add: try_add_one_def checked_add_def)
  show ?thesis
    unfolding run_block_body_def
    by (simp add: sr_bind_def empty_header sr_get_def sr_ensure_def empty_permissions sr_lift_def sr_ok_def
        empty_track_block on_chain_def update_state_hash_def add BlockAcc_new_def)
      (simp add: sample_br_def sample_reset update_state_hash_def empty_result_def empty_chain'_def sr_bind_def
        sr_ensure_def sr_ok_def)
qed

lemma empty_execute_block:
  "execute_block sample_chain_env empty_block 9 (Some []) sample_chain = (Inr empty_result, empty_chain')"
proof -
  have sys: "ex_system (cs_execution_state sample_chain) = paid_sys" by (simp add: sample_chain_def)
  have com: "current_committee (paid_sys\<lparr>sy_timestamp := t\<rparr>) = Some (0, paid_committee)"
      "sy_timestamp paid_sys = 0" for t
    by (simp_all add: current_committee_def paid_sys_def sample_sys_def)
  have pol: "policy paid_committee = sample_policy" by (simp add: paid_committee_def Committee_new_def Let_def)
  have start: "\<lparr>br_chain = sample_chain\<lparr>cs_execution_state := (cs_execution_state sample_chain)
         \<lparr>ex_system := paid_sys\<lparr>sy_timestamp := 5\<rparr>\<rparr>\<rparr>, br_controller = ResourceController_new sample_policy (Some 8),
      br_txn = txn\<rparr> = sample_br (sample_exec 20 [(7, 3), (8, 50)]) [] [] tracker_default txn" for txn
    by (simp add: sample_br_def sample_at_def sample_chain_def sample_exec_def ResourceController_new_def
        paid_sys_def sample_sys_def)
  obtain br where br: "run_block_body sample_chain_env empty_block 9 (Some [])
     (sample_br (sample_exec 20 [(7, 3), (8, 50)]) [] [] tracker_default TransactionTracker_default) = (Inr empty_result, br)"
     "br_chain br = empty_chain'"
    using empty_run_block by blast
  show ?thesis
    unfolding execute_block_def
    by (simp add: sr_bind_def sr_ensure_def open_if_first_def sr_get_def sys set_block_timestamp_def sr_modify_def
        sr_ok_def com sr_lift_def pol start br)
qed

section \<open>The worker\<close>

text \<open>The result of saving the chain is a parameter of the sample.\<close>

definition sample_world :: "(WorkerError + unit) \<Rightarrow> unit World" where
  "sample_world r = \<lparr>w_current_time = (\<lambda>w. (9, w)), w_sleep_until = (\<lambda>_ w. w), w_save_chain = (\<lambda>_ w. (r, w)),
     w_read_certificate = (\<lambda>_ _. Inl InvalidCrossChainRequest),
     w_read_certificates = (\<lambda>_ _. Inr []), w_missing_blobs = (\<lambda>_ ids. Inr ids), w_read_blob = (\<lambda>_ _. None),
     w_write_blobs_and_certificate = (\<lambda>_ _ w. (Inr (), w)), w_maybe_write_blob_states = (\<lambda>_ _ _ w. (Inr (), w)),
     w_cache_value = (\<lambda>_ w. w), w_cache_blob = (\<lambda>_ w. w), w_has_cached_blob = (\<lambda>_ _. False),
     w_try_get_many = (\<lambda>_ w. (Map.empty, w))\<rparr>"

definition sample_worker_env :: "(WorkerError + unit) \<Rightarrow> unit WorkerEnv" where
  "sample_worker_env r = \<lparr>we_config = \<lparr>wc_key_pair = Some 8, wc_allow_inactive_chains = False,
       wc_allow_messages_from_deprecated_epochs = False, wc_grace_period = 0\<rparr>,
     we_chain = sample_chain_env, we_world = sample_world r, we_sign_info = (\<lambda>_ k. k)\<rparr>"

definition sample_worker :: "ChainStateView \<Rightarrow> unit WorkerState" where
  "sample_worker c = \<lparr>ws_chain = c, ws_saved = c, ws_world = (), ws_tracked_chains = None,
     ws_knows_chain_is_active = False, ws_succeeded = False\<rparr>"

definition sample_cert :: Certificate where
  "sample_cert = \<lparr>cert_value = \<lparr>hv_value = ConfirmedBlock \<lparr>block = empty_block, outcome = empty_result\<rparr>, hv_hash = 5\<rparr>,
     cert_round = Fast, cert_signatures = [(1, 1), (2, 2), (3, 3)]\<rparr>"

definition confirmed_chain :: ChainStateView where
  "confirmed_chain = empty_chain'\<lparr>cs_tip_state := \<lparr>block_hash = Some 5, next_block_height = 4, num_incoming_bundles = 0,
       num_operations = 0, num_outgoing_messages = 0\<rparr>, cs_confirmed_log := [21, 22, 1, 5]\<rparr>"

lemma sample_check: "Certificate_check sample_crypto sample_cert paid_committee = Inr (cert_value sample_cert)"
  by (simp add: Certificate_check_def check_signatures_def sample_cert_def paid_committee_def Committee_new_def Let_def
      weight_def validator_state_def sample_crypto_def lite_value_def word_le_nat_alt unat_div_distrib word_less_nat_alt)

lemma sample_active: "chain_is_active sample_chain"
  by (simp add: chain_is_active_def sys_is_active_def sample_chain_def paid_sys_def sample_sys_def current_committee_def
      ownership_single_def is_active_def)

lemma sample_committee: "current_committee (ex_system (cs_execution_state sample_chain)) = Some (0, paid_committee)"
  by (simp add: sample_chain_def paid_sys_def sample_sys_def current_committee_def)

lemma sample_tip: "cs_tip_state sample_chain = \<lparr>block_hash = Some 1, next_block_height = 3, num_incoming_bundles = 0,
    num_operations = 0, num_outgoing_messages = 0\<rparr>" "cs_confirmed_log sample_chain = [21, 22, 1]"
    "cs_tip_state empty_chain' = cs_tip_state sample_chain" "cs_confirmed_log empty_chain' = [21, 22, 1]" "cs_outboxes empty_chain' = []"
  by (simp_all add: sample_chain_def empty_chain'_def sample_at_def)

lemma sample_remove: "remove_bundles_from_inboxes sample_chain_env empty_block sample_chain = (Inr (), sample_chain)"
  by (simp add: remove_bundles_from_inboxes_def sr_bind_def sr_lift_def sr_modify_def load_entries_def sr_ok_def
      forget_unskippable_def sample_chain_def)

lemma sample_confirms:
  "\<exists>x s'. process_confirmed_block (sample_worker_env (Inr ())) sample_cert [] (sample_worker sample_chain) = (Inr x, s')
     \<and> ws_chain s' = confirmed_chain \<and> ws_saved s' = confirmed_chain" (is ?ok)
  and sample_save_fails:
  "\<exists>s'. process_confirmed_block (sample_worker_env (Inl e)) sample_cert [] (sample_worker sample_chain) = (Inl e, s')" (is ?fails)
proof -
  have b: "required_blob_ids \<lparr>block = empty_block, outcome = empty_result\<rparr> = {}"
    by (simp add: required_blob_ids_def Outcome_required_blob_ids_def empty_result_def map_filter_def)
  have o: "oracle_responses empty_result = []" "messages empty_result = []" by (simp_all add: empty_result_def)
  have cr: "ce_crypto sample_chain_env = sample_crypto" by (simp add: sample_chain_env_def)
  have add: "try_add_one (3 :: u64) = Inr 4" by (simp add: try_add_one_def checked_add_def)
  have v: "hv_value (cert_value sample_cert) = ConfirmedBlock \<lparr>block = empty_block, outcome = empty_result\<rparr>"
    "hv_hash (cert_value sample_cert) = 5" by (simp_all add: sample_cert_def)
  show ?ok ?fails
    unfolding process_confirmed_block_def with_attempted_changes_def assert_no_pending_changes_def
      has_pending_changes_def try_process_confirmed_block_def confirm_next_block_def Let_def v
    by (simp_all add: sr_bind_def sr_get_def tip_def sample_worker_def sample_tip init_first_block_def is_first_block_def sr_ok_def
        worker_ensure_is_active_def ensure_is_active_def sample_worker_env_def sample_active sr_lift_def sr_modify_def
        expect_committee_def system_of_def sample_committee check_block_epoch_def check_certificate_def cr sample_check
        sr_ensure_def check_no_missing_blobs_def get_missing_blobs_def b sample_world_def cache_recent_blobs_def
        get_blobs_def on_world_def in_chain_def sample_remove current_time_def o empty_execute_block v
        advance_tip_def add track_newly_created_chains_def create_network_actions_def heights_by_recipient_def
        save_def cache_value_def confirmed_chain_def)
qed

end
