(* ===== verification/Worker_Props.thy ===== *)
theory Worker_Props
  imports Worker_Samples
begin

text \<open>
  Properties of the worker of a chain.
\<close>

section \<open>The chain of confirmed blocks\<close>


lemma sample_run:
  "\<exists>s. worker_run (sample_worker_env (Inr ())) (sample_worker sample_chain) [sample_cert] s \<and> ws_chain s = confirmed_chain"
proof -
  obtain x s' where p: "process_confirmed_block (sample_worker_env (Inr ())) sample_cert [] (sample_worker sample_chain) = (Inr x, s')"
      and c: "ws_chain s' = confirmed_chain"
    using sample_confirms by blast
  have r: "run_request (sample_worker_env (Inr ())) (ProcessConfirmedBlock sample_cert []) (sample_worker sample_chain) = (Inr (), s')"
    by (simp add: run_request_def sr_bind_def sr_ok_def p)
  have "newly_confirmed (ProcessConfirmedBlock sample_cert []) (sample_worker sample_chain) s' = [sample_cert]"
    by (simp add: newly_confirmed_def c confirmed_chain_def sample_worker_def sample_tip)
  then show ?thesis using run_step [OF run_start r] c by auto
qed


section \<open>Requests are atomic\<close>



section \<open>Requests are steps of the chain\<close>



end
