(* ===== verification/Worker_Findings.thy ===== *)
theory Worker_Findings
  imports Worker_Samples
begin

text \<open>
  A flaw of the worker: the flag that the chain is known to be active outlives the changes it was read from.
\<close>

definition closed_ownership :: ChainOwnership where
  "closed_ownership = (ownership_single (\<lambda>k. k) 8)\<lparr>super_owners := []\<rparr>"

definition inactive_chain :: ChainStateView where
  "inactive_chain = sample_chain\<lparr>
     cs_execution_state := \<lparr>ex_system = sample_sys\<lparr>sy_description := None, sy_epoch := None, sy_admin_id := None,
       sy_committees := [], sy_ownership := closed_ownership\<rparr>, ex_users = Map.empty\<rparr>,
     cs_tip_state := \<lparr>block_hash = None, next_block_height = 0, num_incoming_bundles = 0, num_operations = 0,
       num_outgoing_messages = 0\<rparr>\<rparr>"

definition forged_config :: OpenChainConfig where
  "forged_config = \<lparr>oc_ownership = ownership_single (\<lambda>k. k) 8, oc_admin_id = 4, oc_epoch = 0,
     oc_committees = [(0, paid_committee)], oc_balance = 0, oc_application_permissions = sample_permissions\<rparr>"

definition forged_block :: Block where
  "forged_block = empty_block\<lparr>epoch := 1, height := 0, previous_block_hash := None,
     incoming_bundles := [\<lparr>ib_origin = Origin_chain 6,
       ib_bundle = \<lparr>mb_height = 0, mb_timestamp = 0, mb_certificate_hash = 2, mb_transaction_index = 0,
         mb_messages = [\<lparr>pm_authenticated_signer = None, pm_grant = 0, pm_refund_grant_to = None, pm_kind = Protected,
           pm_index = 0, pm_message = System_msg (Msg_OpenChain forged_config)\<rparr>]\<rparr>, ib_action = Accept\<rparr>]\<rparr>"

text \<open>A certificate that nobody has signed, and one for a timeout.\<close>

definition forged_cert :: Certificate where
  "forged_cert = \<lparr>cert_value = \<lparr>hv_value = ConfirmedBlock \<lparr>block = forged_block, outcome = empty_result\<rparr>, hv_hash = 5\<rparr>,
     cert_round = Fast, cert_signatures = []\<rparr>"

definition timeout_cert :: Certificate where
  "timeout_cert = \<lparr>cert_value = \<lparr>hv_value = Timeout 4 0 0, hv_hash = 6\<rparr>, cert_round = Fast, cert_signatures = []\<rparr>"

lemma inactive_simps:
  "\<not> chain_is_active inactive_chain" "current_committee (ex_system (cs_execution_state inactive_chain)) = None"
  "is_first_block (cs_tip_state inactive_chain)" "next_block_height (cs_tip_state inactive_chain) = 0"
  by (simp_all add: inactive_chain_def chain_is_active_def sys_is_active_def current_committee_def is_first_block_def sample_sys_def)

lemma forged_init:
  "\<exists>c. execute_init_message sample_chain_env mid forged_config t 9 inactive_chain = (Inr True, c)
     \<and> chain_is_active c \<and> current_committee (ex_system (cs_execution_state c)) = Some (0, paid_committee)"
proof -
  have "\<exists>m. ChainManager_new sample_crypto (ce_sampler sample_chain_env) (ownership_single (\<lambda>k. k) 8) 0 9
     (keys_and_weights paid_committee) = Inr m"
    by (simp add: ChainManager_new_def alias_new_def sample_chain_env_def Let_def)
  moreover have "TimeDelta_from_secs 86400 \<noteq> 0" by (simp add: TimeDelta_from_secs_def saturating_mul_def checked_mul_def)
  ultimately show ?thesis
    by (auto simp: execute_init_message_def initialize_chain_def inactive_chain_def sample_sys_def closed_ownership_def
        is_active_def ownership_single_def forged_config_def sr_bind_def sr_ok_def update_state_hash_def reset_manager_def
        current_committee_def current_keys_and_weights_def manager_reset_def sample_chain_env_def chain_is_active_def
        sys_is_active_def Let_def TimeoutConfig_default_def)
qed

text \<open>C40. An unsigned certificate leaves a worker that panics. For the first block of a chain that is
  not active, the worker stages the message that opens the chain before it checks the certificate, and remembers that the
  chain is active. The certificate is refused and the staged changes are rolled back, but not the memory: the
  next request, which a worker of an inactive chain refuses, panics.\<close>

theorem refused_certificate_breaks_worker:
  "let env = sample_worker_env (Inr ()); s = sample_worker inactive_chain;
       (r, s') = process_confirmed_block env forged_cert [] s
   in r = Inl (InvalidEpoch 4 0 1) \<and> ws_chain s' = ws_chain s
    \<and> fst (process_timeout env timeout_cert s) = Inl (Worker_ChainError (InactiveChain 4))
    \<and> fst (process_timeout env timeout_cert s') = Inl (Worker_Panic ''chain is active'')"
proof -
  let ?env = "sample_worker_env (Inr ())" and ?s = "sample_worker inactive_chain"
  have op: "starts_with_open_chain_message forged_block = Some (hd (incoming_bundles forged_block),
      hd (mb_messages (ib_bundle (hd (incoming_bundles forged_block)))), forged_config)"
    and b: "height forged_block = 0" "epoch forged_block = 1" "chain_id forged_block = 4"
    by (simp_all add: starts_with_open_chain_message_def forged_block_def matches_open_chain_def empty_block_def transfer_block_def)
  obtain c where c: "execute_init_message sample_chain_env
      \<lparr>mid_chain_id = sender (ib_origin (hd (incoming_bundles forged_block))),
       mid_height = mb_height (ib_bundle (hd (incoming_bundles forged_block))),
       mid_index = pm_index (hd (mb_messages (ib_bundle (hd (incoming_bundles forged_block)))))\<rparr>
      forged_config (mb_timestamp (ib_bundle (hd (incoming_bundles forged_block)))) 9 inactive_chain = (Inr True, c)"
      "chain_is_active c" "current_committee (ex_system (cs_execution_state c)) = Some (0, paid_committee)"
    using forged_init by blast
  have "process_confirmed_block ?env forged_cert [] ?s = (Inl (InvalidEpoch 4 0 1), ?s\<lparr>ws_knows_chain_is_active := True\<rparr>)"
    by (simp add: process_confirmed_block_def with_attempted_changes_def assert_no_pending_changes_def
      has_pending_changes_def sr_ensure_def try_process_confirmed_block_def forged_cert_def
        confirm_next_block_def init_first_block_def sr_bind_def sr_get_def sr_ok_def sr_lift_def sr_modify_def tip_def
        sample_worker_def sample_worker_env_def inactive_simps b op current_time_def on_world_def sample_world_def in_chain_def c
        worker_ensure_is_active_def ensure_is_active_def expect_committee_def system_of_def check_block_epoch_def rollback_def)
  moreover have "fst (process_timeout ?env timeout_cert (?s\<lparr>ws_knows_chain_is_active := k\<rparr>)) =
      Inl (if k then Worker_Panic ''chain is active'' else Worker_ChainError (InactiveChain 4))" for k
    by (simp add: process_timeout_def with_attempted_changes_def assert_no_pending_changes_def
      has_pending_changes_def sr_ensure_def try_process_timeout_def timeout_cert_def sr_bind_def sr_get_def
        sr_ok_def sr_lift_def sample_worker_def sample_worker_env_def inactive_simps worker_ensure_is_active_def
        ensure_is_active_def expect_committee_def system_of_def ok_or_def)
  note this [of False] this [of True]
  moreover have "?s\<lparr>ws_knows_chain_is_active := False\<rparr> = ?s" by (simp add: sample_worker_def)
  ultimately show ?thesis by simp
qed

end
