(* ===== verification/Worker_Messages.thy ===== *)
theory Worker_Messages
  imports Worker_Samples Certificate_Props
begin

text \<open>
  The messages between chains: which of the received bundles a worker accepts, and what it sends.
\<close>

section \<open>Positions\<close>

text \<open>One more than the last position with a property.\<close>

definition last_position :: "('a \<Rightarrow> bool) \<Rightarrow> 'a list \<Rightarrow> nat" where
  "last_position P xs = length (dropWhile (\<lambda>x. \<not> P x) (rev xs))"

lemma last_position_Nil [simp]: "last_position P [] = 0"
  by (simp add: last_position_def)

lemma last_position_Cons:
  "last_position P (x # xs) = (if 0 < last_position P xs then Suc (last_position P xs) else if P x then 1 else 0)"
  by (auto simp: last_position_def dropWhile_append dropWhile_eq_Nil_conv)

lemma last_position_le: "last_position P xs \<le> length xs"
  by (induction xs) (auto simp: last_position_Cons)

lemma less_last_position: "i < last_position P xs \<longleftrightarrow> (\<exists>k. i \<le> k \<and> k < length xs \<and> P (xs ! k))"
proof (induction xs arbitrary: i)
  case (Cons x xs)
  have pos: "0 < last_position P xs \<longleftrightarrow> (\<exists>k < length xs. P (xs ! k))" using Cons.IH [of 0] by auto
  have "(\<exists>k. i \<le> k \<and> k < length (x # xs) \<and> P ((x # xs) ! k)) \<longleftrightarrow> i = 0 \<and> P x \<or> (\<exists>k. i \<le> Suc k \<and> k < length xs \<and> P (xs ! k))"
    by (auto simp: gr0_conv_Suc less_Suc_eq_0_disj nth_Cons split: nat.splits)
  moreover have "i < last_position P (x # xs) \<longleftrightarrow> i = 0 \<and> P x \<or> (\<exists>k. i \<le> Suc k \<and> k < length xs \<and> P (xs ! k))"
  proof (cases i)
    case 0
    then show ?thesis using pos by (auto simp: last_position_Cons)
  next
    case (Suc j)
    then show ?thesis using Cons.IH [of j] pos by (auto simp: last_position_Cons)
  qed
  ultimately show ?case by blast
qed simp

section \<open>Selecting bundles\<close>

lemma select_loop_exact:
  "select_loop self n la bs i latest sk tr =
     (if sorted ((case latest of None \<Rightarrow> [] | Some h \<Rightarrow> [h]) @ map (\<lambda>(_, b). mb_height b) bs)
      then Inr (if 0 < last_position (\<lambda>(_, b). mb_height b < n) bs then i + last_position (\<lambda>(_, b). mb_height b < n) bs else sk,
                if 0 < last_position (is_trusted self la) bs then i + last_position (is_trusted self la) bs else tr)
      else Inl InvalidCrossChainRequest)"
proof (induction self n la bs i latest sk tr rule: select_loop.induct)
  case (2 self n la e b rest i latest sk tr)
  show ?case
  proof (cases "case latest of None \<Rightarrow> True | Some h \<Rightarrow> h \<le> mb_height b")
    case True
    then have "sorted ((case latest of None \<Rightarrow> [] | Some h \<Rightarrow> [h]) @ map (\<lambda>(_, b). mb_height b) ((e, b) # rest))
        \<longleftrightarrow> sorted (mb_height b # map (\<lambda>(_, b). mb_height b) rest)"
      by (auto split: option.splits)
    then show ?thesis using 2 True by (auto simp: last_position_Cons)
  next
    case False
    then show ?thesis by (auto split: option.splits)
  qed
qed (auto split: option.split)

lemma filter_upt_interval:
  assumes "\<And>i. i < n \<Longrightarrow> P i \<longleftrightarrow> a \<le> i \<and> i < b" and "b \<le> n"
  shows "filter P [0..<n] = [a..<b]"
proof (rule sorted_distinct_set_unique)
  show "set (filter P [0..<n]) = set [a..<b]" using assms by auto
qed (simp_all add: sorted_wrt_filter)

lemma drop_take_nth: "b \<le> length xs \<Longrightarrow> drop a (take b xs) = map ((!) xs) [a..<b]"
  by (rule nth_equalityI) auto

text \<open>C21. Which bundles of a cross-chain update are accepted. If the heights of the bundles decrease somewhere,
  the update is refused; otherwise exactly these bundles are taken, in their order: the ones at heights that
  were not received yet that are trusted themselves or are followed by a trusted one.\<close>

theorem select_message_bundles_exact:
  "select_message_bundles self n la bundles =
     (if sorted (map (\<lambda>(_, b). mb_height b) bundles)
      then Inr (map (\<lambda>i. snd (bundles ! i))
        (filter (\<lambda>i. n \<le> mb_height (snd (bundles ! i)) \<and> (\<exists>j. i \<le> j \<and> j < length bundles \<and> is_trusted self la (bundles ! j)))
          [0..<length bundles]))
      else Inl InvalidCrossChainRequest)"
proof (cases "sorted (map (\<lambda>(_, b). mb_height b) bundles)")
  case True
  let ?sk = "last_position (\<lambda>(_, b). mb_height b < n) bundles" and ?tr = "last_position (is_trusted self la) bundles"
  have heights: "mb_height (snd (bundles ! i)) \<le> mb_height (snd (bundles ! k))" if "i \<le> k" "k < length bundles" for i k
    using sorted_nth_mono [OF True that(1)] that by (simp add: case_prod_beta)
  have "i < ?sk \<longleftrightarrow> mb_height (snd (bundles ! i)) < n" if "i < length bundles" for i
    unfolding less_last_position case_prod_beta using heights that by (meson le_less_trans order_refl)
  then have "?sk \<le> i \<longleftrightarrow> n \<le> mb_height (snd (bundles ! i))" if "i < length bundles" for i
    using that by (metis not_less)
  then have "filter (\<lambda>i. n \<le> mb_height (snd (bundles ! i)) \<and> (\<exists>j. i \<le> j \<and> j < length bundles \<and> is_trusted self la (bundles ! j)))
      [0..<length bundles] = [?sk..<?tr]"
    by (intro filter_upt_interval) (auto simp flip: less_last_position simp: last_position_le)
  then show ?thesis using True
    by (simp add: select_message_bundles_def select_loop_exact drop_take_nth [OF last_position_le] case_prod_beta)
qed (simp add: select_message_bundles_def select_loop_exact)

section \<open>Sending messages\<close>

lemma update_heights:
  assumes "bt_ok m"
  shows "bt_ok (bt_insert r (AList.update q hs (case bt_get m r of Some hs \<Rightarrow> hs | None \<Rightarrow> [])) m)"
    and "bt_get (bt_insert r (AList.update q hs (case bt_get m r of Some hs \<Rightarrow> hs | None \<Rightarrow> [])) m) r' =
      (if r' = r then Some (AList.update q hs (case bt_get m r of Some hs \<Rightarrow> hs | None \<Rightarrow> [])) else bt_get m r')"
  using assms by simp_all

lemma heights_by_recipient_complete:
  assumes "distinct (map fst outboxes)" and "(target, outbox) \<in> set outboxes" and "is_tracked_target tracked target"
  shows "\<exists>hm. (recipient target, hm) \<in> set (heights_by_recipient tracked outboxes)
    \<and> (target_medium target, outbox_queue outbox) \<in> set hm"
proof -
  let ?ins = "\<lambda>(target, outbox) m. bt_insert (recipient target)
         (AList.update (target_medium target) (outbox_queue outbox)
           (case bt_get m (recipient target) of Some hs \<Rightarrow> hs | None \<Rightarrow> [])) m"
  let ?has = "\<lambda>m t ob. \<exists>hm. bt_get m (recipient t) = Some hm \<and> map_of hm (target_medium t) = Some (outbox_queue ob)"
  have "bt_ok (fold ?ins obs []) \<and> (\<forall>(t, ob) \<in> set obs. ?has (fold ?ins obs []) t ob)"
    if "distinct (map fst obs)" for obs :: "(Target \<times> OutboxStateView) list"
    using that
  proof (induction obs rule: rev_induct)
    case (snoc x obs)
    obtain t ob where x: "x = (t, ob)" by (cases x)
    define m where "m = fold ?ins obs []"
    from snoc have m: "bt_ok m" "\<forall>(t, ob) \<in> set obs. ?has m t ob" and new: "t \<notin> fst ` set obs" by (auto simp: m_def x)
    have "?has (?ins (t, ob) m) t' ob'" if mem: "(t', ob') \<in> set obs" for t' ob'
    proof -
      have "t' \<noteq> t" using new mem by force
      then have "recipient t' \<noteq> recipient t \<or> target_medium t' \<noteq> target_medium t" by auto
      then show ?thesis using m(2) mem by (fastforce simp: update_heights [OF m(1)] update_conv')
    qed
    moreover have "?has (?ins (t, ob) m) t ob" by (simp add: update_heights [OF m(1)] update_conv')
    ultimately show ?case using m(1) by (auto simp: x simp flip: m_def)
  qed simp
  from this [of "filter (\<lambda>(target, _). is_tracked_target tracked target) outboxes"] assms show ?thesis
    unfolding heights_by_recipient_def by (fastforce simp: distinct_map_filter dest: map_of_SomeD)
qed

lemma create_requests_complete:
  assumes "create_requests env s entries = Inr requests" and "(rcp, hm) \<in> set entries"
  shows "\<exists>request \<in> set requests. create_cross_chain_request env s hm rcp = Inr request"
  using assms
  by (induction env s entries arbitrary: requests rule: create_requests.induct) (auto simp: result_simps)

lemma collect_bundles_complete:
  assumes "collect_bundles certs medium rcp hs = Inr bundles" and "h \<in> set hs"
  shows "\<exists>cert. map_of certs h = Some cert \<and> set (message_bundles_for cert medium rcp) \<subseteq> set bundles"
  using assms
  by (induction certs medium rcp hs arbitrary: bundles rule: collect_bundles.induct) (fastforce simp: result_simps)+

lemma collect_bundle_vecs_complete:
  assumes "collect_bundle_vecs certs rcp hm = Inr vecs" and "(medium, hs) \<in> set hm"
  shows "\<exists>bundles. collect_bundles certs medium rcp hs = Inr bundles \<and> (bundles \<noteq> [] \<longrightarrow> (medium, bundles) \<in> set vecs)"
  using assms
  by (induction certs rcp hm arbitrary: vecs rule: collect_bundle_vecs.induct) (auto simp: result_simps split: if_splits)

lemma confirmed_hashes_Inr:
  "confirmed_hashes log hs = Inr hashes \<longleftrightarrow> (\<forall>h \<in> set hs. unat h < length log) \<and> hashes = map (\<lambda>h. log ! unat h) hs"
  by (induction log hs arbitrary: hashes rule: confirmed_hashes.induct) (auto simp: result_simps nth_opt_def)

lemma network_actions_complete:
  assumes "create_network_actions env s = (Inr actions, s')"
    and "distinct (map fst (cs_outboxes (ws_chain s)))"
    and "\<forall>hashes certs. w_read_certificates (we_world env) (ws_world s) hashes = Inr certs \<longrightarrow> map stored hashes = map Some certs"
    and "(target, outbox) \<in> set (cs_outboxes (ws_chain s))" and "is_tracked_target (ws_tracked_chains s) target"
    and "h \<in> set (outbox_queue outbox)"
  shows "\<exists>cert vecs. stored (cs_confirmed_log (ws_chain s) ! unat h) = Some cert
    \<and> UpdateRecipient (env_chain_id (we_chain env)) (recipient target) vecs \<in> set (na_cross_chain_requests actions)
    \<and> (\<forall>p \<in> set (message_bundles_for cert (target_medium target) (recipient target)).
        \<exists>bundles. (target_medium target, bundles) \<in> set vecs \<and> p \<in> set bundles)"
proof -
  obtain hm where hm: "(recipient target, hm) \<in> set (heights_by_recipient (ws_tracked_chains s) (cs_outboxes (ws_chain s)))"
      "(target_medium target, outbox_queue outbox) \<in> set hm"
    using heights_by_recipient_complete [OF assms(2,4,5)] by blast
  have "create_requests env s (heights_by_recipient (ws_tracked_chains s) (cs_outboxes (ws_chain s)))
      = Inr (na_cross_chain_requests actions)"
    using assms(1) by (auto simp: create_network_actions_def sr_bind_def sr_get_def sr_lift_def sr_ok_def split: sum.splits)
  from create_requests_complete [OF this hm(1)] obtain request where
    req: "request \<in> set (na_cross_chain_requests actions)" "create_cross_chain_request env s hm (recipient target) = Inr request"
    by blast
  let ?heights = "sort (remdups (concat (map snd hm)))"
  from req(2) obtain certs vecs where
    certs: "w_read_certificates (we_world env) (ws_world s) (map (\<lambda>h. cs_confirmed_log (ws_chain s) ! unat h) ?heights) = Inr certs"
    and vecs: "collect_bundle_vecs (zip ?heights certs) (recipient target) hm = Inr vecs"
    and r: "request = UpdateRecipient (env_chain_id (we_chain env)) (recipient target) vecs"
    by (auto simp: create_cross_chain_request_def Let_def result_simps confirmed_hashes_Inr)
  obtain bundles where b: "collect_bundles (zip ?heights certs) (target_medium target) (recipient target) (outbox_queue outbox) = Inr bundles"
      "bundles \<noteq> [] \<Longrightarrow> (target_medium target, bundles) \<in> set vecs"
    using collect_bundle_vecs_complete [OF vecs hm(2)] by blast
  obtain cert where c: "map_of (zip ?heights certs) h = Some cert"
      "set (message_bundles_for cert (target_medium target) (recipient target)) \<subseteq> set bundles"
    using collect_bundles_complete [OF b(1) assms(6)] by blast
  have st: "map (\<lambda>h. stored (cs_confirmed_log (ws_chain s) ! unat h)) ?heights = map Some certs"
    using assms(3) [rule_format, OF certs] by (simp add: comp_def)
  have "(h, cert) \<in> set (zip ?heights certs)" using c(1) by (rule map_of_SomeD)
  then obtain i where "i < length ?heights" "i < length certs" "?heights ! i = h" "certs ! i = cert" by (auto simp: set_zip)
  then have "stored (cs_confirmed_log (ws_chain s) ! unat h) = Some cert"
    using arg_cong [OF st, of "\<lambda>l. l ! i"] by simp
  then show ?thesis using req(1) r b(2) c(2) by fastforce
qed

text \<open>C20. Every message in an outbox is sent. If the storage returns certificates as they are stored
  under the requested hashes, then the network actions hold, for every height in the outbox of every tracked
  target, a request to the recipient with all bundles for this target of the block confirmed at this height.\<close>

theorem queued_messages_sent:
  assumes "create_network_actions env s = (Inr actions, s')"
    and "distinct (map fst (cs_outboxes (ws_chain s)))"
    and "\<forall>hashes certs. w_read_certificates (we_world env) (ws_world s) hashes = Inr certs \<longrightarrow> map stored hashes = map Some certs"
    and "(target, outbox) \<in> set (cs_outboxes (ws_chain s))" and "is_tracked_target (ws_tracked_chains s) target"
    and "h \<in> set (outbox_queue outbox)"
  shows "\<exists>cert vecs. stored (cs_confirmed_log (ws_chain s) ! unat h) = Some cert
    \<and> UpdateRecipient (env_chain_id (we_chain env)) (recipient target) vecs \<in> set (na_cross_chain_requests actions)
    \<and> (\<forall>p \<in> set (message_bundles_for cert (target_medium target) (recipient target)).
        \<exists>bundles. (target_medium target, bundles) \<in> set vecs \<and> p \<in> set bundles)"
  using assms by (rule network_actions_complete)

text \<open>A chain with a confirmed block whose messages wait in an outbox.\<close>

definition sending_env :: "unit WorkerEnv" where
  "sending_env = (sample_worker_env (Inr ()))\<lparr>we_world := (sample_world (Inr ()))
     \<lparr>w_read_certificates := (\<lambda>_ hashes. if hashes = [9] then Inr [sample_certificate] else Inl InvalidCrossChainRequest)\<rparr>\<rparr>"

definition sending_worker :: "unit WorkerState" where
  "sending_worker = sample_worker (sample_chain\<lparr>cs_confirmed_log := [9],
     cs_outboxes := [(\<lparr>recipient = 7, target_medium = Direct\<rparr>, \<lparr>next_height_to_schedule = 1, outbox_queue = [0]\<rparr>)]\<rparr>)"

theorem queued_messages_sent_witness:
  "\<exists>actions vecs. fst (create_network_actions sending_env sending_worker) = Inr actions
    \<and> UpdateRecipient 4 7 vecs \<in> set (na_cross_chain_requests actions)
    \<and> (\<forall>p \<in> set (message_bundles_for sample_certificate Direct 7). \<exists>bundles. (Direct, bundles) \<in> set vecs \<and> p \<in> set bundles)"
proof -
  obtain actions where a: "create_network_actions sending_env sending_worker = (Inr actions, sending_worker)"
    by (simp add: create_network_actions_def sending_env_def sending_worker_def sample_worker_def sr_bind_def sr_get_def
        sr_lift_def sr_ok_def heights_by_recipient_def is_tracked_target_def create_cross_chain_request_def nth_opt_def
        sample_worker_env_def)
  from queued_messages_sent [OF a, of "\<lambda>hash. if hash = 9 then Some sample_certificate else None"
      "\<lparr>recipient = 7, target_medium = Direct\<rparr>" "\<lparr>next_height_to_schedule = 1, outbox_queue = [0]\<rparr>" 0]
  show ?thesis using a
    by (auto simp: sending_env_def sending_worker_def sample_worker_def is_tracked_target_def sample_worker_env_def)
qed

end
