(* ===== verification/Chain_Heights.thy ===== *)
theory Chain_Heights
  imports Chain_Delivery
begin

text \<open>
  The heights of queued messages stay below the height of the next block: what the delivery of
  the messages of a block relies on.
\<close>

text \<open>\<open>mail_below n\<close>: every target has one outbox, its queue is in order, and nothing was scheduled or broadcast at
  height \<open>n\<close> or above.\<close>

definition mail_below :: "nat \<Rightarrow> ChainStateView \<Rightarrow> bool" where
  "mail_below n s \<longleftrightarrow> distinct (map fst (cs_outboxes s))
     \<and> (\<forall>t. outbox_inv (outbox_of s t) \<and> unat (next_height_to_schedule (outbox_of s t)) \<le> n)
     \<and> (\<forall>name. \<forall>x \<in> set (block_heights (channel_of s name)). unat x < n)"

lemma mail_below_heights: "mail_below (unat h) s \<Longrightarrow> heights_below h s"
  by (simp add: mail_below_def heights_below_def word_le_nat_alt word_less_nat_alt)

lemma mail_below_mono: "mail_below n s \<Longrightarrow> n \<le> m \<Longrightarrow> mail_below m s"
  unfolding mail_below_def by (meson le_trans less_le_trans)

lemma mail_below_fresh: "fresh_mailboxes s \<Longrightarrow> mail_below n s"
  by (simp add: mail_below_def fresh_mailboxes_def ChannelStateView_new_def) (simp add: OutboxStateView_new_def)

definition same_mail :: "ChainStateView \<Rightarrow> ChainStateView \<Rightarrow> bool" where
  "same_mail s s' \<longleftrightarrow> cs_outboxes s' = cs_outboxes s \<and> cs_channels s' = cs_channels s"

lemma mail_below_same: "same_mail s s' \<Longrightarrow> mail_below n s' \<longleftrightarrow> mail_below n s"
  by (simp add: mail_below_def same_mail_def)

lemma keeps_same_mail: "(\<And>s x s'. m s = (Inr x, s') \<Longrightarrow> same_mail s s') \<Longrightarrow> keeps (mail_below n) m"
  by (rule keepsI) (use mail_below_same in blast)

section \<open>Scheduling\<close>

lemma mail_below_schedule:
  assumes "unat x < n"
  shows "keeps (mail_below n) (schedule_in t x)"
proof (rule keepsI)
  fix s b s'
  assume below: "mail_below n s" and r: "schedule_in t x s = (Inr b, s')"
  obtain v where v: "schedule_message (outbox_of s t) x = (Inr b, v)"
      and s': "cs_outboxes s' = AList.update t v (cs_outboxes s)" "cs_channels s' = cs_channels s"
    using r by (auto simp: schedule_in_def Let_def split: prod.splits sum.splits bool.splits)
  have inv: "outbox_inv v" by (rule outbox_inv_schedule [OF _ v]) (use below in \<open>simp add: mail_below_def\<close>)
  have "unat (next_height_to_schedule v) \<le> n"
  proof (cases b)
    case False
    then have "v = outbox_of s t" using v by (auto simp: schedule_message_cases split: if_splits)
    then show ?thesis using below by (simp add: mail_below_def)
  next
    case True
    then have "next_height_to_schedule v = x + 1" "x \<noteq> num_max"
      using v by (auto simp: schedule_message_cases split: if_splits)
    then show ?thesis using assms unatSuc [of x] by (cases "1 + x = 0") (simp_all add: add.commute)
  qed
  then show "mail_below n s'" using below inv by (auto simp: mail_below_def s' distinct_update)
qed

lemma mail_below_schedule_all:
  "\<forall>(t, x) \<in> set infos. unat x < n \<Longrightarrow> keeps (mail_below n) (schedule_all infos)"
proof (induction infos rule: schedule_all.induct)
  case (2 t x rest)
  then have "keeps (mail_below n) (schedule_in t x)" "keeps (mail_below n) (schedule_all rest)"
    by (auto intro: mail_below_schedule)
  then show ?case unfolding schedule_all.simps by (intro keeps_rules)
qed (simp add: keeps_simple)

lemma mail_below_loads: "keeps (mail_below n) (load_outboxes ts)" "keeps (mail_below n) (load_channels names)"
proof -
  have "distinct (map fst m) \<Longrightarrow> distinct (map fst (load_entries d ks m))" for d :: OutboxStateView and ks :: "Target list" and m
    by (induction ks arbitrary: m) (simp_all add: load_entries_def load_entry_def distinct_update)
  then show "keeps (mail_below n) (load_outboxes ts)" "keeps (mail_below n) (load_channels names)"
    by (auto simp: keeps_def load_outboxes_def load_channels_def sr_simps mail_below_def)
qed

lemma mail_below_channel:
  assumes "mail_below n s" and "\<And>x. x \<in> set (block_heights (f (channel_of s name))) \<Longrightarrow> unat x < n"
  shows "mail_below n (update_channel name f s)"
  using assms by (auto simp: mail_below_def)

lemma mail_below_add_subscribers:
  assumes "add_subscribers app xs s = (infos, s')" and "mail_below n s"
  shows "mail_below n s' \<and> (\<forall>(t, x) \<in> set infos. unat x < n)"
  using assms
proof (induction app xs s arbitrary: infos rule: add_subscribers.induct)
  case (2 app name cid rest s)
  obtain i1 s1 where 1: "add_subscriber (full_name app name) cid s = (i1, s1)" by fastforce
  then have "mail_below n s1 \<and> (\<forall>(t, x) \<in> set i1. unat x < n)"
    using "2.prems"(2) by (auto simp: add_subscriber_def Let_def mail_below_def split: if_splits)
  then show ?case using "2.IH" "2.prems"(1) 1 by (fastforce split: prod.splits)
qed simp

lemma mail_below_subscribes: "keeps (mail_below n) (process_subscribes app xs)"
proof (cases "xs = []")
  case False
  show ?thesis
  proof (rule keepsI)
    fix s b s'
    assume s: "mail_below n s" and r: "process_subscribes app xs s = (Inr b, s')"
    obtain s1 infos s2 s3 where r: "load_channels (map (\<lambda>(name, _). full_name app name) xs) s = (Inr (), s1)"
        "add_subscribers app xs s1 = (infos, s2)" "load_outboxes (remdups (map fst infos)) s2 = (Inr (), s3)"
        "schedule_all infos s3 = (Inr b, s')"
      using r False by (auto simp: process_subscribes_def sr_simps pure_run)
    have "mail_below n s2" and i: "\<forall>(t, x) \<in> set infos. unat x < n"
      using mail_below_add_subscribers [OF r(2) keepsD [OF mail_below_loads(2) r(1) s]] by simp_all
    then have "mail_below n s3" by (intro keepsD [OF mail_below_loads(1) r(3)])
    then show "mail_below n s'" by (rule keepsD [OF mail_below_schedule_all [OF i] r(4)])
  qed
qed (simp add: process_subscribes_def keeps_simple)

lemma mail_below_unsubscribes: "keeps (mail_below n) (process_unsubscribes app xs)"
proof -
  have one: "mail_below n (update_channel name (\<lambda>c. c\<lparr>subscribers := filter p (subscribers c)\<rparr>) s)" if "mail_below n s" for name p s
    using that by (simp add: mail_below_def)
  have "mail_below n s \<Longrightarrow> mail_below n (fold (\<lambda>(name, cid). update_channel (full_name app name)
      (\<lambda>c. c\<lparr>subscribers := filter (\<lambda>x. x \<noteq> cid) (subscribers c)\<rparr>)) xs s)" for s
    by (induction xs arbitrary: s) (auto simp: one)
  then show ?thesis unfolding process_unsubscribes_def by (intro keeps_rules mail_below_loads)
qed

lemma mail_below_broadcast:
  "broadcast_all names h s = (ts, s') \<Longrightarrow> unat h < n \<Longrightarrow> mail_below n s \<Longrightarrow> mail_below n s'"
proof (induction names h s arbitrary: ts rule: broadcast_all.induct)
  case (2 name names h s)
  obtain t1 s1 where 1: "broadcast_on name h s = (t1, s1)" by fastforce
  then have "mail_below n s1" using "2.prems"(2,3) by (auto simp: broadcast_on_def mail_below_def split: if_splits)
  then show ?case using "2.IH" "2.prems"(1,2) 1 by (auto split: prod.splits)
qed simp

lemma mail_below_process_raw:
  assumes "unat h < n"
  shows "keeps (mail_below n) (process_raw_execution_outcome app lift h raw)"
  unfolding process_raw_execution_outcome_def Let_def
  by (intro keeps_rules mail_below_loads mail_below_schedule_all mail_below_unsubscribes mail_below_subscribes keepsI)
    (use assms in \<open>auto dest: mail_below_broadcast split: prod.splits\<close>)

lemma mail_below_outcomes:
  "unat h < n \<Longrightarrow> keeps (mail_below n) (process_execution_outcomes h outs)"
  by (induction h outs rule: process_execution_outcomes.induct)
    (auto intro!: keeps_rules mail_below_process_raw split: ExecutionOutcome.split)

interpretation heights: mailbox_invariant "mail_below (Suc (unat h))" h for h
  by unfold_locales (simp_all add: mail_below_outcomes, simp_all add: mail_below_def)

section \<open>Steps of the chain\<close>

lemma same_mail_init: "execute_init_message env mid config time t s = (Inr b, s') \<Longrightarrow> same_mail s s'"
  by (auto simp: execute_init_message_def Let_def run_simps update_state_hash_def reset_manager_def same_mail_def
      split: option.splits sum.splits)

lemma mail_below_init: "keeps (mail_below n) (execute_init_message env mid config time t)"
  by (rule keeps_same_mail) (rule same_mail_init)

lemma mail_below_receive: "keeps (mail_below n) (receive_message_bundle env origin bundle t log)"
  unfolding receive_message_bundle_def Let_def
proof (intro keeps_rules mail_below_unsubscribes mail_below_subscribes)
  show "keeps (mail_below n) (handle_open_chain env ch time t pm)" for ch time pm
    unfolding handle_open_chain_def by (intro keeps_rules mail_below_init)
  show "keeps (mail_below n) (add_to_inbox origin bundle t)"
    by (rule keeps_same_mail) (auto simp: add_to_inbox_def Let_def same_mail_def split: prod.splits sum.splits if_splits)
qed (simp add: mail_below_def)

lemma mail_below_remove: "keeps (mail_below n) (remove_bundles_from_inboxes env blk)"
  unfolding remove_bundles_from_inboxes_def
proof (intro keeps_rules)
  show "keeps (mail_below n) (remove_all_from_inbox cid xs)" for cid xs
  proof (induction cid xs rule: remove_all_from_inbox.induct)
    case (2 cid origin mb rest)
    have "keeps (mail_below n) (remove_from_inbox cid origin mb)"
      by (rule keeps_same_mail) (auto simp: remove_from_inbox_def Let_def same_mail_def split: prod.splits sum.splits)
    then show ?case unfolding remove_all_from_inbox.simps using 2 by (intro keeps_rules)
  qed (simp add: keeps_simple)
  show "mail_below n (forget_unskippable removed s)" if "mail_below n s" for removed s
    using that by (auto simp: forget_unskippable_def mail_below_def Let_def split: prod.split)
qed (simp add: mail_below_def)

lemma mail_below_mark: "keeps (mail_below n) (chain_mark_messages_as_received target h)"
proof (rule keepsI)
  fix s b s'
  assume s: "mail_below n s" and r: "chain_mark_messages_as_received target h s = (Inr b, s')"
  have cd: "keeps (mail_below n) (count_down k)" for k
    by (rule keeps_same_mail) (auto simp: count_down_def same_mail_def split: option.splits if_splits)
  have del: "mail_below n (c\<lparr>cs_outboxes := AList.delete target (cs_outboxes c)\<rparr>)" if "mail_below n c" for c
    using that by (simp add: mail_below_def entry_or_delete distinct_delete) (simp add: OutboxStateView_new_def)
  obtain updates outbox where m: "mark_messages_as_received (outbox_of s target) h = (updates, outbox)"
      and o: "next_height_to_schedule outbox = next_height_to_schedule (outbox_of s target)"
    by (simp add: mark_messages_as_received_def case_prod_unfold Let_def)
  have "outbox_inv (outbox_of s target)" using s by (simp add: mail_below_def)
  from outbox_inv_mark [OF this, of h] have inv: "outbox_inv outbox" by (simp add: m)
  let ?s = "s\<lparr>cs_outboxes := AList.update target outbox (cs_outboxes s)\<rparr>"
  let ?m = "sr_bind (sr_each count_down updates) (\<lambda>_.
        sr_bind (sr_modify (\<lambda>self. if outbox_queue outbox = []
          then self\<lparr>cs_outboxes := AList.delete target (cs_outboxes self)\<rparr> else self)) (\<lambda>_. sr_ok True))"
  have k: "keeps (mail_below n) ?m" by (intro keeps_rules cd) (simp add: del)
  have s1: "mail_below n ?s" using s o inv by (simp add: mail_below_def distinct_update)
  show "mail_below n s'"
  proof (cases "updates = []")
    case True
    then show ?thesis using r m s1 by (auto simp: chain_mark_messages_as_received_def)
  next
    case False
    then have "?m ?s = (Inr b, s')" using r m by (simp add: chain_mark_messages_as_received_def)
    from keepsD [OF k this s1] show ?thesis .
  qed
qed

lemma mail_below_execute:
  assumes "execute_block env b t r s = (Inr out, s')" and "mail_below (unat (height b)) s"
  shows "mail_below (Suc (unat (height b))) s'"
  by (rule keepsD [OF heights.keeps_execute_block [OF refl] assms(1)]) (simp add: mail_below_mono [OF assms(2)])

end
