(* ===== verification/Worker_Delivery.thy ===== *)
theory Worker_Delivery
  imports Worker_Messages Chain_Heights
begin

text \<open>
  From a confirmed block to the requests that carry its messages: the worker keeps the heights of
  its outboxes below the height of the next block, so every message of the block is queued, and what is
  queued is sent.
\<close>

section \<open>Invariant\<close>

definition mail_ok :: "ChainStateView \<Rightarrow> bool" where
  "mail_ok c \<longleftrightarrow> mail_below (unat (next_block_height (cs_tip_state c))) c
     \<and> length (cs_confirmed_log c) = unat (next_block_height (cs_tip_state c))"

definition keeps_mail :: "ChainStateView \<Rightarrow> ChainStateView \<Rightarrow> bool" where
  "keeps_mail c c' \<longleftrightarrow> ledger c' = ledger c \<and> (\<forall>n. mail_below n c \<longrightarrow> mail_below n c')"

lemma keeps_mailI: "ledger c' = ledger c \<Longrightarrow> (\<And>n. mail_below n c \<Longrightarrow> mail_below n c') \<Longrightarrow> keeps_mail c c'"
  by (simp add: keeps_mail_def)

lemma keeps_mail_ok: "keeps_mail c c' \<Longrightarrow> mail_ok c \<Longrightarrow> mail_ok c'"
  by (simp add: keeps_mail_def mail_ok_def ledger_eq)

interpretation mail: mailbox_relation keeps_mail env for env
proof unfold_locales
  show "keeps_mail c c" for c by (simp add: keeps_mail_def)
  show "keeps_mail a c" if "keeps_mail a b" "keeps_mail b c" for a b c using that by (simp add: keeps_mail_def)
  show "keeps_mail c (c\<lparr>cs_manager := m\<rparr>)" for c m
    by (rule keeps_mailI) (simp_all add: ledger_def mail_below_def)
  show "keeps_mail c c'" if "receive_message_bundle (we_chain env) origin mb t new_block c = (Inr b, c')"
    for origin mb t new_block c b c'
    by (rule keeps_mailI, rule ledger.receive [OF that], rule keepsD [OF mail_below_receive that])
  show "keeps_mail c c'" if "chain_mark_messages_as_received target h c = (Inr b, c')" for target h c b c'
    by (rule keeps_mailI, rule ledger.mark [OF that], rule keepsD [OF mail_below_mark that])
  show "keeps_mail c c'" if "execute_init_message (we_chain env) mid config time t c = (Inr b, c')"
    for mid config time t c b c'
    by (rule keeps_mailI, rule ledger.init [OF that], rule keepsD [OF mail_below_init that])
qed

lemma keeps_mailD: "keeps_mail c c' \<Longrightarrow> mail_below n c \<Longrightarrow> mail_below n c'"
  by (simp add: keeps_mail_def)

text \<open>What confirming the next block does, up to the creation of the requests.\<close>

lemma confirm_executes:
  assumes run: "confirm_next_block env cert eb blobs t s = (Inr (info, actions), s')"
    and ok: "mail_ok (ws_chain s)" and h: "height (block eb) = next_block_height (tip s)"
  obtains c t c' s1 s2 acts where "mail_below (unat (height (block eb))) c"
    "execute_block (we_chain env) (block eb) t (Some (oracle_responses (outcome eb))) c = (Inr (outcome eb), c')"
    "cs_outboxes (ws_chain s1) = cs_outboxes c'" "cs_channels (ws_chain s1) = cs_channels c'"
    "cs_confirmed_log (ws_chain s1) = cs_confirmed_log (ws_chain s) @ [hv_hash (cert_value cert)]"
    "unat (next_block_height (tip s1)) = Suc (unat (height (block eb)))"
    "create_network_actions env s1 = (Inr acts, s2)" "na_cross_chain_requests actions = na_cross_chain_requests acts"
    "ws_chain s' = ws_chain s1" "ws_tracked_chains s' = ws_tracked_chains s1" "ws_succeeded s'"
  using run
proof (cases rule: confirm_next_block_Inr)
  case (1 s1 s2 e committee v' s3 s4 s5 bs s6 s7 s8 s9 s10 t s11 s12 s13 s14 acts s15)
  note hp = mail.follows_helpers and w = mail.follows_world
  note kept = followsD [OF mail.follows_init_first_block 1(1)] followsD [OF hp(1) 1(2)] followsD [OF hp(2) 1(3)]
      followsD [OF hp(3) 1(7)] followsD [OF hp(4) 1(8)] followsD [OF w(3) 1(9)] followsD [OF w(1) 1(10)] followsD [OF w(1) 1(11)]
  have "keeps_mail (ws_chain s) (ws_chain s8)" using kept by (blast intro: mail.step)
  then have 8: "mail_below (unat (height (block eb))) (ws_chain s8)" "ledger (ws_chain s8) = ledger (ws_chain s)"
    using ok h by (simp_all add: keeps_mail_def mail_ok_def tip_def)
  have 9: "remove_bundles_from_inboxes (we_chain env) (block eb) (ws_chain s8) = (Inr (), ws_chain s9)"
    using 1(12) by (auto simp: in_chain_def split: prod.splits)
  have 10: "ws_chain s10 = ws_chain s9" using 1(13) by (auto simp: current_time_def split: prod.splits)
  have 11: "execute_block (we_chain env) (block eb) t (Some (oracle_responses (outcome eb))) (ws_chain s10) = (Inr (outcome eb), ws_chain s11)"
    using 1(14) by (auto simp: in_chain_def split: prod.splits)
  have below: "mail_below (unat (height (block eb))) (ws_chain s10)"
    unfolding 10 by (rule keepsD [OF mail_below_remove 9 8(1)])
  have led: "ledger (ws_chain s11) = ledger (ws_chain s)" using ledger.remove [OF 9] ledger.execute [OF 11] 8(2) 10 by simp
  obtain k where k: "try_add_one (next_block_height (tip s11)) = Inr k" "next_block_height (tip s12) = k"
      "cs_outboxes (ws_chain s12) = cs_outboxes (ws_chain s11)" "cs_channels (ws_chain s12) = cs_channels (ws_chain s11)"
      "cs_confirmed_log (ws_chain s12) = cs_confirmed_log (ws_chain s11) @ [hv_hash (cert_value cert)]"
    using 1(15) by (rule advance_tip_Inr) (simp add: tip_def)
  have succ: "unat k = Suc (unat (height (block eb)))"
    using k(1) led h by (auto simp: tip_def ledger_eq try_add_one_def ok_or_def dest: checked_add_Some split: option.splits)
  have 13: "ws_chain s13 = ws_chain s12" using 1(16) by (auto simp: track_newly_created_chains_def sr_modify_def)
  have 14: "s14 = s13" using 1(17) by (auto simp: create_network_actions_def run_simps)
  have fin: "ws_chain s' = ws_chain s13" "ws_tracked_chains s' = ws_tracked_chains s13" "ws_succeeded s'"
    using 1(18,19) 14
    by (auto simp: save_def cache_value_def on_world_def sr_modify_def run_simps split: prod.splits)
  show ?thesis
    by (rule that [OF below 11, of s13 acts s14]) (use k led succ 13 fin 1(17,20) in \<open>simp_all add: tip_def ledger_eq\<close>)
qed

lemma confirm_mail_ok:
  assumes run: "confirm_next_block env cert eb blobs t s = (Inr x, s')"
    and ok: "mail_ok (ws_chain s)" and h: "height (block eb) = next_block_height (tip s)"
  shows "mail_ok (ws_chain s')"
proof -
  obtain info actions where x: "x = (info, actions)" by (cases x)
  obtain c t c' and s1 :: "'a WorkerState" where "mail_below (unat (height (block eb))) c"
    "execute_block (we_chain env) (block eb) t (Some (oracle_responses (outcome eb))) c = (Inr (outcome eb), c')"
    "cs_outboxes (ws_chain s1) = cs_outboxes c'" "cs_channels (ws_chain s1) = cs_channels c'"
    and 1: "cs_confirmed_log (ws_chain s1) = cs_confirmed_log (ws_chain s) @ [hv_hash (cert_value cert)]"
    "unat (next_block_height (tip s1)) = Suc (unat (height (block eb)))" "ws_chain s' = ws_chain s1"
    using run [unfolded x] ok h by (rule confirm_executes) blast
  then have "mail_below (Suc (unat (height (block eb)))) (ws_chain s1)"
    using mail_below_execute mail_below_same [of c' "ws_chain s1"] by (auto simp: same_mail_def)
  then show ?thesis using ok h 1 by (simp add: mail_ok_def tip_def)
qed

lemma try_confirmed_mail_ok:
  assumes "try_process_confirmed_block env cert blobs s = (Inr x, s')" and ok: "mail_ok (ws_chain s)"
  shows "mail_ok (ws_chain s')"
  using assms(1)
proof (cases rule: try_confirmed_cases)
  case (old actions)
  then show ?thesis using followsD [OF mail.follows_helpers(6)] keeps_mail_ok ok by blast
next
  case (new eb)
  then show ?thesis using confirm_mail_ok [OF new(3) ok new(2)] by blast
qed

lemma request_mail_ok:
  assumes clean: "ws_chain s = ws_saved s" and run: "run_request env request s = (r, s')" and ok: "mail_ok (ws_chain s)"
  shows "mail_ok (ws_chain s')"
proof (cases "\<exists>cert blobs. request = ProcessConfirmedBlock cert blobs")
  case True
  then obtain cert blobs q where "with_attempted_changes (try_process_confirmed_block env cert blobs) s = (q, s')"
    using run run_request_ignored by (fastforce simp: run_request_def process_confirmed_block_def)
  from clean saves_confirmed this show ?thesis
  proof (cases rule: attempted_cases)
    case (saved x)
    then show ?thesis using try_confirmed_mail_ok [OF saved(2)] ok by simp
  qed (use clean ok in simp)
next
  case False
  then have "keeps_mail (ws_chain s) (ws_chain s')" using servesD [OF mail.serves_request clean run] by blast
  then show ?thesis using ok by (rule keeps_mail_ok)
qed

lemma run_mail_ok:
  assumes "worker_run env s0 certs s" and clean: "ws_chain s0 = ws_saved s0" and ok: "mail_ok (ws_chain s0)"
  shows "mail_ok (ws_chain s)"
  using assms(1)
proof (induction rule: worker_run.induct)
  case (run_step certs s request r s')
  show ?case by (rule request_mail_ok [OF run_clean [OF run_step.hyps(1) clean] run_step.hyps(2) run_step.IH])
qed (simp_all add: ok)

section \<open>Messages\<close>

text \<open>The targets of a message in the state after its block.\<close>

definition addressed :: "ChainStateView \<Rightarrow> OutgoingMessage \<Rightarrow> Target \<Rightarrow> bool" where
  "addressed c m target \<longleftrightarrow> (case om_destination m of
     Dest_Recipient r \<Rightarrow> target = Target_chain r
   | Dest_Subscribers name \<Rightarrow> \<exists>cid. let channel = full_name (Message_application_id (om_message m)) name in
       cid \<in> set (subscribers (channel_of c channel)) \<and> target = Target_channel cid channel)"

lemma addressed_destination: "addressed c m target \<Longrightarrow> has_destination m (target_medium target) (recipient target)"
  by (auto simp: addressed_def has_destination_def Let_def full_name_def Target_chain_def Target_channel_def
      split: Destination.splits)

lemma executed_queued:
  assumes "execute_block env b t repl c = (Inr out, c')" and "mail_below (unat (height b)) c"
    and "m \<in> set (concat (messages out))" and "addressed c' m target"
  shows "in_queue (cs_outboxes c') target (height b)"
proof -
  have "served (height b) c'" "on_its_way (height b) c' m"
    using execute_block_delivers [OF assms(1) mail_below_heights [OF assms(2)]] assms(3) by (auto simp: delivering_def)
  then show ?thesis using assms(4)
    by (auto simp: addressed_def served_def subscribers_served_def on_its_way_def Let_def split: Destination.splits)
qed

lemma bundle_with_message:
  assumes "hv_value (cert_value cert) = ConfirmedBlock eb" and "m \<in> set (concat (messages (outcome eb)))"
    and "has_destination m medium rcp"
  shows "\<exists>p k. p \<in> set (message_bundles_for cert medium rcp) \<and> into_posted m k \<in> set (mb_messages (snd p))
    \<and> mb_certificate_hash (snd p) = hv_hash (cert_value cert)"
proof -
  let ?bundles = "bundles_loop (hv_hash (cert_value cert)) (block eb) medium rcp 0 0 (messages (outcome eb))"
  have b: "message_bundles_for cert medium rcp = ?bundles"
    by (simp add: message_bundles_for_def assms(1) executed_block_def)
  obtain i where "i < length (concat (messages (outcome eb)))" "concat (messages (outcome eb)) ! i = m"
    using assms(2) by (auto simp: in_set_conv_nth simp del: set_concat)
  then have "(i, m) \<in> set (List.enumerate 0 (concat (messages (outcome eb))))"
    by (auto simp: in_set_enumerate_eq)
  then have "into_posted m (of_nat i) \<in> set (concat (map (\<lambda>p. mb_messages (snd p)) ?bundles))"
    unfolding bundles_loop_messages [where n = 0, simplified] using assms(3) by force
  then obtain p where "p \<in> set ?bundles" "into_posted m (of_nat i) \<in> set (mb_messages (snd p))" by auto
  then show ?thesis using bundles_loop_header [of p] unfolding b by blast
qed

text \<open>The messages of the block that a worker confirms are in the requests it returns.\<close>

lemma confirm_sends:
  assumes run: "confirm_next_block env cert eb blobs t s = (Inr (info, actions), s')" and ok: "mail_ok (ws_chain s)"
    and h: "height (block eb) = next_block_height (tip s)" and v: "hv_value (cert_value cert) = ConfirmedBlock eb"
    and reads: "\<forall>w hashes certs. w_read_certificates (we_world env) w hashes = Inr certs \<longrightarrow> map stored hashes = map Some certs"
    and stored: "stored (hv_hash (cert_value cert)) = Some cert"
    and m: "m \<in> set (concat (messages (outcome eb)))" "addressed (ws_chain s') m target"
    and tracked: "is_tracked_target (ws_tracked_chains s') target"
  shows "\<exists>vecs bundles p k. UpdateRecipient (env_chain_id (we_chain env)) (recipient target) vecs \<in> set (na_cross_chain_requests actions)
    \<and> (target_medium target, bundles) \<in> set vecs \<and> p \<in> set bundles
    \<and> mb_certificate_hash (snd p) = hv_hash (cert_value cert) \<and> into_posted m k \<in> set (mb_messages (snd p))"
  using run ok h
proof (rule confirm_executes)
  fix c t c' s1 s2 acts
  assume below: "mail_below (unat (height (block eb))) c"
    and ex: "execute_block (we_chain env) (block eb) t (Some (oracle_responses (outcome eb))) c = (Inr (outcome eb), c')"
    and same: "cs_outboxes (ws_chain s1) = cs_outboxes c'" "cs_channels (ws_chain s1) = cs_channels c'"
    and log: "cs_confirmed_log (ws_chain s1) = cs_confirmed_log (ws_chain s) @ [hv_hash (cert_value cert)]"
    and run': "create_network_actions env s1 = (Inr acts, s2)" "na_cross_chain_requests actions = na_cross_chain_requests acts"
    and s': "ws_chain s' = ws_chain s1" "ws_tracked_chains s' = ws_tracked_chains s1"
  have "addressed c' m target" using m(2) unfolding addressed_def s' same(2) .
  from executed_queued [OF ex below m(1) this] have q: "in_queue (cs_outboxes (ws_chain s1)) target (height (block eb))"
    by (simp add: same)
  then obtain outbox where o: "(target, outbox) \<in> set (cs_outboxes (ws_chain s1))" "height (block eb) \<in> set (outbox_queue outbox)"
    by (auto simp: in_queue_def entry_or_def OutboxStateView_new_def split: option.splits dest: map_of_SomeD)
  have d: "distinct (map fst (cs_outboxes (ws_chain s1)))"
    using mail_below_execute [OF ex below] by (simp add: mail_below_def same)
  have r: "\<forall>hashes certs. w_read_certificates (we_world env) (ws_world s1) hashes = Inr certs \<longrightarrow> map stored hashes = map Some certs"
    using reads by blast
  have "cs_confirmed_log (ws_chain s1) ! unat (height (block eb)) = hv_hash (cert_value cert)"
    using ok h by (simp add: log mail_ok_def tip_def nth_append)
  then obtain vecs where vecs: "UpdateRecipient (env_chain_id (we_chain env)) (recipient target) vecs \<in> set (na_cross_chain_requests acts)"
      "\<forall>p \<in> set (message_bundles_for cert (target_medium target) (recipient target)).
        \<exists>bundles. (target_medium target, bundles) \<in> set vecs \<and> p \<in> set bundles"
    using network_actions_complete [OF run'(1) d r o(1) tracked [unfolded s'] o(2)] stored by auto
  from bundle_with_message [OF v m(1) addressed_destination [OF m(2)]] vecs show ?thesis unfolding run'(2) by blast
qed

lemma confirmed_run:
  assumes clean: "ws_chain s = ws_saved s" and run: "process_confirmed_block env cert blobs s = (Inr (info, actions), s')"
    and ok: "mail_ok (ws_chain s)" and v: "hv_value (cert_value cert) = ConfirmedBlock eb" and h: "height (block eb) = next_block_height (tip s)"
  shows "confirm_next_block env cert eb blobs (tip s) (s\<lparr>ws_succeeded := False\<rparr>) = (Inr (info, actions), s')"
proof -
  let ?s = "s\<lparr>ws_succeeded := False\<rparr>"
  obtain s1 where t: "try_process_confirmed_block env cert blobs ?s = (Inr (info, actions), s1)"
      and s': "s' = (if ws_succeeded s1 then s1 else rollback s1)"
    using run by (auto simp: process_confirmed_block_def wrappers_run(1) [OF clean] split: prod.splits)
  have c: "confirm_next_block env cert eb blobs (tip s) ?s = (Inr (info, actions), s1)"
    using t v h by (simp add: try_process_confirmed_block_def sr_bind_def sr_get_def tip_def)
  then have "ws_succeeded s1" by (rule confirm_executes) (use ok h in \<open>simp_all add: tip_def\<close>)
  then show ?thesis using c s' by simp
qed

section \<open>A block with a message\<close>

definition transfer_cert :: Certificate where
  "transfer_cert = \<lparr>cert_value = \<lparr>hv_value = ConfirmedBlock \<lparr>block = transfer_block, outcome = sample_result\<rparr>, hv_hash = 6\<rparr>,
     cert_round = Fast, cert_signatures = [(1, 1), (2, 2), (3, 3)]\<rparr>"

definition transfer_env :: "unit WorkerEnv" where
  "transfer_env = (sample_worker_env (Inr ()))\<lparr>we_world := (sample_world (Inr ()))
     \<lparr>w_read_certificates := (\<lambda>_ hashes. if hashes = [6] then Inr [transfer_cert] else Inl InvalidCrossChainRequest)\<rparr>\<rparr>"

lemma transfer_check: "Certificate_check sample_crypto transfer_cert paid_committee = Inr (cert_value transfer_cert)"
  by (simp add: Certificate_check_def check_signatures_def transfer_cert_def paid_committee_def Committee_new_def Let_def
      weight_def validator_state_def sample_crypto_def lite_value_def word_le_nat_alt unat_div_distrib word_less_nat_alt)

lemma transfer_remove: "remove_bundles_from_inboxes sample_chain_env transfer_block sample_chain = (Inr (), sample_chain)"
  by (simp add: remove_bundles_from_inboxes_def sr_bind_def sr_lift_def sr_modify_def load_entries_def sr_ok_def
      forget_unskippable_def sample_chain_def)

lemma transfer_confirms:
  "\<exists>info actions s'. process_confirmed_block transfer_env transfer_cert [] (sample_worker sample_chain) = (Inr (info, actions), s')
     \<and> ws_tracked_chains s' = None \<and> cs_confirmed_log (ws_chain s') = [21, 22, 1, 6]"
proof -
  have b: "required_blob_ids \<lparr>block = transfer_block, outcome = sample_result\<rparr> = {}"
    by (simp add: required_blob_ids_def Outcome_required_blob_ids_def sample_result_def map_filter_def published_blob_ids_def
        sample_transfer_def)
  have o: "oracle_responses sample_result = [[]]" by (simp add: sample_result_def)
  have cr: "ce_crypto sample_chain_env = sample_crypto" by (simp add: sample_chain_env_def)
  have add: "try_add_one (3 :: u64) = Inr 4" by (simp add: try_add_one_def checked_add_def)
  have v: "hv_value (cert_value transfer_cert) = ConfirmedBlock \<lparr>block = transfer_block, outcome = sample_result\<rparr>"
    "hv_hash (cert_value transfer_cert) = 6" by (simp_all add: transfer_cert_def)
  have t: "cs_outboxes sample_chain' = sample_outboxes" "cs_tip_state sample_chain' = cs_tip_state sample_chain"
      "cs_confirmed_log sample_chain' = [21, 22, 1]" "epoch transfer_block = 0" "previous_block_hash transfer_block = Some 1"
    by (simp_all add: sample_chain'_def sample_at_def sample_tip transfer_block_def)
  note ex = sample_execute_block [OF disjI2 [OF refl]]
  show ?thesis
    unfolding process_confirmed_block_def with_attempted_changes_def assert_no_pending_changes_def
      has_pending_changes_def try_process_confirmed_block_def confirm_next_block_def Let_def v
    by (simp add: sr_bind_def sr_get_def tip_def sample_worker_def sample_tip init_first_block_def is_first_block_def sr_ok_def
        worker_ensure_is_active_def ensure_is_active_def sample_worker_env_def transfer_env_def sample_active sr_lift_def sr_modify_def
        expect_committee_def system_of_def sample_committee check_block_epoch_def check_certificate_def cr transfer_check
        sr_ensure_def check_no_missing_blobs_def get_missing_blobs_def b sample_world_def cache_recent_blobs_def
        get_blobs_def on_world_def in_chain_def transfer_remove current_time_def o ex v t
        advance_tip_def add track_newly_created_chains_def create_network_actions_def heights_by_recipient_def
        is_tracked_target_def sample_outboxes_def create_cross_chain_request_def nth_opt_def
        save_def cache_value_def)
qed

end
