(* ===== verification/Worker_Mail_Props.thy ===== *)
theory Worker_Mail_Props
  imports Worker_Delivery
begin

text \<open>
  Properties of the mailboxes of a worker's chain.
\<close>

section \<open>Well-formed mailboxes\<close>

text \<open>C17. The mailboxes of a chain stay well-formed. Start with empty mailboxes and a log with one entry per
  block. Whatever requests the worker handles, each target has one outbox, the heights in it are in
  increasing order, and every height in an outbox or in a channel is that of a confirmed block in the log.\<close>

theorem mailboxes_well_formed:
  assumes "worker_run env s0 certs s" and "ws_chain s0 = ws_saved s0" and "fresh_mailboxes (ws_chain s0)"
    and "length (cs_confirmed_log (ws_chain s0)) = unat (next_block_height (tip s0))"
  shows "distinct (map fst (cs_outboxes (ws_chain s)))
    \<and> (\<forall>(target, outbox) \<in> set (cs_outboxes (ws_chain s)). sorted_wrt (<) (outbox_queue outbox)
        \<and> (\<forall>h \<in> set (outbox_queue outbox). unat h < length (cs_confirmed_log (ws_chain s))))
    \<and> (\<forall>name channel. map_of (cs_channels (ws_chain s)) name = Some channel \<longrightarrow>
        (\<forall>h \<in> set (block_heights channel). unat h < length (cs_confirmed_log (ws_chain s))))"
proof -
  let ?c = "ws_chain s"
  have "mail_ok (ws_chain s0)" using assms(3,4) by (simp add: mail_ok_def mail_below_fresh tip_def)
  from run_mail_ok [OF assms(1,2) this] have below: "mail_below (length (cs_confirmed_log ?c)) ?c" by (simp add: mail_ok_def)
  then have d: "distinct (map fst (cs_outboxes ?c))" by (simp add: mail_below_def)
  have "sorted_wrt (<) (outbox_queue outbox) \<and> (\<forall>h \<in> set (outbox_queue outbox). unat h < length (cs_confirmed_log ?c))"
    if "(target, outbox) \<in> set (cs_outboxes ?c)" for target outbox
  proof -
    have "outbox_of ?c target = outbox" using that d by (simp add: entry_or_def)
    then have "outbox_inv outbox" "unat (next_height_to_schedule outbox) \<le> length (cs_confirmed_log ?c)"
      using below by (auto simp: mail_below_def)
    then show ?thesis by (fastforce simp: outbox_inv_def list_all_iff word_less_nat_alt)
  qed
  moreover have "\<forall>h \<in> set (block_heights channel). unat h < length (cs_confirmed_log ?c)"
    if "map_of (cs_channels ?c) name = Some channel" for name channel
  proof -
    have "channel_of ?c name = channel" using that by (simp add: entry_or_def)
    then show ?thesis using below by (auto simp: mail_below_def)
  qed
  ultimately show ?thesis using d by blast
qed

lemma sample_fresh:
  "ws_chain (sample_worker sample_chain) = ws_saved (sample_worker sample_chain)"
  "fresh_mailboxes (ws_chain (sample_worker sample_chain))"
  "length (cs_confirmed_log (ws_chain (sample_worker sample_chain))) = unat (next_block_height (tip (sample_worker sample_chain)))"
  by (simp_all add: sample_worker_def fresh_mailboxes_def sample_chain_def tip_def)

theorem mailboxes_well_formed_witness:
  "\<exists>s. worker_run transfer_env (sample_worker sample_chain) [transfer_cert] s
     \<and> (\<forall>(target, outbox) \<in> set (cs_outboxes (ws_chain s)). \<forall>h \<in> set (outbox_queue outbox). unat h < 4)"
proof -
  obtain x s' where p: "process_confirmed_block transfer_env transfer_cert [] (sample_worker sample_chain) = (Inr x, s')"
      and log: "cs_confirmed_log (ws_chain s') = [21, 22, 1, 6]"
    using transfer_confirms by blast
  have r: "run_request transfer_env (ProcessConfirmedBlock transfer_cert []) (sample_worker sample_chain) = (Inr (), s')"
    by (simp add: run_request_def sr_bind_def sr_ok_def p)
  have "newly_confirmed (ProcessConfirmedBlock transfer_cert []) (sample_worker sample_chain) s' = [transfer_cert]"
    by (simp add: newly_confirmed_def log sample_worker_def sample_tip)
  then have run: "worker_run transfer_env (sample_worker sample_chain) [transfer_cert] s'" using run_step [OF run_start r] by simp
  from mailboxes_well_formed [OF run sample_fresh] show ?thesis
    by (intro exI [of _ s'] conjI run) (auto simp: log eval_nat_numeral)
qed

end
