(* ===== verification/Spec2Isabelle.thy ===== *)
theory Spec2Isabelle
  imports
    Amount_Text
    Certificate_Props
    Consensus_Runs
    Inbox
    Outbox
    Resources
    System_Props
    Chain_Props
    Kv_Props
    Kv_Recovery
    Worker_Props
    Worker_Findings
    Worker_Mail_Props
begin

text \<open>
  A verification library for the Linera protocol: microchains whose blocks are certified by a
  committee of validators, which exchange messages through inboxes and outboxes. The model follows the
  Rust sources under \<^verbatim>\<open>src/\<close> function by function; names are kept where Isabelle allows it.

  \<^bold>\<open>The program.\<close> A block is proposed by an owner of a chain. The chain manager of each validator decides
  whether to vote for it, signatures are aggregated into certificates, and a confirmed block is executed by
  the worker of the chain: bundles of incoming messages leave the inboxes, operations and messages run
  in the system application or in user applications under a resource controller that charges fees, and
  outgoing messages are scheduled in outboxes. The worker then sends the bundles of its
  outboxes to the workers of the recipients, which put them into inboxes and acknowledge them. The state of a
  chain is kept in a key-value store, to which large batches are written through a journal.

  \<^bold>\<open>Conventions.\<close> \<open>Prelude\<close>: machine integers are words (arithmetic wraps, or is checked as in the source),
  \<^verbatim>\<open>Result\<close> is a sum with the error on the left, \<^verbatim>\<open>BTreeMap\<close> is a strictly sorted association list. Panics are
  values of the error type. \<open>State_Result\<close>: a method with \<^verbatim>\<open>&mut self\<close> is a function from the state to a result
  and the state it leaves behind, also on errors; \<open>keeps\<close> is the preservation of a property by
  successful runs. Hashing, signing, serialized sizes, user contracts, the storage client, the clock and
  the inner key-value store are parameters; a theorem that needs more of them than their type names
  its hypotheses.

  \<^bold>\<open>Data.\<close> \<open>Base_Numbers\<close>, \<open>Amount_Text\<close>, \<open>Ownership\<close> model \<^verbatim>\<open>linera-base/src/data_types.rs\<close> and
  \<^verbatim>\<open>ownership.rs\<close>; \<open>Policy\<close>, \<open>Committee\<close>, \<open>Execution_Types\<close> the prices, committees and
  the vocabulary of operations and messages of \<^verbatim>\<open>linera-execution/src\<close>; \<open>Chain_Types\<close>, \<open>Certificates\<close> the
  blocks, votes and certificates of \<^verbatim>\<open>linera-chain/src/data_types.rs\<close>. Shown: exact prices and thresholds,
  any two quorums share an honest validator (locale \<open>quorum_system\<close>), amounts survive printing and parsing,
  a certificate that passes the check has a quorum of distinct validators behind it, the aggregator emits
  a certificate exactly when the quorum is reached, and the bundles cut from a certificate are the
  messages of its block (\<open>Certificate_Props\<close>).

  \<^bold>\<open>Consensus.\<close> \<open>Manager\<close> is \<^verbatim>\<open>linera-chain/src/manager.rs\<close>. \<open>Consensus\<close> runs it in a system of validators,
  of which fewer than a third of the weight is faulty, under arbitrary schedules: two blocks confirmed at the same
  height are equal if both come from the fast round or both from later rounds, and always without super owners.
  \<open>Consensus_Runs\<close> has an execution that shows why the rounds must be told apart. \<open>Countable_Values\<close> provides a collision-free hash
  function, so that the hypotheses can be met.

  \<^bold>\<open>Execution.\<close> \<open>Resources\<close> (\<^verbatim>\<open>resources.rs\<close>), \<open>Transaction_Tracker\<close>, \<open>Applications\<close>, \<open>System_State\<close> (\<^verbatim>\<open>system.rs\<close>) and
  \<open>Execution\<close> (\<^verbatim>\<open>execution.rs\<close>). Shown: fees are charged exactly for what was tracked, for both kinds of
  paying accounts (locale \<open>balance_holder\<close>); system operations and messages conserve tokens, need the owner's
  signature to move an owner's funds, keep active chains active, and replay from recorded oracle responses
  (\<open>System_Props\<close>); described applications can be registered in the order given.

  \<^bold>\<open>Chains.\<close> \<open>Inbox\<close>, \<open>Outbox\<close>, \<open>Chain_State\<close> and \<open>Block_Execution\<close> model \<^verbatim>\<open>inbox.rs\<close>, \<^verbatim>\<open>outbox.rs\<close> and \<^verbatim>\<open>chain.rs\<close>.
  The inbox refines two sequences of bundles and neither loses nor duplicates a message. \<open>Chain_Outboxes\<close>
  defines the steps of a chain and, with the locales \<open>mailbox_invariant\<close> and \<open>mailbox_blind\<close>, lifts a
  property of the mailboxes through the execution of a block; \<open>Chain_Inboxes\<close>, \<open>Chain_Delivery\<close> and
  \<open>Chain_Heights\<close> interpret them. \<open>Chain_Props\<close>: acknowledgements and delivery queries are exact, every message of
  an executed block is queued for each recipient, and the queue of unskippable bundles is exact.

  \<^bold>\<open>Workers.\<close> \<open>Chain_Worker\<close> models the requests of \<^verbatim>\<open>linera-core/src/chain_worker\<close>: each stages changes on the view of
  the chain and saves them or rolls them back. \<open>Worker_Requests\<close> relates the chain before and after a
  request through the locales \<open>chain_relation\<close>, \<open>mailbox_relation\<close> and \<open>block_relation\<close>; \<open>Worker_Runs\<close> defines
  sequences of requests. \<open>Worker_Props\<close>: the confirmed blocks form a chain, requests are atomic, and they are sequences
  of the steps above. \<open>Worker_Messages\<close>, \<open>Worker_Delivery\<close>, \<open>Worker_Mail_Props\<close>: which bundles are
  accepted, that all queued messages are sent, and that the mailboxes stay well-formed; the last theorem, below, joins
  them with the execution of blocks. \<open>Worker_Findings\<close> has a request that makes the worker panic.

  \<^bold>\<open>Storage.\<close> \<open>Kv_Keys\<close>, \<open>Kv_Batch\<close>, \<open>Kv_Memory\<close>, \<open>Kv_Journal\<close> model \<^verbatim>\<open>common.rs\<close>, \<^verbatim>\<open>batch.rs\<close>,
  \<^verbatim>\<open>backends/memory.rs\<close> and \<^verbatim>\<open>backends/journaling.rs\<close> of \<^verbatim>\<open>linera-views/src\<close>, \<open>Kv_Bcs\<close> an instance of
  the encodings. The locales \<open>kv_store\<close>, \<open>journaled\<close> and \<open>reliable_journal\<close> state what a store promises; the store in
  memory interprets them. Shown (\<open>Kv_Props\<close>, \<open>Kv_Journal_Props\<close>, \<open>Kv_Recovery\<close>): simplified batches have the effect
  of the original ones in any order, journaled writes are atomic under any failures and
  interrupted recoveries, and recovery completes once the store works.

  \<^bold>\<open>Loops and bounds.\<close> All loops are structural recursions or functions with a termination proof (the
  dependencies of applications, the blocks of a journal, the values of a batch); no fuel is used. Theorems about
  outbox counters assume fewer than \<open>2^32\<close> outboxes and those about journals batches of fewer than \<open>2^32\<close>
  operations, the ranges of the code's counters.

  \<^bold>\<open>Samples.\<close> \<open>Chain_Samples\<close>, \<open>Worker_Samples\<close> and the samples of other theories are concrete states on which
  the theorems with hypotheses are exercised.

  \<^bold>\<open>Not modelled.\<close> The views of \<^verbatim>\<open>linera-views/src/views\<close>, which stage changes to the key-value store: the state of a
  chain is modelled by the values they hold. The wasm runtime and its host functions
  (\<^verbatim>\<open>runtime.rs\<close>, \<^verbatim>\<open>wasm\<close>): user code is a parameter. The client, the updater, RPC, the services and the
  command line: networking around the modelled requests. Storage drivers, caching and value
  splitting, \<^verbatim>\<open>linera-storage\<close>: parameters of the worker and of the journal. Generated code, macros, \<^verbatim>\<open>linera-witty\<close>, the
  SDK and the examples. Metrics, logging and failures of single view accesses.
\<close>

section \<open>Messages of confirmed blocks\<close>

text \<open>C4. The messages of a confirmed block are sent. Start with empty mailboxes and a log with one entry per
  block, and let the worker handle any requests. When it then confirms the next block, the network
  actions it returns hold, for every message of the block and every tracked target of it, direct or subscribed to
  the channel of the message, a request to the recipient with a bundle of this block that contains the
  message. The storage is assumed to return, when it returns certificates, the ones with the requested hashes.\<close>

theorem confirmed_messages_sent:
  assumes "worker_run env s0 certs s" and "ws_chain s0 = ws_saved s0" and "fresh_mailboxes (ws_chain s0)"
    and "length (cs_confirmed_log (ws_chain s0)) = unat (next_block_height (tip s0))"
    and "process_confirmed_block env cert blobs s = (Inr (info, actions), s')"
    and "hv_value (cert_value cert) = ConfirmedBlock eb" and "height (block eb) = next_block_height (tip s)"
    and "\<forall>w hashes certs. w_read_certificates (we_world env) w hashes = Inr certs \<longrightarrow> map stored hashes = map Some certs"
    and "stored (hv_hash (cert_value cert)) = Some cert"
    and "m \<in> set (concat (messages (outcome eb)))" and "addressed (ws_chain s') m target"
    and "is_tracked_target (ws_tracked_chains s') target"
  shows "\<exists>vecs bundles p k. UpdateRecipient (env_chain_id (we_chain env)) (recipient target) vecs \<in> set (na_cross_chain_requests actions)
    \<and> (target_medium target, bundles) \<in> set vecs \<and> p \<in> set bundles
    \<and> mb_certificate_hash (snd p) = hv_hash (cert_value cert) \<and> into_posted m k \<in> set (mb_messages (snd p))"
proof -
  have "mail_ok (ws_chain s0)" using assms(3,4) by (simp add: mail_ok_def mail_below_fresh tip_def)
  from run_mail_ok [OF assms(1,2) this] have ok: "mail_ok (ws_chain s)" .
  have "mail_ok (ws_chain (s\<lparr>ws_succeeded := False\<rparr>))" "height (block eb) = next_block_height (tip (s\<lparr>ws_succeeded := False\<rparr>))"
    using ok assms(7) by (simp_all add: tip_def)
  from confirm_sends [OF confirmed_run [OF run_clean [OF assms(1,2)] assms(5) ok assms(6,7)] this assms(6,8-12)] show ?thesis .
qed

theorem confirmed_messages_sent_witness:
  "\<exists>info actions s' vecs bundles p k. process_confirmed_block transfer_env transfer_cert [] (sample_worker sample_chain) = (Inr (info, actions), s')
    \<and> UpdateRecipient 4 5 vecs \<in> set (na_cross_chain_requests actions) \<and> (Direct, bundles) \<in> set vecs \<and> p \<in> set bundles
    \<and> mb_certificate_hash (snd p) = 6 \<and> into_posted sample_out_message k \<in> set (mb_messages (snd p))"
proof -
  obtain info actions s' where p: "process_confirmed_block transfer_env transfer_cert [] (sample_worker sample_chain) = (Inr (info, actions), s')"
      and t: "ws_tracked_chains s' = None"
    using transfer_confirms by blast
  have v: "hv_value (cert_value transfer_cert) = ConfirmedBlock \<lparr>block = transfer_block, outcome = sample_result\<rparr>"
    "hv_hash (cert_value transfer_cert) = 6" by (simp_all add: transfer_cert_def)
  have h: "height (block \<lparr>block = transfer_block, outcome = sample_result\<rparr>) = next_block_height (tip (sample_worker sample_chain))"
    by (simp add: tip_def sample_worker_def sample_tip)
  have a: "addressed (ws_chain s') sample_out_message (Target_chain 5)" by (simp add: addressed_def sample_out_message_def)
  have "\<exists>vecs bundles p k. UpdateRecipient (env_chain_id (we_chain transfer_env)) (recipient (Target_chain 5)) vecs \<in> set (na_cross_chain_requests actions)
    \<and> (target_medium (Target_chain 5), bundles) \<in> set vecs \<and> p \<in> set bundles
    \<and> mb_certificate_hash (snd p) = hv_hash (cert_value transfer_cert) \<and> into_posted sample_out_message k \<in> set (mb_messages (snd p))"
    by (rule confirmed_messages_sent [OF run_start sample_fresh p v(1) h, where stored = "\<lambda>hash. if hash = 6 then Some transfer_cert else None"])
      (use a in \<open>auto simp: v transfer_env_def sample_result_def is_tracked_target_def t\<close>)
  then show ?thesis using p by (auto simp: v Target_chain_def transfer_env_def sample_worker_env_def)
qed

end
